(* ===== verification/Prelude.thy ===== *)
theory Prelude
  imports Main "HOL-Library.Sublist"
begin

text \<open>
  What every component of the development shares: Go's strings as byte lists with the functions
  of package \<open>strings\<close> that the program calls, Go's errors, and the effect type \<open>go\<close> of a Go
  call that reads and writes the outside world, may panic, and may fail to return. The facts
  that carry the component proofs are collected in \<open>go_simps\<close> (equations for running a call)
  and \<open>go_elims\<close> (what a call that has returned must have done).
\<close>

named_theorems go_simps "equations for running Go calls"
named_theorems go_elims "elimination rules for Go calls that have returned"


section \<open>Strings\<close>

text \<open>
  A Go string is a sequence of bytes; \<open>string\<close> is a list of 8-bit characters, so lengths and
  slices agree. \<open>strings.Index\<close> and \<open>strings.LastIndex\<close> return -1 where the model returns
  \<open>None\<close>.
\<close>

definition has_prefix :: "string \<Rightarrow> string \<Rightarrow> bool" where
  "has_prefix s p \<longleftrightarrow> take (length p) s = p"

definition has_suffix :: "string \<Rightarrow> string \<Rightarrow> bool" where
  "has_suffix s p \<longleftrightarrow> length p \<le> length s \<and> drop (length s - length p) s = p"

fun index_of :: "char \<Rightarrow> string \<Rightarrow> nat option" where
  "index_of c [] = None"
| "index_of c (x # xs) = (if x = c then Some 0 else map_option Suc (index_of c xs))"

fun last_index_of :: "char \<Rightarrow> string \<Rightarrow> nat option" where
  "last_index_of c [] = None"
| "last_index_of c (x # xs) =
     (case last_index_of c xs of
        Some i \<Rightarrow> Some (Suc i)
      | None \<Rightarrow> if x = c then Some 0 else None)"

fun split_on :: "char \<Rightarrow> string \<Rightarrow> string list" where
  "split_on c [] = [[]]"
| "split_on c (x # xs) =
     (if x = c then [] # split_on c xs
      else case split_on c xs of [] \<Rightarrow> [[x]] | y # ys \<Rightarrow> (x # y) # ys)"

lemma has_prefix_iff: "has_prefix s p \<longleftrightarrow> prefix p s"
  unfolding has_prefix_def prefix_def
  by (metis append_take_drop_id append_eq_conv_conj)

lemma has_prefix_append [simp]: "has_prefix (p @ s) p"
  by (simp add: has_prefix_def)

lemma index_of_None [simp]: "index_of c s = None \<longleftrightarrow> c \<notin> set s"
  by (induction s) auto

lemma last_index_of_None [simp]: "last_index_of c s = None \<longleftrightarrow> c \<notin> set s"
  by (induction s) (auto split: option.splits)

lemma index_of_absent: "c \<notin> set s \<Longrightarrow> index_of c s = None"
  by simp

lemma last_index_of_absent: "c \<notin> set s \<Longrightarrow> last_index_of c s = None"
  by simp

lemma index_of_append: "c \<notin> set s \<Longrightarrow> index_of c (s @ c # t) = Some (length s)"
  by (induction s) auto

lemma last_index_of_append: "c \<notin> set t \<Longrightarrow> last_index_of c (s @ c # t) = Some (length s)"
  by (induction s) (auto simp: last_index_of_absent)

text \<open>The two searches cut the string where the byte occurs first or last.\<close>

lemma index_of_SomeD:
  "index_of c s = Some i \<Longrightarrow> i < length s \<and> s = take i s @ c # drop (Suc i) s \<and> c \<notin> set (take i s)"
  by (induction s arbitrary: i) (auto split: if_splits)

lemma last_index_of_SomeD:
  "last_index_of c s = Some i \<Longrightarrow>
     i < length s \<and> s = take i s @ c # drop (Suc i) s \<and> c \<notin> set (drop (Suc i) s)"
proof (induction s arbitrary: i)
  case Nil
  then show ?case by simp
next
  case (Cons x xs)
  show ?case
  proof (cases "last_index_of c xs")
    case None
    with Cons.prems show ?thesis by (auto split: if_splits)
  next
    case (Some j)
    with Cons.prems Cons.IH [OF Some] show ?thesis by auto
  qed
qed

lemma split_on_not_Nil [simp]: "split_on c s \<noteq> []"
  by (induction s) (auto split: list.splits)

lemma split_on_no_sep: "p \<in> set (split_on c s) \<Longrightarrow> c \<notin> set p"
  by (induction s arbitrary: p) (fastforce split: if_splits list.splits)+

lemma split_on_absent: "c \<notin> set s \<Longrightarrow> split_on c s = [s]"
  by (induction s) auto

lemma split_on_append: "c \<notin> set s \<Longrightarrow> split_on c (s @ c # t) = s # split_on c t"
  by (induction s) auto


section \<open>Decimal numbers\<close>

text \<open>The verb \<open>%d\<close> of \<open>fmt\<close>: decimal digits with a minus sign for negative numbers.\<close>

definition digit_char :: "nat \<Rightarrow> char" where
  "digit_char d = char_of (48 + d)"

fun nat_dec :: "nat \<Rightarrow> string" where
  "nat_dec n = (if n < 10 then [digit_char n] else nat_dec (n div 10) @ [digit_char (n mod 10)])"

declare nat_dec.simps [simp del]

definition int_dec :: "int \<Rightarrow> string" where
  "int_dec i = (if i < 0 then CHR ''-'' # nat_dec (nat (- i)) else nat_dec (nat i))"


section \<open>Errors\<close>

text \<open>
  A Go error: the status errors of the Kubernetes API server that the program tells apart
  (\<open>errors.IsNotFound\<close>, \<open>errors.IsConflict\<close>), the error of a cancelled context, an error made
  by \<open>fmt.Errorf\<close> without a cause, and one that wraps a cause with the verb \<open>%w\<close>. The two tests
  look through wrapping, as \<open>errors.As\<close> does.
\<close>

datatype goerror =
    NotFound string
  | Conflict string
  | CtxErr string
  | Failure string
  | Errorf string
  | Wrap string goerror

fun isNotFound :: "goerror \<Rightarrow> bool" where
  "isNotFound (NotFound _) = True"
| "isNotFound (Wrap _ e) = isNotFound e"
| "isNotFound _ = False"

fun isConflict :: "goerror \<Rightarrow> bool" where
  "isConflict (Conflict _) = True"
| "isConflict (Wrap _ e) = isConflict e"
| "isConflict _ = False"


section \<open>Calls with effects\<close>

text \<open>
  A Go call is a function of the world: \<open>None\<close> when it never returns, otherwise an outcome (a
  returned value or a panic) with the world it leaves. The world is a type parameter; what the
  code does to it goes through the operations of the outside (API server, clock, network),
  which are arguments of the model.
\<close>

datatype 'a outcome = Return 'a | Panic string

type_synonym ('w, 'a) go = "'w \<Rightarrow> ('a outcome \<times> 'w) option"

definition go_ret :: "'a \<Rightarrow> ('w, 'a) go" where
  "go_ret x w = Some (Return x, w)"

definition go_panic :: "string \<Rightarrow> ('w, 'a) go" where
  "go_panic msg w = Some (Panic msg, w)"

definition go_call :: "('w \<Rightarrow> 'a \<times> 'w) \<Rightarrow> ('w, 'a) go" where
  "go_call f w = (case f w of (x, w') \<Rightarrow> Some (Return x, w'))"

definition go_bind :: "('w, 'a) go \<Rightarrow> ('a \<Rightarrow> ('w, 'b) go) \<Rightarrow> ('w, 'b) go" where
  "go_bind m f w =
     (case m w of
        None \<Rightarrow> None
      | Some (Return x, w') \<Rightarrow> f x w'
      | Some (Panic msg, w') \<Rightarrow> Some (Panic msg, w'))"

text \<open>The idiom \<open>v, err := m(); if err != nil { return ..., g(err) }\<close>.\<close>

definition go_try ::
  "(goerror \<Rightarrow> goerror) \<Rightarrow> ('w, goerror + 'a) go \<Rightarrow> ('a \<Rightarrow> ('w, goerror + 'b) go) \<Rightarrow>
   ('w, goerror + 'b) go" where
  "go_try g m f = go_bind m (\<lambda>r. case r of Inl e \<Rightarrow> go_ret (Inl (g e)) | Inr x \<Rightarrow> f x)"

text \<open>\<open>returns m w x w'\<close>: run from \<open>w\<close>, the call returns \<open>x\<close> and leaves \<open>w'\<close>.\<close>

definition returns :: "('w, 'a) go \<Rightarrow> 'w \<Rightarrow> 'a \<Rightarrow> 'w \<Rightarrow> bool" where
  "returns m w x w' \<longleftrightarrow> m w = Some (Return x, w')"

lemma go_bind_apply [go_simps]:
  "m w = Some (Return x, w') \<Longrightarrow> go_bind m f w = f x w'"
  "m w = Some (Panic msg, w') \<Longrightarrow> go_bind m f w = Some (Panic msg, w')"
  "m w = None \<Longrightarrow> go_bind m f w = None"
  by (simp_all add: go_bind_def)

lemma go_bind_ret [simp]: "go_bind (go_ret x) f = f x"
  by (simp add: fun_eq_iff go_bind_def go_ret_def)

lemma go_bind_assoc: "go_bind (go_bind m f) g = go_bind m (\<lambda>x. go_bind (f x) g)"
  by (auto simp: fun_eq_iff go_bind_def split: option.splits outcome.splits)

lemma go_bind_cong:
  assumes "\<And>x. f x = g x"
  shows "go_bind m f = go_bind m g"
proof -
  from assms have "f = g" by (rule ext)
  then show ?thesis by simp
qed

lemma go_bind_ret_right [simp]: "go_bind m go_ret = m"
  by (auto simp: fun_eq_iff go_bind_def go_ret_def split: option.splits outcome.splits)

lemma returns_ret [simp]: "returns (go_ret x) w y w' \<longleftrightarrow> y = x \<and> w' = w"
  by (auto simp: returns_def go_ret_def)

lemma returns_panic [simp]: "\<not> returns (go_panic msg) w y w'"
  by (simp add: returns_def go_panic_def)

lemma returns_call [simp]: "returns (go_call f) w y w' \<longleftrightarrow> f w = (y, w')"
  by (auto simp: returns_def go_call_def split: prod.splits)

lemma returns_bind:
  "returns (go_bind m f) w y w'' \<longleftrightarrow> (\<exists>x w'. returns m w x w' \<and> returns (f x) w' y w'')"
  by (auto simp: returns_def go_bind_def split: option.splits outcome.splits)

lemma returns_bindE [go_elims]:
  assumes "returns (go_bind m f) w y w''"
  obtains x w' where "returns m w x w'" and "returns (f x) w' y w''"
  using assms by (auto simp: returns_bind)

lemma returns_bindI: "returns m w x w' \<Longrightarrow> returns (f x) w' y w'' \<Longrightarrow> returns (go_bind m f) w y w''"
  by (auto simp: returns_bind)

lemma returns_tryI: "returns m w (Inr x) w' \<Longrightarrow> returns (f x) w' y w'' \<Longrightarrow> returns (go_try g m f) w y w''"
  unfolding go_try_def by (erule returns_bindI) simp

lemma returns_try:
  "returns (go_try g m f) w y w'' \<longleftrightarrow>
     (\<exists>e w'. returns m w (Inl e) w' \<and> y = Inl (g e) \<and> w'' = w') \<or>
     (\<exists>x w'. returns m w (Inr x) w' \<and> returns (f x) w' y w'')"
  by (auto simp: go_try_def returns_bind split_sum_ex)

lemma returns_tryE [go_elims]:
  assumes "returns (go_try g m f) w y w''"
  obtains (fail) e where "returns m w (Inl e) w''" and "y = Inl (g e)"
    | (ok) x w' where "returns m w (Inr x) w'" and "returns (f x) w' y w''"
  using assms by (auto simp: returns_try)

lemma returns_unique: "returns m w x w' \<Longrightarrow> returns m w y w'' \<Longrightarrow> x = y \<and> w' = w''"
  by (simp add: returns_def)

lemma go_call_apply [go_simps]: "f w = (x, w') \<Longrightarrow> go_call f w = Some (Return x, w')"
  by (simp add: go_call_def)

lemma go_ret_apply [go_simps]: "go_ret x w = Some (Return x, w)"
  by (simp add: go_ret_def)

lemma go_try_apply [go_simps]:
  "m w = Some (Return (Inl e), w') \<Longrightarrow> go_try g m f w = Some (Return (Inl (g e)), w')"
  "m w = Some (Return (Inr x), w') \<Longrightarrow> go_try g m f w = f x w'"
  "m w = Some (Panic msg, w') \<Longrightarrow> go_try g m f w = Some (Panic msg, w')"
  by (simp_all add: go_try_def go_bind_def go_ret_def)

text \<open>\<open>go_total m\<close>: from every world the call returns, without a panic.\<close>

definition go_total :: "('w, 'a) go \<Rightarrow> bool" where
  "go_total m \<longleftrightarrow> (\<forall>w. \<exists>x w'. returns m w x w')"

lemma go_total_ret: "go_total (go_ret x)"
  by (simp add: go_total_def)

lemma go_total_call: "go_total (go_call f)"
  unfolding go_total_def returns_call by (metis surj_pair)

lemma go_total_bind:
  assumes "go_total m" and "\<And>x w w'. returns m w x w' \<Longrightarrow> go_total (f x)"
  shows "go_total (go_bind m f)"
  using assms unfolding go_total_def returns_bind by meson

lemma go_total_case_sum:
  assumes "\<And>e. r = Inl e \<Longrightarrow> go_total (A e)" and "\<And>x. r = Inr x \<Longrightarrow> go_total (B x)"
  shows "go_total (case r of Inl e \<Rightarrow> A e | Inr x \<Rightarrow> B x)"
  using assms by (cases r) simp_all

lemma go_total_case_option:
  assumes "r = None \<Longrightarrow> go_total A" and "\<And>x. r = Some x \<Longrightarrow> go_total (B x)"
  shows "go_total (case r of None \<Rightarrow> A | Some x \<Rightarrow> B x)"
  using assms by (cases r) simp_all

lemma go_total_case_prod:
  assumes "\<And>a b. r = (a, b) \<Longrightarrow> go_total (A a b)"
  shows "go_total (case r of (a, b) \<Rightarrow> A a b)"
  using assms by (cases r) simp

lemma go_total_if:
  "(c \<Longrightarrow> go_total A) \<Longrightarrow> (\<not> c \<Longrightarrow> go_total B) \<Longrightarrow> go_total (if c then A else B)"
  by simp

lemma go_total_try:
  assumes "go_total m" and "\<And>x w w'. returns m w (Inr x) w' \<Longrightarrow> go_total (f x)"
  shows "go_total (go_try g m f)"
  unfolding go_try_def
  by (intro go_total_bind go_total_case_sum go_total_ret assms) blast

lemmas go_total_intros =
  go_total_ret go_total_call go_total_bind go_total_try go_total_case_sum go_total_case_option
  go_total_case_prod go_total_if

lemma go_totalE:
  assumes "go_total m"
  obtains x w' where "returns m w x w'"
proof -
  from assms have "\<exists>x w'. returns m w x w'" by (simp add: go_total_def)
  with that show thesis by blast
qed

text \<open>
  \<open>preserves P m\<close>: whenever the call comes back, by returning or by a panic, a world with
  property \<open>P\<close> has been left with property \<open>P\<close>.
\<close>

definition preserves :: "('w \<Rightarrow> bool) \<Rightarrow> ('w, 'a) go \<Rightarrow> bool" where
  "preserves P m \<longleftrightarrow> (\<forall>w r w'. P w \<longrightarrow> m w = Some (r, w') \<longrightarrow> P w')"

lemma preserves_ret: "preserves P (go_ret x)"
  by (simp add: preserves_def go_ret_def)

lemma preserves_panic: "preserves P (go_panic msg)"
  by (simp add: preserves_def go_panic_def)

lemma preserves_call: "(\<And>w x w'. P w \<Longrightarrow> f w = (x, w') \<Longrightarrow> P w') \<Longrightarrow> preserves P (go_call f)"
  by (auto simp: preserves_def go_call_def split: prod.splits)

lemma preserves_bind:
  assumes "preserves P m" and "\<And>x. preserves P (f x)"
  shows "preserves P (go_bind m f)"
  unfolding preserves_def
proof (intro allI impI)
  fix w r w'
  assume "P w" and run: "go_bind m f w = Some (r, w')"
  then obtain r1 w1 where m: "m w = Some (r1, w1)"
    by (auto simp: go_bind_def split: option.splits)
  with assms(1) \<open>P w\<close> have "P w1" by (simp add: preserves_def)
  with m run assms(2) show "P w'"
    by (cases r1) (simp_all add: go_bind_def preserves_def)
qed

lemma preserves_case_sum:
  assumes "\<And>e. r = Inl e \<Longrightarrow> preserves P (A e)" and "\<And>x. r = Inr x \<Longrightarrow> preserves P (B x)"
  shows "preserves P (case r of Inl e \<Rightarrow> A e | Inr x \<Rightarrow> B x)"
  using assms by (cases r) simp_all

lemma preserves_case_option:
  assumes "r = None \<Longrightarrow> preserves P A" and "\<And>x. r = Some x \<Longrightarrow> preserves P (B x)"
  shows "preserves P (case r of None \<Rightarrow> A | Some x \<Rightarrow> B x)"
  using assms by (cases r) simp_all

lemma preserves_case_prod:
  assumes "\<And>a b. r = (a, b) \<Longrightarrow> preserves P (A a b)"
  shows "preserves P (case r of (a, b) \<Rightarrow> A a b)"
  using assms by (cases r) simp

lemma preserves_if:
  "(c \<Longrightarrow> preserves P A) \<Longrightarrow> (\<not> c \<Longrightarrow> preserves P B) \<Longrightarrow> preserves P (if c then A else B)"
  by simp

lemma preserves_try:
  assumes "preserves P m" and "\<And>x. preserves P (f x)"
  shows "preserves P (go_try g m f)"
  unfolding go_try_def by (intro preserves_bind preserves_case_sum preserves_ret assms)

lemmas preserves_intros =
  preserves_ret preserves_panic preserves_bind preserves_try preserves_case_sum
  preserves_case_option preserves_case_prod preserves_if

lemma preservesD: "preserves P m \<Longrightarrow> P w \<Longrightarrow> m w = Some (r, w') \<Longrightarrow> P w'"
  unfolding preserves_def by blast

lemma preserves_returns: "preserves P m \<Longrightarrow> returns m w x w' \<Longrightarrow> P w \<Longrightarrow> P w'"
  by (auto simp: preserves_def returns_def)

text \<open>
  \<open>emits log S m\<close>: whenever the call comes back, it has appended to the log of the world a list
  of entries with property \<open>S\<close>. A call that keeps every log emits nothing.
\<close>

definition emits :: "('w \<Rightarrow> 'e list) \<Rightarrow> ('e list \<Rightarrow> bool) \<Rightarrow> ('w, 'a) go \<Rightarrow> bool" where
  "emits log S m \<longleftrightarrow> (\<forall>w r w'. m w = Some (r, w') \<longrightarrow> (\<exists>es. log w' = log w @ es \<and> S es))"

lemma emitsE:
  assumes "emits log S m" and "m w = Some (r, w')"
  obtains es where "log w' = log w @ es" and "S es"
  using assms unfolding emits_def by blast

lemma emits_mono: "emits log S m \<Longrightarrow> (\<And>es. S es \<Longrightarrow> T es) \<Longrightarrow> emits log T m"
  unfolding emits_def by blast

lemma emits_ret: "S [] \<Longrightarrow> emits log S (go_ret x)"
  by (simp add: emits_def go_ret_def)

lemma emits_panic: "S [] \<Longrightarrow> emits log S (go_panic msg)"
  by (simp add: emits_def go_panic_def)

lemma emits_keeps:
  assumes "\<And>l. preserves (\<lambda>w. log w = l) m" and "S []"
  shows "emits log S m"
proof -
  have "log w' = log w" if "m w = Some (r, w')" for w r w'
    using assms(1) [of "log w"] that unfolding preserves_def by blast
  with assms(2) show ?thesis by (auto simp: emits_def)
qed

lemma emits_bind:
  assumes "emits log S m" and "\<And>x w w'. returns m w x w' \<Longrightarrow> emits log T (f x)"
    and "\<And>es fs. S es \<Longrightarrow> T fs \<Longrightarrow> U (es @ fs)" and "\<And>es. S es \<Longrightarrow> U es"
  shows "emits log U (go_bind m f)"
  unfolding emits_def
proof (intro allI impI)
  fix w r w'
  assume run: "go_bind m f w = Some (r, w')"
  then obtain r1 w1 where m: "m w = Some (r1, w1)"
    by (auto simp: go_bind_def split: option.splits)
  with assms(1) obtain es where es: "log w1 = log w @ es" "S es" by (rule emitsE)
  show "\<exists>es. log w' = log w @ es \<and> U es"
  proof (cases r1)
    case (Return x)
    with m run have run': "f x w1 = Some (r, w')" and "returns m w x w1"
      by (simp_all add: go_bind_def returns_def)
    then have "emits log T (f x)" by (intro assms(2))
    then obtain fs where "log w' = log w1 @ fs" "T fs" using run' by (rule emitsE)
    with es assms(3) [of es fs] show ?thesis by auto
  next
    case (Panic msg)
    with m run es assms(4) show ?thesis by (auto simp: go_bind_def)
  qed
qed

text \<open>A recursive Go function is the least fixed point of its body: binds are monotone.\<close>

lemma go_bind_mono [partial_function_mono]:
  fixes B :: "('x \<Rightarrow> 'y option) \<Rightarrow> ('w, 'a) go" and C :: "('x \<Rightarrow> 'y option) \<Rightarrow> 'a \<Rightarrow> ('w, 'b) go"
  assumes "\<And>w. monotone (fun_ord option_ord) option_ord (\<lambda>f. B f w)"
    and "\<And>x w. monotone (fun_ord option_ord) option_ord (\<lambda>f. C f x w)"
  shows "monotone (fun_ord option_ord) option_ord (\<lambda>f. go_bind (B f) (C f) w)"
proof (rule monotoneI)
  fix f g :: "'x \<Rightarrow> 'y option"
  assume fg: "fun_ord option_ord f g"
  have B: "option_ord (B f v) (B g v)" for v
    using assms(1) [of v] fg by (simp add: monotone_def)
  have C: "option_ord (C f x v) (C g x v)" for x v
    using assms(2) [of x v] fg by (simp add: monotone_def)
  show "option_ord (go_bind (B f) (C f) w) (go_bind (B g) (C g) w)"
  proof (cases "B f w")
    case None
    then show ?thesis by (simp add: go_bind_def flat_ord_def)
  next
    case (Some r)
    with B [of w] have "B g w = Some r" by (simp add: flat_ord_def)
    with Some C show ?thesis by (cases r) (simp add: go_bind_def flat_ord_def split: outcome.split)
  qed
qed

lemma go_ret_mono [partial_function_mono]:
  "monotone (fun_ord option_ord) option_ord (\<lambda>f. go_ret x w)"
  by (rule monotoneI) (simp add: flat_ord_def)

lemma go_call_mono [partial_function_mono]:
  "monotone (fun_ord option_ord) option_ord (\<lambda>f. go_call g w)"
  by (rule monotoneI) (simp add: flat_ord_def)


section \<open>Maps\<close>

lemma map_of_rev_Some: "map_of (rev kvs) k = Some v \<Longrightarrow> (k, v) \<in> set kvs"
  by (metis map_of_SomeD set_rev)

text \<open>A fold that inserts under a guard: an entry of the result was inserted or was there.\<close>

lemma fold_guarded_induct:
  assumes "P s" and "\<And>x s. x \<in> set xs \<Longrightarrow> P s \<Longrightarrow> P (f x s)"
  shows "P (fold f xs s)"
  using assms by (induction xs arbitrary: s) auto

end
