(* ===== verification/GoTime.thy ===== *)
theory GoTime
  imports Prelude
begin

text \<open>
  The part of Go's package \<open>time\<close> the program uses. A \<open>time.Time\<close> is an instant, counted in
  nanoseconds from the zero time (1 January of year 1, UTC); a \<open>time.Duration\<close> is a signed
  64-bit count of nanoseconds, whose bounds matter in \<open>Time.Sub\<close>, which saturates. The text form
  is RFC 3339: \<open>format_rfc3339\<close> is \<open>Format(time.RFC3339)\<close> of a UTC time and \<open>parse_rfc3339\<close> is
  \<open>Parse(time.RFC3339, _)\<close>, with the leniencies of the library (one-digit hours, fractional
  seconds after a period or a comma, offsets up to 24:60).
\<close>

section \<open>Instants and durations\<close>

type_synonym gotime = int
type_synonym duration = int

abbreviation nanosecond :: duration where "nanosecond \<equiv> 1"
abbreviation millisecond :: duration where "millisecond \<equiv> 1000000"
abbreviation second :: duration where "second \<equiv> 1000000000"
abbreviation minute :: duration where "minute \<equiv> 60000000000"

definition zero_time :: gotime where
  "zero_time = 0"

definition max_duration :: duration where
  "max_duration = 9223372036854775807"

definition min_duration :: duration where
  "min_duration = -9223372036854775808"

definition is_duration :: "duration \<Rightarrow> bool" where
  "is_duration d \<longleftrightarrow> min_duration \<le> d \<and> d \<le> max_duration"

definition time_sub :: "gotime \<Rightarrow> gotime \<Rightarrow> duration" where
  "time_sub t u = max min_duration (min max_duration (t - u))"

definition time_add :: "gotime \<Rightarrow> duration \<Rightarrow> gotime" where
  "time_add t d = t + d"

definition is_zero :: "gotime \<Rightarrow> bool" where
  "is_zero t \<longleftrightarrow> t = zero_time"

definition after :: "gotime \<Rightarrow> gotime \<Rightarrow> bool" where
  "after t u \<longleftrightarrow> u < t"

definition before :: "gotime \<Rightarrow> gotime \<Rightarrow> bool" where
  "before t u \<longleftrightarrow> t < u"

lemma is_duration_time_sub: "is_duration (time_sub t u)"
  by (simp add: is_duration_def time_sub_def min_duration_def max_duration_def)

text \<open>Saturation does not change a comparison with a duration above the least one.\<close>

lemma time_sub_less_iff:
  "is_duration d \<Longrightarrow> min_duration < d \<Longrightarrow> time_sub t u < d \<longleftrightarrow> t < u + d"
  by (auto simp: time_sub_def is_duration_def min_duration_def max_duration_def)


section \<open>The calendar\<close>

definition isLeap :: "int \<Rightarrow> bool" where
  "isLeap year \<longleftrightarrow> year mod 4 = 0 \<and> (year mod 100 \<noteq> 0 \<or> year mod 400 = 0)"

definition days_before :: "nat list" where
  "days_before = [0, 31, 59, 90, 120, 151, 181, 212, 243, 273, 304, 334, 365]"

definition days_in :: "nat \<Rightarrow> int \<Rightarrow> nat" where
  "days_in m year =
     (if m = 2 \<and> isLeap year then 29 else days_before ! m - days_before ! (m - 1))"

text \<open>The year of a day and the day's place in it: 400-, 100-, 4- and 1-year cycles.\<close>

definition abs_year :: "int \<Rightarrow> int \<times> nat" where
  "abs_year d =
     (let n4 = d div 146097; d1 = d mod 146097;
          q = d1 div 36524; n1 = q - q div 4; d2 = d1 - 36524 * n1;
          n2 = d2 div 1461; d3 = d2 mod 1461;
          r = d3 div 365; n3 = r - r div 4; d4 = d3 - 365 * n3
      in (400 * n4 + 100 * n1 + 4 * n2 + n3 + 1, nat d4))"

definition month_day :: "bool \<Rightarrow> nat \<Rightarrow> nat \<times> nat" where
  "month_day leap yday =
     (if leap \<and> yday = 59 then (2, 29)
      else let day = (if leap \<and> 59 < yday then yday - 1 else yday);
               m = day div 31
           in if days_before ! (m + 1) \<le> day then (m + 2, day - days_before ! (m + 1) + 1)
              else (m + 1, day - days_before ! m + 1))"

definition days_since_epoch :: "int \<Rightarrow> int" where
  "days_since_epoch year =
     (let y = year - 1
      in 146097 * (y div 400) + 36524 * ((y mod 400) div 100)
         + 1461 * ((y mod 100) div 4) + 365 * (y mod 4))"

definition year_day :: "int \<Rightarrow> nat \<Rightarrow> nat \<Rightarrow> nat" where
  "year_day year m d =
     days_before ! (m - 1) + (if isLeap year \<and> 3 \<le> m then 1 else 0) + (d - 1)"

text \<open>\<open>time.Date\<close> in UTC for fields in range, and the fields of a time in UTC.\<close>

definition go_date :: "int \<Rightarrow> nat \<Rightarrow> nat \<Rightarrow> nat \<Rightarrow> nat \<Rightarrow> nat \<Rightarrow> nat \<Rightarrow> gotime" where
  "go_date year m d hh mi ss ns =
     ((days_since_epoch year + int (year_day year m d)) * 86400
       + int (hh * 3600 + mi * 60 + ss)) * 1000000000 + int ns"

lemma div_bounds:
  fixes d n :: int
  assumes "0 < n"
  shows "n * (d div n) \<le> d" "d < n * (d div n) + n" "0 \<le> d \<Longrightarrow> 0 \<le> d div n"
proof -
  have "d = n * (d div n) + d mod n" and "0 \<le> d mod n" and "d mod n < n"
    using assms by simp_all
  then show "n * (d div n) \<le> d" "d < n * (d div n) + n" by linarith+
  show "0 \<le> d div n" if "0 \<le> d" using assms that by (simp add: pos_imp_zdiv_nonneg_iff)
qed

lemma abs_year_cycles:
  assumes "abs_year d = (year, yday)"
  obtains a b c e where "year = 400 * a + 100 * b + 4 * c + e + 1"
    and "d = 146097 * a + 36524 * b + 1461 * c + 365 * e + int yday"
    and "0 \<le> b" "b < 4" "0 \<le> c" "c < 25" "0 \<le> e" "e < 4"
    and "yday < 366" and "yday = 365 \<longrightarrow> e = 3 \<and> (c < 24 \<or> b = 3)"
proof -
  define d1 where "d1 = d mod 146097"
  define q where "q = d1 div 36524"
  define b where "b = q - q div 4"
  define d2 where "d2 = d1 - 36524 * b"
  define c where "c = d2 div 1461"
  define d3 where "d3 = d2 mod 1461"
  define r where "r = d3 div 365"
  define e where "e = r - r div 4"
  define d4 where "d4 = d3 - 365 * e"
  have "abs_year d = (400 * (d div 146097) + 100 * b + 4 * c + e + 1, nat d4)"
    unfolding abs_year_def Let_def d4_def e_def r_def d3_def c_def d2_def b_def q_def d1_def
    by (rule refl)
  with assms have year: "year = 400 * (d div 146097) + 100 * b + 4 * c + e + 1"
    and yday: "yday = nat d4"
    by (simp_all only: prod.inject)
  have d1: "0 \<le> d1" "d1 < 146097" by (simp_all add: d1_def)
  have q: "0 \<le> q" "q \<le> 4" "36524 * q \<le> d1" "d1 < 36524 * q + 36524"
    using div_bounds [of 36524 d1] d1 by (simp_all add: q_def)
  have b: "0 \<le> b \<and> b < 4 \<and> 0 \<le> d2 \<and> d2 \<le> 36524 \<and> (b < 3 \<longrightarrow> d2 < 36524)"
  proof (cases "q = 4")
    case True
    then have "b = 3" by (simp add: b_def)
    with True q d1 show ?thesis by (simp add: d2_def)
  next
    case False
    with q have "b = q" by (simp add: b_def)
    with False q show ?thesis by (simp add: d2_def)
  qed
  then have c: "0 \<le> c" "c < 25" using div_bounds [of 1461 d2] by (simp_all add: c_def)
  have d3: "0 \<le> d3" "d3 < 1461" by (simp_all add: d3_def)
  have d2c: "d2 = 1461 * c + d3" by (simp add: c_def d3_def)
  have r: "0 \<le> r" "r \<le> 4" "365 * r \<le> d3" "d3 < 365 * r + 365"
    using div_bounds [of 365 d3] d3 by (simp_all add: r_def)
  have e: "0 \<le> e \<and> e < 4 \<and> 0 \<le> d4 \<and> d4 \<le> 365 \<and> (e < 3 \<longrightarrow> d4 < 365)"
  proof (cases "r = 4")
    case True
    then have "e = 3" by (simp add: e_def)
    with True r d3 show ?thesis by (simp add: d4_def)
  next
    case False
    with r have "e = r" by (simp add: e_def)
    with False r show ?thesis by (simp add: d4_def)
  qed
  have d3e: "d3 = 365 * e + d4" by (simp add: d4_def)
  have total: "d = 146097 * (d div 146097) + d1" by (simp add: d1_def)
  show thesis
  proof (rule that [OF year])
    show "d = 146097 * (d div 146097) + 36524 * b + 1461 * c + 365 * e + int yday"
      using total d2_def d2c d3e e yday by simp
    show "yday = 365 \<longrightarrow> e = 3 \<and> (c < 24 \<or> b = 3)"
    proof
      assume "yday = 365"
      then have d4: "d4 = 365" using yday by simp
      then have "e = 3" using e by linarith
      moreover have "c < 24 \<or> b = 3"
      proof (rule ccontr)
        assume "\<not> (c < 24 \<or> b = 3)"
        then have "c = 24" "b < 3" using b c by linarith+
        then have "d2 = 36524" using d2c d3e d4 \<open>e = 3\<close> by simp
        with b \<open>b < 3\<close> show False by simp
      qed
      ultimately show "e = 3 \<and> (c < 24 \<or> b = 3)" by simp
    qed
  qed (use b c e yday in auto)
qed

lemma cycles_div_mod:
  fixes a b c e :: int
  assumes "0 \<le> b" "b < 4" "0 \<le> c" "c < 25" "0 \<le> e" "e < 4"
  shows "(400 * a + 100 * b + 4 * c + e) div 400 = a"
    and "(400 * a + 100 * b + 4 * c + e) mod 400 div 100 = b"
    and "(400 * a + 100 * b + 4 * c + e) mod 100 div 4 = c"
    and "(400 * a + 100 * b + 4 * c + e) mod 4 = e"
proof -
  let ?y = "400 * a + 100 * b + 4 * c + e"
  have "?y mod 100 = 4 * c + e"
    by (rule int_mod_pos_eq [where q = "4 * a + b"]) (use assms in simp_all)
  moreover have "(4 * c + e) div 4 = c"
    by (rule int_div_pos_eq [where r = e]) (use assms in simp_all)
  ultimately show "?y mod 100 div 4 = c" by simp
  have "?y mod 400 = 100 * b + 4 * c + e"
    by (rule int_mod_pos_eq [where q = a]) (use assms in simp_all)
  moreover have "(100 * b + 4 * c + e) div 100 = b"
    by (rule int_div_pos_eq [where r = "4 * c + e"]) (use assms in simp_all)
  ultimately show "?y mod 400 div 100 = b" by simp
  show "?y div 400 = a"
    by (rule int_div_pos_eq [where r = "100 * b + 4 * c + e"]) (use assms in simp_all)
  show "?y mod 4 = e"
    by (rule int_mod_pos_eq [where q = "100 * a + 25 * b + c"]) (use assms in simp_all)
qed

text \<open>Splitting a day number into year and day of the year loses nothing.\<close>

lemma days_since_epoch_abs_year:
  assumes "abs_year d = (year, yday)"
  shows "days_since_epoch year + int yday = d"
    and "yday < 365 \<or> yday = 365 \<and> isLeap year"
proof -
  from assms obtain a b c e where y: "year = 400 * a + 100 * b + 4 * c + e + 1"
    and d: "d = 146097 * a + 36524 * b + 1461 * c + 365 * e + int yday"
    and bnd: "0 \<le> b" "b < 4" "0 \<le> c" "c < 25" "0 \<le> e" "e < 4"
    and yday: "yday < 366" "yday = 365 \<longrightarrow> e = 3 \<and> (c < 24 \<or> b = 3)"
    by (rule abs_year_cycles)
  show "days_since_epoch year + int yday = d"
    by (simp add: days_since_epoch_def Let_def y d cycles_div_mod [OF bnd])
  have "isLeap year" if "e = 3" "c < 24 \<or> b = 3"
  proof -
    have "year = 4 * (100 * a + 25 * b + c + 1)" using y that by simp
    then have "year mod 4 = 0" by simp
    moreover have "year mod 100 \<noteq> 0 \<or> year mod 400 = 0"
    proof (cases "c < 24")
      case True
      then have "year mod 100 = 4 * c + 4"
        by (intro int_mod_pos_eq [where q = "4 * a + b"]) (use bnd that y True in simp_all)
      with bnd show ?thesis by simp
    next
      case False
      then have "year = 400 * (a + 1)" using bnd that y by simp
      then show ?thesis by simp
    qed
    ultimately show ?thesis by (simp add: isLeap_def)
  qed
  with yday show "yday < 365 \<or> yday = 365 \<and> isLeap year" by auto
qed

text \<open>Month and day of the month: the estimate of 31 days a month is corrected at most once.\<close>

lemma month_estimate:
  assumes "day < 365" and "m = day div 31"
    and "(m', d') = (if days_before ! (m + 1) \<le> day then (m + 2, day - days_before ! (m + 1) + 1)
                     else (m + 1, day - days_before ! m + 1))"
  shows "1 \<le> m' \<and> m' \<le> 12 \<and> 1 \<le> d' \<and> days_before ! (m' - 1) + d' = day + 1 \<and>
    days_before ! (m' - 1) + d' \<le> days_before ! m'"
proof -
  have "31 * m \<le> day" "day < 31 * m + 31" using assms(2) by simp_all
  moreover from calculation have "m < 12" using assms(1) by simp
  then have "m = 0 \<or> m = 1 \<or> m = 2 \<or> m = 3 \<or> m = 4 \<or> m = 5 \<or> m = 6 \<or> m = 7 \<or> m = 8 \<or> m = 9
      \<or> m = 10 \<or> m = 11"
    by presburger
  ultimately show ?thesis
    using assms(1,3) by (elim disjE) (auto simp: days_before_def split: if_splits)
qed

lemma days_before_mono:
  "1 \<le> m \<Longrightarrow> m \<le> 12 \<Longrightarrow> days_before ! (m - 1) < 59 \<longleftrightarrow> m \<le> 2"
  "1 \<le> m \<Longrightarrow> m \<le> 12 \<Longrightarrow> days_before ! m \<le> 59 \<longleftrightarrow> m \<le> 2"
  "1 \<le> m \<Longrightarrow> m \<le> 12 \<Longrightarrow> days_before ! m \<le> days_before ! (m - 1) + 31"
proof -
  assume "1 \<le> m" and "m \<le> 12"
  then have "m = 1 \<or> m = 2 \<or> m = 3 \<or> m = 4 \<or> m = 5 \<or> m = 6 \<or> m = 7 \<or> m = 8 \<or> m = 9
      \<or> m = 10 \<or> m = 11 \<or> m = 12"
    by presburger
  then show "days_before ! (m - 1) < 59 \<longleftrightarrow> m \<le> 2" "days_before ! m \<le> 59 \<longleftrightarrow> m \<le> 2"
    "days_before ! m \<le> days_before ! (m - 1) + 31"
    by (auto simp: days_before_def)
qed

lemma month_day_correct:
  assumes "month_day (isLeap year) yday = (m, d)" and "yday < 365 \<or> yday = 365 \<and> isLeap year"
  shows "1 \<le> m \<and> m \<le> 12 \<and> 1 \<le> d \<and> d \<le> 31 \<and> d \<le> days_in m year \<and> year_day year m d = yday"
proof (cases "isLeap year \<and> yday = 59")
  case True
  then have "m = 2" "d = 29" using assms(1) by (simp_all add: month_day_def)
  with True show ?thesis by (simp add: days_in_def year_day_def days_before_def)
next
  case False
  define day where "day = (if isLeap year \<and> 59 < yday then yday - 1 else yday)"
  have "day < 365" using assms(2) by (auto simp: day_def)
  moreover have "(m, d) = (if days_before ! (day div 31 + 1) \<le> day
        then (day div 31 + 2, day - days_before ! (day div 31 + 1) + 1)
        else (day div 31 + 1, day - days_before ! (day div 31) + 1))"
    using assms(1) False unfolding month_day_def Let_def day_def [symmetric]
    by (auto split: if_splits)
  ultimately have md: "1 \<le> m" "m \<le> 12" "1 \<le> d" "days_before ! (m - 1) + d = day + 1"
    "days_before ! (m - 1) + d \<le> days_before ! m"
    using month_estimate [OF _ refl] by blast+
  have "year_day year m d = yday"
  proof (cases "isLeap year")
    case True
    show ?thesis
    proof (cases "59 < yday")
      case True
      with \<open>isLeap year\<close> have "day = yday - 1" by (simp add: day_def)
      with True md days_before_mono [OF md(1,2)] have "3 \<le> m" by linarith
      with \<open>isLeap year\<close> \<open>day = yday - 1\<close> True md show ?thesis by (simp add: year_day_def)
    next
      case False
      with \<open>isLeap year\<close> \<open>\<not> (isLeap year \<and> yday = 59)\<close> have "day = yday" "yday < 59"
        by (simp_all add: day_def)
      with md days_before_mono [OF md(1,2)] have "m \<le> 2" by linarith
      with \<open>day = yday\<close> md show ?thesis by (simp add: year_day_def)
    qed
  next
    case False
    with md show ?thesis by (simp add: year_day_def day_def)
  qed
  moreover have "d \<le> 31" using md days_before_mono [OF md(1,2)] by linarith
  moreover have "d \<le> days_in m year"
    using md by (auto simp: days_in_def days_before_def)
  ultimately show ?thesis using md by simp
qed


section \<open>RFC 3339 text\<close>

text \<open>\<open>appendInt\<close>: decimal, padded with zeros to a width.\<close>

definition append_int :: "int \<Rightarrow> nat \<Rightarrow> string" where
  "append_int x width =
     (let ds = nat_dec (nat \<bar>x\<bar>)
      in (if x < 0 then ''-'' else []) @ replicate (width - length ds) (CHR ''0'') @ ds)"

definition format_rfc3339 :: "gotime \<Rightarrow> string" where
  "format_rfc3339 t =
     (let s = t div 1000000000; sod = nat (s mod 86400);
          (year, yday) = abs_year (s div 86400);
          (m, d) = month_day (isLeap year) yday
      in append_int year 4 @ ''-'' @ append_int (int m) 2 @ ''-'' @ append_int (int d) 2 @ ''T''
         @ append_int (int (sod div 3600)) 2 @ '':'' @ append_int (int (sod mod 3600 div 60)) 2
         @ '':'' @ append_int (int (sod mod 60)) 2 @ ''Z'')"

definition is_digit :: "char \<Rightarrow> bool" where
  "is_digit c \<longleftrightarrow> 48 \<le> (of_char c :: nat) \<and> (of_char c :: nat) \<le> 57"

definition digit_val :: "char \<Rightarrow> nat" where
  "digit_val c = of_char c - 48"

fun digits_val :: "string \<Rightarrow> nat" where
  "digits_val [] = 0"
| "digits_val (c # cs) = digit_val c * 10 ^ length cs + digits_val cs"

text \<open>\<open>getnum\<close>: two digits, or one where the field is not fixed.\<close>

fun getnum :: "bool \<Rightarrow> string \<Rightarrow> (nat \<times> string) option" where
  "getnum fixed [] = None"
| "getnum fixed [a] = (if is_digit a \<and> \<not> fixed then Some (digit_val a, []) else None)"
| "getnum fixed (a # b # s) =
     (if \<not> is_digit a then None
      else if \<not> is_digit b then (if fixed then None else Some (digit_val a, b # s))
      else Some (digit_val a * 10 + digit_val b, s))"

definition get_year :: "string \<Rightarrow> (int \<times> string) option" where
  "get_year s =
     (if length s < 4 \<or> \<not> list_all is_digit (take 4 s) then None
      else Some (int (digits_val (take 4 s)), drop 4 s))"

fun skip_char :: "char \<Rightarrow> string \<Rightarrow> string option" where
  "skip_char c [] = None"
| "skip_char c (x # xs) = (if x = c then Some xs else None)"

definition get_ranged :: "bool \<Rightarrow> nat \<Rightarrow> nat \<Rightarrow> string \<Rightarrow> (nat \<times> string) option" where
  "get_ranged fixed lo hi s =
     (case getnum fixed s of
        None \<Rightarrow> None
      | Some (n, s') \<Rightarrow> if lo \<le> n \<and> n \<le> hi then Some (n, s') else None)"

text \<open>A fraction of a second that the layout does not name; digits after the ninth are dropped.\<close>

definition get_fraction :: "string \<Rightarrow> nat \<times> string" where
  "get_fraction s =
     (case s of
        p # x # _ \<Rightarrow>
          if (p = CHR ''.'' \<or> p = CHR '','') \<and> is_digit x
          then let ds = takeWhile is_digit (tl s); used = take 9 ds
               in (digits_val used * 10 ^ (9 - length used), dropWhile is_digit (tl s))
          else (0, s)
      | _ \<Rightarrow> (0, s))"

text \<open>The zone: the letter Z or an offset such as +02:00, in seconds.\<close>

definition get_zone :: "string \<Rightarrow> (int \<times> string) option" where
  "get_zone s =
     (case s of
        [] \<Rightarrow> None
      | c # rest \<Rightarrow>
          if c = CHR ''Z'' then Some (0, rest)
          else if length s < 6 \<or> s ! 3 \<noteq> CHR '':'' then None
          else (case (getnum True (take 2 (drop 1 s)), getnum True (take 2 (drop 4 s))) of
                  (Some (hr, _), Some (mm, _)) \<Rightarrow>
                    if 24 < hr \<or> 60 < mm then None
                    else let off = int ((hr * 60 + mm) * 60)
                         in if c = CHR ''+'' then Some (off, drop 6 s)
                            else if c = CHR ''-'' then Some (- off, drop 6 s)
                            else None
                | _ \<Rightarrow> None))"

definition parse_rfc3339 :: "string \<Rightarrow> gotime option" where
  "parse_rfc3339 s =
     Option.bind (get_year s) (\<lambda>(year, s).
     Option.bind (skip_char (CHR ''-'') s) (\<lambda>s.
     Option.bind (get_ranged True 1 12 s) (\<lambda>(m, s).
     Option.bind (skip_char (CHR ''-'') s) (\<lambda>s.
     Option.bind (getnum True s) (\<lambda>(d, s).
     Option.bind (skip_char (CHR ''T'') s) (\<lambda>s.
     Option.bind (get_ranged False 0 23 s) (\<lambda>(hh, s).
     Option.bind (skip_char (CHR '':'') s) (\<lambda>s.
     Option.bind (get_ranged True 0 59 s) (\<lambda>(mi, s).
     Option.bind (skip_char (CHR '':'') s) (\<lambda>s.
     Option.bind (get_ranged True 0 59 s) (\<lambda>(ss, s).
       case get_fraction s of (ns, s) \<Rightarrow>
         Option.bind (get_zone s) (\<lambda>(off, s).
           if s \<noteq> [] \<or> d < 1 \<or> days_in m year < d then None
           else Some (go_date year m d hh mi ss ns - off * 1000000000)))))))))))))"

text \<open>What the fields print as, and that they are read back.\<close>

lemma of_char_digit [simp]: "d < 10 \<Longrightarrow> (of_char (digit_char d) :: nat) = 48 + d"
  by (simp add: digit_char_def)

lemma is_digit_digit_char [simp]: "d < 10 \<Longrightarrow> is_digit (digit_char d)"
  by (simp add: is_digit_def)

lemma digit_val_digit_char [simp]: "d < 10 \<Longrightarrow> digit_val (digit_char d) = d"
  by (simp add: digit_val_def)

lemma digit_char_0: "digit_char 0 = CHR ''0''"
  by code_simp

lemma replicate_2_3: "replicate 2 x = [x, x]" "replicate 3 x = [x, x, x]"
  by (simp_all add: numeral_eq_Suc)

lemma nat_dec_1: "n < 10 \<Longrightarrow> nat_dec n = [digit_char n]"
  by (simp add: nat_dec.simps)

lemma nat_dec_step: "10 \<le> n \<Longrightarrow> nat_dec n = nat_dec (n div 10) @ [digit_char (n mod 10)]"
  by (subst nat_dec.simps) simp

lemma append_int_2:
  "n < 100 \<Longrightarrow> append_int (int n) 2 = [digit_char (n div 10), digit_char (n mod 10)]"
  by (cases "n < 10") (simp_all add: append_int_def nat_dec_1 nat_dec_step digit_char_0)

lemma append_int_4:
  assumes "n < 10000"
  shows "append_int (int n) 4 =
    [digit_char (n div 10 div 10 div 10), digit_char (n div 10 div 10 mod 10),
     digit_char (n div 10 mod 10), digit_char (n mod 10)]"
proof -
  define a where "a = n div 10"
  define b where "b = a div 10"
  define c where "c = b div 10"
  note steps = append_int_def nat_dec_1 nat_dec_step digit_char_0 replicate_2_3
  have bounds: "n < 10 \<longleftrightarrow> a = 0" "a < 10 \<longleftrightarrow> b = 0" "b < 10 \<longleftrightarrow> c = 0" "c < 10"
    using assms by (auto simp: a_def b_def c_def)
  have n: "nat_dec n = (if a = 0 then [] else nat_dec a) @ [digit_char (n mod 10)]"
    using bounds(1) nat_dec_step [of n] nat_dec_1 [of n] by (simp add: a_def linorder_not_less [symmetric])
  have a: "nat_dec a = (if b = 0 then [] else nat_dec b) @ [digit_char (a mod 10)]"
    using bounds(2) nat_dec_step [of a] nat_dec_1 [of a] by (simp add: b_def linorder_not_less [symmetric])
  have b: "nat_dec b = (if c = 0 then [] else nat_dec c) @ [digit_char (b mod 10)]"
    using bounds(3) nat_dec_step [of b] nat_dec_1 [of b] by (simp add: c_def linorder_not_less [symmetric])
  have c: "nat_dec c = [digit_char c]"
    using bounds(4) by (rule nat_dec_1)
  have z: "a = 0 \<Longrightarrow> b = 0" "b = 0 \<Longrightarrow> c = 0"
    by (simp_all add: b_def c_def)
  show ?thesis
    unfolding a_def [symmetric] b_def [symmetric] c_def [symmetric]
    using z by (cases "a = 0"; cases "b = 0"; cases "c = 0")
      (simp_all add: append_int_def n a b c digit_char_0 replicate_2_3)
qed

lemma getnum_append_int:
  assumes "n < 100"
  shows "getnum fixed (append_int (int n) 2 @ s) = Some (n, s)"
  using assms by (simp add: append_int_2)

lemma get_ranged_append_int:
  "n < 100 \<Longrightarrow> lo \<le> n \<Longrightarrow> n \<le> hi \<Longrightarrow>
     get_ranged fixed lo hi (append_int (int n) 2 @ s) = Some (n, s)"
  by (simp add: get_ranged_def getnum_append_int)

lemma get_year_append_int:
  assumes "n < 10000"
  shows "get_year (append_int (int n) 4 @ s) = Some (int n, s)"
proof -
  have "n = n div 10 div 10 div 10 * 1000 + n div 10 div 10 mod 10 * 100 + n div 10 mod 10 * 10 + n mod 10"
    using div_mult_mod_eq [of n 10] div_mult_mod_eq [of "n div 10" 10]
      div_mult_mod_eq [of "n div 10 div 10" 10] by linarith
  with assms show ?thesis
    by (simp add: get_year_def append_int_4 del: div_mult2_eq)
qed

lemma fields_of_seconds:
  fixes sod :: nat
  assumes "sod < 86400"
  shows "sod div 3600 < 24" "sod mod 3600 div 60 < 60" "sod mod 60 < 60"
    "sod div 3600 * 3600 + sod mod 3600 div 60 * 60 + sod mod 60 = sod"
proof -
  show "sod div 3600 < 24" using assms by simp
  show "sod mod 3600 div 60 < 60" by simp
  show "sod mod 60 < 60" by simp
  have "sod mod 3600 div 60 * 60 + sod mod 3600 mod 60 = sod mod 3600" by simp
  moreover have "sod mod 3600 mod 60 = sod mod 60" by (simp add: mod_mod_cancel)
  moreover have "sod div 3600 * 3600 + sod mod 3600 = sod" by simp
  ultimately show "sod div 3600 * 3600 + sod mod 3600 div 60 * 60 + sod mod 60 = sod" by linarith
qed

text \<open>The year, in UTC, of an instant.\<close>

definition year_of :: "gotime \<Rightarrow> int" where
  "year_of t = fst (abs_year (t div 1000000000 div 86400))"

lemma go_date_of_fields:
  assumes "abs_year (t div 1000000000 div 86400) = (year, yday)"
    and "month_day (isLeap year) yday = (m, d)"
    and "sod = nat (t div 1000000000 mod 86400)"
  shows "go_date year m d (sod div 3600) (sod mod 3600 div 60) (sod mod 60) 0 = t - t mod 1000000000"
proof -
  define s where "s = t div 1000000000"
  have sod: "sod < 86400" "int sod = s mod 86400" using assms(3) by (simp_all add: s_def nat_less_iff)
  have "days_since_epoch year + int (year_day year m d) = s div 86400"
    using days_since_epoch_abs_year [OF assms(1)] month_day_correct [OF assms(2)] by (simp add: s_def)
  then have "go_date year m d (sod div 3600) (sod mod 3600 div 60) (sod mod 60) 0
      = (s div 86400 * 86400 + int sod) * 1000000000"
    using fields_of_seconds(4) [OF sod(1)] by (simp add: go_date_def)
  also have "\<dots> = s * 1000000000" by (simp add: sod(2))
  also have "\<dots> = t - t mod 1000000000" by (simp add: s_def minus_mod_eq_div_mult)
  finally show ?thesis .
qed

text \<open>Reading back the printed text gives the instant, cut to the second.\<close>

lemma parse_format:
  assumes "0 \<le> year_of t" and "year_of t \<le> 9999"
  shows "parse_rfc3339 (format_rfc3339 t) = Some (t - t mod 1000000000)"
proof -
  define sod where "sod = nat (t div 1000000000 mod 86400)"
  obtain year yday where y: "abs_year (t div 1000000000 div 86400) = (year, yday)" by force
  obtain m d where md: "month_day (isLeap year) yday = (m, d)" by force
  have "year = int (nat year)" "nat year < 10000" using assms y by (simp_all add: year_of_def)
  then obtain n where yr: "year = int n" "n < 10000" by blast
  have mdb: "1 \<le> m" "m \<le> 12" "1 \<le> d" "d \<le> 31" "d \<le> days_in m year"
    using month_day_correct [OF md] days_since_epoch_abs_year(2) [OF y] by auto
  have sodb: "sod < 86400" by (simp add: sod_def nat_less_iff)
  note f = fields_of_seconds [OF sodb]
  have fmt: "format_rfc3339 t = append_int (int n) 4 @ CHR ''-'' # append_int (int m) 2
      @ CHR ''-'' # append_int (int d) 2 @ CHR ''T'' # append_int (int (sod div 3600)) 2
      @ CHR '':'' # append_int (int (sod mod 3600 div 60)) 2
      @ CHR '':'' # append_int (int (sod mod 60)) 2 @ ''Z''"
    using y md yr(1) unfolding format_rfc3339_def Let_def sod_def by simp
  have "parse_rfc3339 (format_rfc3339 t)
      = Some (go_date year m d (sod div 3600) (sod mod 3600 div 60) (sod mod 60) 0)"
    unfolding parse_rfc3339_def fmt
    using yr(2) mdb f unfolding yr(1)
    by (simp add: get_year_append_int get_ranged_append_int getnum_append_int get_fraction_def
        get_zone_def)
  then show ?thesis
    using go_date_of_fields [OF y md sod_def] by simp
qed

end
