(* ===== verification/Json.thy ===== *)
theory Json
  imports Prelude
begin

text \<open>
  JSON as Go's \<open>encoding/json\<close> reads it into \<open>interface{}\<close> values: the value type, the scanner
  of the grammar (numbers, strings with their escapes, nesting up to 10000 levels), the decoding
  of string literals to UTF-8 (surrogate pairs joined, invalid bytes replaced by U+FFFD), the
  range check of numbers, and \<open>unmarshal_map\<close>, the call \<open>json.Unmarshal\<close> on a variable of type
  \<open>map[string]interface{}\<close>.
\<close>

datatype json =
    JNull
  | JBool bool
  | JNum string
  | JStr string
  | JArr "json list"
  | JObj "(string \<times> json) list"

text \<open>A later member of an object overwrites an earlier one of the same name.\<close>

definition jmembers :: "(string \<times> json) list \<Rightarrow> string \<rightharpoonup> json" where
  "jmembers kvs = map_of (rev kvs)"

text \<open>The type assertions \<open>v, ok := x.(string)\<close> and \<open>x.(map[string]interface{})\<close> on a looked-up value.\<close>

fun as_string :: "json option \<Rightarrow> string option" where
  "as_string (Some (JStr s)) = Some s"
| "as_string _ = None"

fun as_object :: "json option \<Rightarrow> (string \<rightharpoonup> json) option" where
  "as_object (Some (JObj kvs)) = Some (jmembers kvs)"
| "as_object _ = None"

section \<open>Lexical structure\<close>

definition byte :: "char \<Rightarrow> nat" where
  "byte c = of_char c"

definition is_ws :: "char \<Rightarrow> bool" where
  "is_ws c \<longleftrightarrow> byte c \<in> {32, 9, 10, 13}"

definition skip_ws :: "string \<Rightarrow> string" where
  "skip_ws s = dropWhile is_ws s"

definition dec_digit :: "char \<Rightarrow> bool" where
  "dec_digit c \<longleftrightarrow> 48 \<le> byte c \<and> byte c \<le> 57"

definition hex_val :: "char \<Rightarrow> nat option" where
  "hex_val c =
     (let b = byte c
      in if 48 \<le> b \<and> b \<le> 57 then Some (b - 48)
         else if 97 \<le> b \<and> b \<le> 102 then Some (b - 87)
         else if 65 \<le> b \<and> b \<le> 70 then Some (b - 55)
         else None)"

definition hex4 :: "string \<Rightarrow> nat option" where
  "hex4 s =
     (case map hex_val (take 4 s) of
        [Some a, Some b, Some c, Some d] \<Rightarrow> Some (((a * 16 + b) * 16 + c) * 16 + d)
      | _ \<Rightarrow> None)"

abbreviation backslash :: char where "backslash \<equiv> CHR 0x5C"
abbreviation dquote :: char where "dquote \<equiv> CHR 0x22"

text \<open>The literal up to its closing quote, escapes checked but not decoded.\<close>

fun scan_string :: "string \<Rightarrow> (string \<times> string) option" where
  "scan_string [] = None"
| "scan_string (c # cs) =
     (if c = dquote then Some ([], cs)
      else if c = backslash then
        (case cs of
           [] \<Rightarrow> None
         | e # cs' \<Rightarrow>
             if e \<in> set (backslash # dquote # ''/bfnrt'')
             then map_option (apfst (\<lambda>l. c # e # l)) (scan_string cs')
             else if e = CHR ''u'' \<and> hex4 cs' \<noteq> None
             then map_option (apfst (\<lambda>l. c # e # take 4 cs' @ l)) (scan_string (drop 4 cs'))
             else None)
      else if byte c < 32 then None
      else map_option (apfst (\<lambda>l. c # l)) (scan_string cs))"

text \<open>The number of bytes of the UTF-8 sequence at the start of the bytes, if it is a valid one.\<close>

definition cont_byte :: "nat \<Rightarrow> bool" where
  "cont_byte b \<longleftrightarrow> 128 \<le> b \<and> b \<le> 191"

fun utf8_len :: "nat list \<Rightarrow> nat option" where
  "utf8_len (a # b # c # d # _) =
     (if a < 128 then Some 1
      else if 194 \<le> a \<and> a \<le> 223 \<and> cont_byte b then Some 2
      else if cont_byte c \<and> (a = 224 \<and> 160 \<le> b \<and> b \<le> 191 \<or> a = 237 \<and> 128 \<le> b \<and> b \<le> 159
              \<or> 225 \<le> a \<and> a \<le> 239 \<and> a \<noteq> 237 \<and> cont_byte b) then Some 3
      else if cont_byte c \<and> cont_byte d \<and> (a = 240 \<and> 144 \<le> b \<and> b \<le> 191
              \<or> a = 244 \<and> 128 \<le> b \<and> b \<le> 143 \<or> 241 \<le> a \<and> a \<le> 243 \<and> cont_byte b) then Some 4
      else None)"
| "utf8_len [a, b, c] =
     (if a < 128 then Some 1
      else if 194 \<le> a \<and> a \<le> 223 \<and> cont_byte b then Some 2
      else if cont_byte c \<and> (a = 224 \<and> 160 \<le> b \<and> b \<le> 191 \<or> a = 237 \<and> 128 \<le> b \<and> b \<le> 159
              \<or> 225 \<le> a \<and> a \<le> 239 \<and> a \<noteq> 237 \<and> cont_byte b) then Some 3
      else None)"
| "utf8_len [a, b] =
     (if a < 128 then Some 1
      else if 194 \<le> a \<and> a \<le> 223 \<and> cont_byte b then Some 2
      else None)"
| "utf8_len [a] = (if a < 128 then Some 1 else None)"
| "utf8_len [] = None"

definition utf8_encode :: "nat \<Rightarrow> string" where
  "utf8_encode r =
     map char_of
       (if r < 128 then [r]
        else if r < 2048 then [192 + r div 64, 128 + r mod 64]
        else if r < 65536 then [224 + r div 4096, 128 + r div 64 mod 64, 128 + r mod 64]
        else [240 + r div 262144, 128 + r div 4096 mod 64, 128 + r div 64 mod 64, 128 + r mod 64])"

definition replacement :: string where
  "replacement = utf8_encode 65533"

definition escape_char :: "char \<Rightarrow> char" where
  "escape_char e =
     (if e = CHR ''b'' then CHR 0x08 else if e = CHR ''f'' then CHR 0x0C
      else if e = CHR ''n'' then CHR 0x0A else if e = CHR ''r'' then CHR 0x0D
      else if e = CHR ''t'' then CHR 0x09 else e)"

text \<open>\<open>unquote\<close>: the bytes a checked literal stands for.\<close>

function unquote :: "string \<Rightarrow> string" where
  "unquote s =
     (case s of
        [] \<Rightarrow> []
      | c # cs \<Rightarrow>
          if c = backslash then
            (case cs of
               [] \<Rightarrow> []
             | e # cs' \<Rightarrow>
                 if e = CHR ''u'' then
                   (let hi = (case hex4 cs' of Some v \<Rightarrow> v | None \<Rightarrow> 65533); rest = drop 4 cs'
                    in if 55296 \<le> hi \<and> hi < 57344 then
                         (case rest of
                            b # u # rest' \<Rightarrow>
                              (case hex4 rest' of
                                 Some lo \<Rightarrow>
                                   if b = backslash \<and> u = CHR ''u'' \<and> hi < 56320 \<and> 56320 \<le> lo \<and> lo < 57344
                                   then utf8_encode ((hi - 55296) * 1024 + (lo - 56320) + 65536)
                                          @ unquote (drop 4 rest')
                                   else replacement @ unquote rest
                               | None \<Rightarrow> replacement @ unquote rest)
                          | _ \<Rightarrow> replacement @ unquote rest)
                       else utf8_encode hi @ unquote rest)
                 else escape_char e # unquote cs')
          else (case utf8_len (map byte s) of
                  Some n \<Rightarrow> take n s @ unquote (drop (max 1 n) s)
                | None \<Rightarrow> replacement @ unquote cs))"
  by pat_completeness auto
termination
  by (relation "measure length") (auto dest!: arg_cong [where f = length])

declare unquote.simps [simp del]

text \<open>Numbers: the literal and the rest of the input.\<close>

definition scan_int_part :: "string \<Rightarrow> (string \<times> string) option" where
  "scan_int_part s =
     (case s of
        [] \<Rightarrow> None
      | c # cs \<Rightarrow>
          if c = CHR ''0'' then Some ([c], cs)
          else if dec_digit c then Some (takeWhile dec_digit s, dropWhile dec_digit s)
          else None)"

definition scan_digits1 :: "string \<Rightarrow> (string \<times> string) option" where
  "scan_digits1 s =
     (if takeWhile dec_digit s = [] then None
      else Some (takeWhile dec_digit s, dropWhile dec_digit s))"

definition scan_frac_part :: "string \<Rightarrow> (string \<times> string) option" where
  "scan_frac_part s =
     (case s of
        [] \<Rightarrow> Some ([], s)
      | c # cs \<Rightarrow> if c = CHR ''.'' then map_option (apfst (\<lambda>d. c # d)) (scan_digits1 cs)
                  else Some ([], s))"

definition scan_exp_part :: "string \<Rightarrow> (string \<times> string) option" where
  "scan_exp_part s =
     (case s of
        [] \<Rightarrow> Some ([], s)
      | c # cs \<Rightarrow>
          if c \<noteq> CHR ''e'' \<and> c \<noteq> CHR ''E'' then Some ([], s)
          else case cs of
            [] \<Rightarrow> None
          | d # ds \<Rightarrow>
              if d = CHR ''+'' \<or> d = CHR ''-''
              then map_option (apfst (\<lambda>x. c # d # x)) (scan_digits1 ds)
              else map_option (apfst (\<lambda>x. c # x)) (scan_digits1 cs))"

definition scan_sign :: "string \<Rightarrow> string \<times> string" where
  "scan_sign s = (case s of [] \<Rightarrow> ([], s) | c # cs \<Rightarrow> if c = CHR ''-'' then ([c], cs) else ([], s))"

definition scan_number :: "string \<Rightarrow> (string \<times> string) option" where
  "scan_number s =
     (case scan_sign s of (sg, s1) \<Rightarrow>
        case scan_int_part s1 of
          None \<Rightarrow> None
        | Some (ip, s2) \<Rightarrow>
            (case scan_frac_part s2 of
               None \<Rightarrow> None
             | Some (fp, s3) \<Rightarrow> map_option (apfst (\<lambda>ep. sg @ ip @ fp @ ep)) (scan_exp_part s3)))"

text \<open>
  \<open>strconv.ParseFloat(s, 64)\<close> fails on a literal whose absolute value rounds to infinity: the
  mantissa and the exponent of the literal decide.
\<close>

definition dec_val :: "string \<Rightarrow> nat" where
  "dec_val ds = fold (\<lambda>c n. 10 * n + (byte c - 48)) ds 0"

definition number_overflows :: "string \<Rightarrow> bool" where
  "number_overflows l =
     (let m = takeWhile (\<lambda>c. c \<noteq> CHR ''e'' \<and> c \<noteq> CHR ''E'') l;
          ex = drop (Suc (length m)) l;
          mant = dec_val (List.filter dec_digit m);
          frac = length (List.filter dec_digit (drop 1 (dropWhile (\<lambda>c. c \<noteq> CHR ''.'') m)));
          e = (if has_prefix ex ''-'' then - int (dec_val (List.filter dec_digit ex))
               else int (dec_val (List.filter dec_digit ex))) - int frac
      in mant \<noteq> 0 \<and>
         (if 0 \<le> e then 2 ^ 1024 - 2 ^ 970 \<le> mant * 10 ^ nat e
          else (2 ^ 1024 - 2 ^ 970) * 10 ^ nat (- e) \<le> mant))"

fun numbers_ok :: "json \<Rightarrow> bool" where
  "numbers_ok (JNum l) = (\<not> number_overflows l)"
| "numbers_ok (JArr vs) = list_all numbers_ok vs"
| "numbers_ok (JObj kvs) = list_all (\<lambda>kv. numbers_ok (snd kv)) kvs"
| "numbers_ok _ = True"


section \<open>Values\<close>

text \<open>
  \<open>depth\<close> is what remains of the 10000 levels of nesting the scanner allows; \<open>fuel\<close> bounds the
  recursion, and any fuel above twice the length of the input gives the same result
  (\<open>parse_value_fuel\<close>).
\<close>

fun parse_value :: "nat \<Rightarrow> nat \<Rightarrow> string \<Rightarrow> (json \<times> string) option"
  and parse_members :: "nat \<Rightarrow> nat \<Rightarrow> string \<Rightarrow> ((string \<times> json) list \<times> string) option"
  and parse_elements :: "nat \<Rightarrow> nat \<Rightarrow> string \<Rightarrow> (json list \<times> string) option" where
  "parse_value 0 depth s = None"
| "parse_value (Suc fuel) depth s =
     (case skip_ws s of
        [] \<Rightarrow> None
      | c # cs \<Rightarrow>
          if c = CHR ''{'' then
            (if depth = 0 then None
             else case skip_ws cs of
                    [] \<Rightarrow> None
                  | b # r \<Rightarrow> if b = CHR ''}'' then Some (JObj [], r)
                            else map_option (apfst JObj) (parse_members fuel (depth - 1) (b # r)))
          else if c = CHR ''['' then
            (if depth = 0 then None
             else case skip_ws cs of
                    [] \<Rightarrow> None
                  | b # r \<Rightarrow> if b = CHR '']'' then Some (JArr [], r)
                            else map_option (apfst JArr) (parse_elements fuel (depth - 1) (b # r)))
          else if c = dquote then map_option (apfst (\<lambda>l. JStr (unquote l))) (scan_string cs)
          else if has_prefix (c # cs) ''null'' then Some (JNull, drop 4 (c # cs))
          else if has_prefix (c # cs) ''true'' then Some (JBool True, drop 4 (c # cs))
          else if has_prefix (c # cs) ''false'' then Some (JBool False, drop 5 (c # cs))
          else map_option (apfst JNum) (scan_number (c # cs)))"
| "parse_members 0 depth s = None"
| "parse_members (Suc fuel) depth s =
     (case s of
        [] \<Rightarrow> None
      | q # cs \<Rightarrow>
          if q \<noteq> dquote then None
          else case scan_string cs of
            None \<Rightarrow> None
          | Some (k, r) \<Rightarrow>
              (case skip_ws r of
                 [] \<Rightarrow> None
               | c # r1 \<Rightarrow>
                   if c \<noteq> CHR '':'' then None
                   else case parse_value fuel depth r1 of
                     None \<Rightarrow> None
                   | Some (v, r2) \<Rightarrow>
                       (case skip_ws r2 of
                          [] \<Rightarrow> None
                        | d # r3 \<Rightarrow>
                            if d = CHR ''}'' then Some ([(unquote k, v)], r3)
                            else if d = CHR '','' then
                              map_option (apfst (\<lambda>kvs. (unquote k, v) # kvs))
                                (parse_members fuel depth (skip_ws r3))
                            else None)))"
| "parse_elements 0 depth s = None"
| "parse_elements (Suc fuel) depth s =
     (case parse_value fuel depth s of
        None \<Rightarrow> None
      | Some (v, r2) \<Rightarrow>
          (case skip_ws r2 of
             [] \<Rightarrow> None
           | d # r3 \<Rightarrow>
               if d = CHR '']'' then Some ([v], r3)
               else if d = CHR '','' then
                 map_option (apfst (\<lambda>vs. v # vs)) (parse_elements fuel depth r3)
               else None))"

declare parse_value.simps [simp del]
declare parse_members.simps [simp del]
declare parse_elements.simps [simp del]

lemmas parse_zero [simp] =
  parse_value.simps(1) parse_members.simps(1) parse_elements.simps(1)

definition max_nesting_depth :: nat where
  "max_nesting_depth = 10000"

definition parse_json :: "string \<Rightarrow> json option" where
  "parse_json s =
     (case parse_value (Suc (2 * length s)) max_nesting_depth s of
        Some (v, r) \<Rightarrow> if skip_ws r = [] then Some v else None
      | None \<Rightarrow> None)"

text \<open>\<open>var data map[string]interface{}; err := json.Unmarshal([]byte(s), &data)\<close>.\<close>

definition unmarshal_map :: "string \<Rightarrow> goerror + (string \<rightharpoonup> json)" where
  "unmarshal_map s =
     (case parse_json s of
        None \<Rightarrow> Inl (Failure ''invalid JSON'')
      | Some JNull \<Rightarrow> Inr Map.empty
      | Some (JObj kvs) \<Rightarrow>
          if numbers_ok (JObj kvs) then Inr (jmembers kvs)
          else Inl (Failure ''json: cannot unmarshal number into Go value of type float64'')
      | Some _ \<Rightarrow>
          Inl (Failure ''json: cannot unmarshal into Go value of type map[string]interface {}''))"

text \<open>Every scan leaves less input than it was given.\<close>

lemma length_skip_ws: "length (skip_ws s) \<le> length s"
  by (simp add: skip_ws_def length_dropWhile_le)

lemma skip_ws_ConsD: "skip_ws s = c # cs \<Longrightarrow> length cs < length s"
  using length_skip_ws [of s] by simp

lemma scan_string_shorter: "scan_string s = Some (l, r) \<Longrightarrow> length r < length s"
proof (induction s arbitrary: l r rule: length_induct)
  case (1 s)
  have IH: "length r' < length t" if "scan_string t = Some (l', r')" "length t < length s" for t l' r'
    using "1.IH" that by blast
  from "1.prems" show ?case
    by (cases s) (auto split: if_splits list.splits dest!: IH)
qed

lemma dropWhile_less: "takeWhile P s \<noteq> [] \<Longrightarrow> length (dropWhile P s) < length s"
  by (cases s) (auto simp: length_dropWhile_le le_imp_less_Suc split: if_splits)

lemma scan_digits1_shorter: "scan_digits1 s = Some (d, r) \<Longrightarrow> length r < length s"
  by (auto simp: scan_digits1_def dropWhile_less split: if_splits)

lemma scan_int_part_shorter: "scan_int_part s = Some (d, r) \<Longrightarrow> length r < length s"
  by (auto simp: scan_int_part_def length_dropWhile_le le_imp_less_Suc split: list.splits if_splits)

lemma scan_frac_part_shorter: "scan_frac_part s = Some (d, r) \<Longrightarrow> length r \<le> length s"
  by (auto simp: scan_frac_part_def split: list.splits if_splits dest!: scan_digits1_shorter)

lemma scan_exp_part_shorter: "scan_exp_part s = Some (d, r) \<Longrightarrow> length r \<le> length s"
  by (auto simp: scan_exp_part_def split: list.splits if_splits dest!: scan_digits1_shorter)

lemma scan_sign_shorter: "scan_sign s = (d, r) \<Longrightarrow> length r \<le> length s"
  by (auto simp: scan_sign_def split: list.splits if_splits)

lemma scan_number_shorter: "scan_number s = Some (l, r) \<Longrightarrow> length r < length s"
  by (auto simp: scan_number_def split: prod.splits option.splits
      dest!: scan_sign_shorter scan_int_part_shorter scan_frac_part_shorter scan_exp_part_shorter)

lemma parse_shorter_all:
  "(\<forall>depth s v r. parse_value fuel depth s = Some (v, r) \<longrightarrow> length r < length s) \<and>
   (\<forall>depth s kvs r. parse_members fuel depth s = Some (kvs, r) \<longrightarrow> length r < length s) \<and>
   (\<forall>depth s vs r. parse_elements fuel depth s = Some (vs, r) \<longrightarrow> length r < length s)"
proof (induction fuel)
  case 0
  then show ?case by simp
next
  case (Suc fuel)
  have V: "length r < length s" if "parse_value fuel depth s = Some (v, r)" for depth s v r
    using Suc that by blast
  have M: "length r < length s" if "parse_members fuel depth s = Some (v, r)" for depth s v r
    using Suc that by blast
  have E: "length r < length s" if "parse_elements fuel depth s = Some (v, r)" for depth s v r
    using Suc that by blast
  have M': "length r < length s" if "parse_members fuel depth (skip_ws s) = Some (v, r)" for depth s v r
    using M [OF that] length_skip_ws [of s] by linarith
  note lens = skip_ws_ConsD scan_string_shorter scan_number_shorter V M E
  have "length r < length s" if ret: "parse_value (Suc fuel) depth s = Some (v, r)" for depth s v r
  proof -
    obtain c cs where cs: "skip_ws s = c # cs"
      using ret by (cases "skip_ws s") (simp_all add: parse_value.simps)
    then have "Suc (length cs) \<le> length s" using skip_ws_ConsD [OF cs] by simp
    moreover have "length r < Suc (length cs)"
      using ret unfolding parse_value.simps cs
      by (fastforce split: list.splits if_splits dest!: lens)
    ultimately show ?thesis by linarith
  qed
  moreover have "length r < length s" if "parse_members (Suc fuel) depth s = Some (v, r)" for depth s v r
    using that unfolding parse_members.simps
    by (auto split: list.splits if_splits option.splits prod.splits
        dest!: skip_ws_ConsD scan_string_shorter V M')
  moreover have "length r < length s" if "parse_elements (Suc fuel) depth s = Some (v, r)" for depth s v r
    using that unfolding parse_elements.simps
    by (fastforce split: list.splits if_splits option.splits prod.splits dest!: lens)
  ultimately show ?case by blast
qed

lemmas parse_shorter =
  parse_shorter_all [THEN conjunct1, rule_format]
  parse_shorter_all [THEN conjunct2, THEN conjunct1, rule_format]
  parse_shorter_all [THEN conjunct2, THEN conjunct2, rule_format]

text \<open>Enough fuel is enough: one more unit changes nothing.\<close>

lemma parse_fuel_step:
  "(\<forall>depth s. 2 * length s < fuel \<longrightarrow> parse_value (Suc fuel) depth s = parse_value fuel depth s) \<and>
   (\<forall>depth s. 2 * length s < fuel \<longrightarrow> parse_members (Suc fuel) depth s = parse_members fuel depth s) \<and>
   (\<forall>depth s. 2 * length s + 1 < fuel \<longrightarrow> parse_elements (Suc fuel) depth s = parse_elements fuel depth s)"
proof (induction fuel)
  case 0
  then show ?case by simp
next
  case (Suc fuel)
  have V: "parse_value (Suc fuel) depth s = parse_value fuel depth s" if "2 * length s < fuel" for depth s
    using Suc that by blast
  have M: "parse_members (Suc fuel) depth s = parse_members fuel depth s" if "2 * length s < fuel" for depth s
    using Suc that by blast
  have E: "parse_elements (Suc fuel) depth s = parse_elements fuel depth s" if "2 * length s + 1 < fuel" for depth s
    using Suc that by blast
  have "parse_value (Suc (Suc fuel)) depth s = parse_value (Suc fuel) depth s"
    if len: "2 * length s < Suc fuel" for depth s
  proof (cases "skip_ws s")
    case (Cons c cs)
    then have "length cs < length s" by (rule skip_ws_ConsD)
    then have bound: "2 * length t + 1 < fuel" if "length t \<le> length cs" for t :: string
      using len that by linarith
    have "parse_members (Suc fuel) d (b # r) = parse_members fuel d (b # r)"
      "parse_elements (Suc fuel) d (b # r) = parse_elements fuel d (b # r)"
      if "skip_ws cs = b # r" for b r d
      using bound [of "b # r"] length_skip_ws [of cs] that by (auto intro!: M E)
    then show ?thesis
      unfolding parse_value.simps Cons by (simp split: list.split)
  qed (simp add: parse_value.simps)
  moreover have "parse_members (Suc (Suc fuel)) depth s = parse_members (Suc fuel) depth s"
    if len: "2 * length s < Suc fuel" for depth s
  proof (cases s)
    case (Cons q cs)
    have "parse_value (Suc fuel) depth r1 = parse_value fuel depth r1"
      if "scan_string cs = Some (k, r)" "skip_ws r = c # r1" for k r c r1
      using scan_string_shorter [OF that(1)] skip_ws_ConsD [OF that(2)] len Cons by (intro V) simp
    moreover have "parse_members (Suc fuel) depth (skip_ws r3) = parse_members fuel depth (skip_ws r3)"
      if "scan_string cs = Some (k, r)" "skip_ws r = c # r1" "parse_value fuel depth r1 = Some (v, r2)"
        "skip_ws r2 = d # r3" for k r c r1 v r2 d r3
      using scan_string_shorter [OF that(1)] skip_ws_ConsD [OF that(2)] parse_shorter(1) [OF that(3)]
        skip_ws_ConsD [OF that(4)] length_skip_ws [of r3] len Cons by (intro M) simp
    ultimately show ?thesis
      unfolding parse_members.simps Cons
      by (simp split: list.split option.split prod.split)
  qed (simp add: parse_members.simps)
  moreover have "parse_elements (Suc (Suc fuel)) depth s = parse_elements (Suc fuel) depth s"
    if len: "2 * length s + 1 < Suc fuel" for depth s
  proof -
    have "parse_value (Suc fuel) depth s = parse_value fuel depth s"
      using len by (intro V) simp
    moreover have "parse_elements (Suc fuel) depth r3 = parse_elements fuel depth r3"
      if "parse_value fuel depth s = Some (v, r2)" "skip_ws r2 = d # r3" for v r2 d r3
      using parse_shorter(1) [OF that(1)] skip_ws_ConsD [OF that(2)] len by (intro E) simp
    ultimately show ?thesis
      unfolding parse_elements.simps
      by (simp split: list.split option.split prod.split)
  qed
  ultimately show ?case by blast
qed

lemma parse_value_fuel:
  assumes "2 * length s < n"
  shows "parse_value (n + k) depth s = parse_value n depth s"
  using assms parse_fuel_step by (induction k) simp_all

end
