(* ===== verification/Kube.thy ===== *)
theory Kube
  imports GoTime Json
begin

text \<open>
  The constants of \<open>internal/constants\<close>, the Kubernetes objects as the program reads them, and
  the operations of the outside it calls: the API client (\<open>client.Client\<close> of controller-runtime)
  and the runtime (the clock, the race of a timer with a cancelled context). Both are records of
  functions of the world, arguments of every definition that uses them; an operation of the
  outside always comes back, possibly with an error.
\<close>

section \<open>Constants\<close>

definition IstioSystemNamespace :: string where
  "IstioSystemNamespace = ''istio-system''"

definition ConfigMapNamePrefix :: string where
  "ConfigMapNamePrefix = ''istio-sidecar-injector''"

definition ReconcileTriggerNameIstioChange :: string where
  "ReconcileTriggerNameIstioChange = ''__istio_change__''"

definition LabelIstioRev :: string where
  "LabelIstioRev = ''istio.io/rev''"

definition LabelIstioTag :: string where
  "LabelIstioTag = ''istio.io/tag''"

definition LabelIstioInjection :: string where
  "LabelIstioInjection = ''istio-injection''"

definition RestartedAtAnnotation :: string where
  "RestartedAtAnnotation = ''fortsa.scaffidi.net/restartedAt''"

lemmas constant_defs =
  IstioSystemNamespace_def ConfigMapNamePrefix_def ReconcileTriggerNameIstioChange_def
  LabelIstioRev_def LabelIstioTag_def LabelIstioInjection_def RestartedAtAnnotation_def


section \<open>Objects\<close>

text \<open>A Go \<open>map[string]string\<close>, nil or empty alike for reading, is a finite map.\<close>

type_synonym labels = "string \<rightharpoonup> string"

text \<open>\<open>m[k]\<close> without the second result: the empty string when the key is absent.\<close>

definition map_get :: "labels \<Rightarrow> string \<Rightarrow> string" where
  "map_get m k = (case m k of Some v \<Rightarrow> v | None \<Rightarrow> [])"

record namespaced_name =
  nn_namespace :: string
  nn_name :: string

text \<open>An owner reference; \<open>Controller\<close> is a pointer to a boolean.\<close>

record owner_reference =
  or_kind :: string
  or_name :: string
  or_controller :: "bool option"

text \<open>Object metadata; the managed fields are kept as their optional times.\<close>

record object_meta =
  om_namespace :: string
  om_name :: string
  om_labels :: labels
  om_annotations :: labels
  om_creation :: gotime
  om_managed :: "gotime option list"
  om_owners :: "owner_reference list"

record container =
  c_name :: string
  c_image :: string

text \<open>\<open>ps_rest\<close> stands for the fields of a pod's spec that are only copied.\<close>

record pod_spec =
  ps_containers :: "container list"
  ps_init_containers :: "container list"
  ps_rest :: string

record pod =
  p_meta :: object_meta
  p_spec :: pod_spec

record pod_template =
  pt_labels :: labels
  pt_annotations :: labels
  pt_spec :: pod_spec

text \<open>A \<open>Deployment\<close>, \<open>StatefulSet\<close> or \<open>DaemonSet\<close>: its metadata and pod template.\<close>

datatype wtype = DeploymentT | StatefulSetT | DaemonSetT

record workload =
  wl_meta :: object_meta
  wl_template :: pod_template

record config_map =
  cm_meta :: object_meta
  cm_data :: labels

record service_reference =
  sr_namespace :: string
  sr_name :: string
  sr_path :: "string option"
  sr_port :: "int option"

record webhook_client_config =
  wc_url :: "string option"
  wc_service :: "service_reference option"
  wc_ca_bundle :: string

record mutating_webhook_configuration =
  mwc_meta :: object_meta
  mwc_webhooks :: "webhook_client_config list"

text \<open>The reference to a workload that the scanner returns.\<close>

record workload_ref =
  wr_nn :: namespaced_name
  wr_kind :: string

abbreviation "wr_namespace r \<equiv> nn_namespace (wr_nn r)"
abbreviation "wr_name r \<equiv> nn_name (wr_nn r)"


text \<open>The switch on a workload's kind that the code repeats; the default case is \<open>None\<close>.\<close>

fun type_of_kind :: "string \<Rightarrow> wtype option" where
  "type_of_kind kind =
     (if kind = ''Deployment'' then Some DeploymentT
      else if kind = ''StatefulSet'' then Some StatefulSetT
      else if kind = ''DaemonSet'' then Some DaemonSetT
      else None)"

declare type_of_kind.simps [simp del]

lemma type_of_kind_simps [simp]:
  "type_of_kind ''Deployment'' = Some DeploymentT"
  "type_of_kind ''StatefulSet'' = Some StatefulSetT"
  "type_of_kind ''DaemonSet'' = Some DaemonSetT"
  "type_of_kind ''ReplicaSet'' = None"
  "type_of_kind ''ControllerRevision'' = None"
  by (simp_all add: type_of_kind.simps)


section \<open>The latest modification of an object\<close>

text \<open>
  \<open>GetConfigMapLastModified\<close> and \<open>getLastModified\<close> are the same loop over the managed fields.
\<close>

definition latest_modified :: "object_meta \<Rightarrow> gotime" where
  "latest_modified m =
     fold (\<lambda>mf latest. case mf of
             Some t \<Rightarrow> if after t latest then t else latest
           | None \<Rightarrow> latest)
       (om_managed m) (om_creation m)"

lemma fold_latest:
  "fold (\<lambda>mf latest. case mf of Some t \<Rightarrow> if after t latest then t else latest | None \<Rightarrow> latest) ms t0
     = Max (insert t0 {t. Some t \<in> set ms})"
proof (induction ms arbitrary: t0)
  case Nil
  then show ?case by simp
next
  case (Cons m ms)
  have fin: "finite {t. Some t \<in> set ms}"
    using finite_imageI [OF finite_set, of the ms] by (rule rev_finite_subset) force
  show ?case
  proof (cases m)
    case None
    then show ?thesis using Cons.IH by simp
  next
    case (Some u)
    have eq: "{t. Some t \<in> set (m # ms)} = insert u {t. Some t \<in> set ms}" using Some by auto
    have "Max (insert t0 (insert u {t. Some t \<in> set ms}))
        = max (max t0 u) (Max (insert (max t0 u) {t. Some t \<in> set ms}))"
      using fin by (cases "{t. Some t \<in> set ms} = {}") (simp_all add: max.assoc max.left_commute)
    also have "\<dots> = Max (insert (max t0 u) {t. Some t \<in> set ms})"
      using fin by (intro max_absorb2 Max_ge) simp_all
    finally have calc: "Max (insert t0 (insert u {t. Some t \<in> set ms}))
      = Max (insert (max t0 u) {t. Some t \<in> set ms})" .
    have step: "(if after u t0 then u else t0) = max t0 u" by (simp add: after_def max_def)
    show ?thesis
      unfolding eq calc by (simp add: Some Cons.IH step)
  qed
qed

lemma latest_modified_Max:
  "latest_modified m = Max (insert (om_creation m) {t. Some t \<in> set (om_managed m)})"
  by (simp add: latest_modified_def fold_latest)


section \<open>The outside\<close>

text \<open>
  The API client. A \<open>kList\<close> operation is \<open>List\<close> with the option \<open>InNamespace(ns)\<close>, where given;
  \<open>kMergePatch\<close> is \<open>Patch\<close> with \<open>RawPatch(types.MergePatchType, _)\<close>, whose body is given as the
  JSON document.
\<close>

record 'w kube =
  kGetWorkload :: "wtype \<Rightarrow> namespaced_name \<Rightarrow> 'w \<Rightarrow> (goerror + workload) \<times> 'w"
  kGetReplicaSet :: "namespaced_name \<Rightarrow> 'w \<Rightarrow> (goerror + object_meta) \<times> 'w"
  kGetControllerRevision :: "namespaced_name \<Rightarrow> 'w \<Rightarrow> (goerror + object_meta) \<times> 'w"
  kGetNamespace :: "string \<Rightarrow> 'w \<Rightarrow> (goerror + object_meta) \<times> 'w"
  kGetMWC :: "string \<Rightarrow> 'w \<Rightarrow> (goerror + mutating_webhook_configuration) \<times> 'w"
  kListPods :: "string option \<Rightarrow> 'w \<Rightarrow> (goerror + pod list) \<times> 'w"
  kListConfigMaps :: "string option \<Rightarrow> 'w \<Rightarrow> (goerror + config_map list) \<times> 'w"
  kListMWCs :: "'w \<Rightarrow> (goerror + mutating_webhook_configuration list) \<times> 'w"
  kMergePatch :: "wtype \<Rightarrow> namespaced_name \<Rightarrow> json \<Rightarrow> 'w \<Rightarrow> goerror option \<times> 'w"

text \<open>
  The runtime: \<open>time.Now\<close>, which case of
  \<open>select { case <-ctx.Done(): ... case <-time.After(d): ... }\<close> is taken, and the order in which
  \<open>for k := range m\<close> visits the keys of a map.
\<close>

datatype select_outcome = CtxDone goerror | TimerFired

record 'w runtime =
  rtNow :: "'w \<Rightarrow> gotime \<times> 'w"
  rtSelect :: "duration \<Rightarrow> 'w \<Rightarrow> select_outcome \<times> 'w"
  rtRange :: "string list \<Rightarrow> 'w \<Rightarrow> string list \<times> 'w"

end
