(* ===== verification/ConfigMaps.thy ===== *)
theory ConfigMaps
  imports Kube
begin

text \<open>
  Package \<open>configmap\<close>: the values of an Istio sidecar injector ConfigMap
  (\<open>configmap_parser.go\<close>), and the table from revision to the time of its last configuration
  change (\<open>fetch.go\<close>).
\<close>

section \<open>Parsing\<close>

record istio_values =
  iv_revision :: string
  iv_hub :: string
  iv_tag :: string
  iv_image :: string

definition GetConfigMapLastModified :: "config_map \<Rightarrow> gotime" where
  "GetConfigMapLastModified cm = latest_modified (cm_meta cm)"

definition nonempty :: "string option \<Rightarrow> string option" where
  "nonempty x = (case x of Some v \<Rightarrow> if v = [] then None else Some v | None \<Rightarrow> None)"

text \<open>The revision: the values JSON, top level first, then its \<open>global\<close> object, then the label.\<close>

definition values_revision :: "config_map \<Rightarrow> (string \<rightharpoonup> json) \<Rightarrow> string" where
  "values_revision cm data =
     (let rev0 = (case nonempty (as_string (data ''revision'')) of Some v \<Rightarrow> v | None \<Rightarrow> []);
          rev1 = (if rev0 = [] then
                    (case as_object (data ''global'') of
                       Some global \<Rightarrow>
                         (case nonempty (as_string (global ''revision'')) of
                            Some v \<Rightarrow> v | None \<Rightarrow> rev0)
                     | None \<Rightarrow> rev0)
                  else rev0);
          rev2 = (if rev1 = [] then
                    (case nonempty (om_labels (cm_meta cm) LabelIstioRev) of
                       Some v \<Rightarrow> v | None \<Rightarrow> rev1)
                  else rev1)
      in if rev2 = [] then ''default'' else rev2)"

definition ParseConfigMapValues :: "config_map \<Rightarrow> goerror + istio_values" where
  "ParseConfigMapValues cm =
     (case nonempty (cm_data cm ''values'') of
        None \<Rightarrow> Inl (Errorf (''ConfigMap '' @ om_namespace (cm_meta cm) @ ''/''
                             @ om_name (cm_meta cm) @ '' has no 'values' key''))
      | Some raw \<Rightarrow>
          (case unmarshal_map raw of
             Inl err \<Rightarrow> Inl (Wrap ''failed to parse values JSON: '' err)
           | Inr data \<Rightarrow>
               (case as_object (data ''global'') of
                  None \<Rightarrow>
                    Inr \<lparr>iv_revision = values_revision cm data, iv_hub = [], iv_tag = [], iv_image = []\<rparr>
                | Some global \<Rightarrow>
                    Inr \<lparr>iv_revision = values_revision cm data,
                         iv_hub = (case as_string (global ''hub'') of Some v \<Rightarrow> v | None \<Rightarrow> []),
                         iv_tag = (case as_string (global ''tag'') of Some v \<Rightarrow> v | None \<Rightarrow> []),
                         iv_image =
                           (case as_object (global ''proxy'') of
                              Some proxy \<Rightarrow>
                                (case as_string (proxy ''image'') of Some v \<Rightarrow> v | None \<Rightarrow> [])
                            | None \<Rightarrow> [])\<rparr>)))"

text \<open>
  The revision is the first non-empty of four sources: a specification of the precedence.
\<close>

fun first_nonempty :: "string option list \<Rightarrow> string" where
  "first_nonempty [] = ''default''"
| "first_nonempty (x # xs) = (case nonempty x of Some v \<Rightarrow> v | None \<Rightarrow> first_nonempty xs)"

definition revision_sources :: "config_map \<Rightarrow> (string \<rightharpoonup> json) \<Rightarrow> string option list" where
  "revision_sources cm data =
     [as_string (data ''revision''),
      Option.bind (as_object (data ''global'')) (\<lambda>g. as_string (g ''revision'')),
      om_labels (cm_meta cm) LabelIstioRev]"

lemma nonempty_Some_iff: "nonempty x = Some v \<longleftrightarrow> x = Some v \<and> v \<noteq> []"
  by (auto simp: nonempty_def split: option.splits)

lemma nonempty_not_Some_Nil [simp]: "nonempty x \<noteq> Some []"
  by (simp add: nonempty_Some_iff)

lemma first_nonempty_not_Nil [simp]: "first_nonempty xs \<noteq> []"
  by (induction xs) (auto split: option.split)

lemma nonempty_cases:
  obtains "nonempty x = None" | v where "nonempty x = Some v" "v \<noteq> []"
  by (cases "nonempty x") (auto simp: nonempty_Some_iff)

lemma values_revision_first: "values_revision cm data = first_nonempty (revision_sources cm data)"
proof (cases "as_string (data ''revision'')" rule: nonempty_cases)
  case 1
  show ?thesis
  proof (cases "as_object (data ''global'')")
    case None
    with 1 show ?thesis
      by (auto simp: values_revision_def revision_sources_def Let_def nonempty_def split: option.splits)
  next
    case (Some g)
    show ?thesis
    proof (cases "as_string (g ''revision'')" rule: nonempty_cases)
      case none: 1
      with 1 Some show ?thesis
        by (cases "om_labels (cm_meta cm) LabelIstioRev" rule: nonempty_cases)
          (simp_all add: values_revision_def revision_sources_def)
    next
      case (2 v)
      with 1 Some show ?thesis by (simp add: values_revision_def revision_sources_def)
    qed
  qed
next
  case (2 v)
  then show ?thesis by (simp add: values_revision_def revision_sources_def)
qed

text \<open>A successful parse, in terms of the decoded values.\<close>

lemma ParseConfigMapValues_InrE:
  assumes "ParseConfigMapValues cm = Inr vals"
  obtains raw data where "cm_data cm ''values'' = Some raw" "raw \<noteq> []" "unmarshal_map raw = Inr data"
    and "iv_revision vals = first_nonempty (revision_sources cm data)"
proof -
  from assms obtain raw data where raw: "nonempty (cm_data cm ''values'') = Some raw"
    and data: "unmarshal_map raw = Inr data"
    by (auto simp: ParseConfigMapValues_def split: option.splits sum.splits)
  have "iv_revision vals = values_revision cm data"
    using assms raw data by (auto simp: ParseConfigMapValues_def split: option.splits)
  with raw data show thesis by (auto simp: nonempty_Some_iff values_revision_first intro: that)
qed

lemma ParseConfigMapValues_InlE:
  assumes "ParseConfigMapValues cm = Inl e"
  obtains "nonempty (cm_data cm ''values'') = None"
    | raw err where "cm_data cm ''values'' = Some raw" "unmarshal_map raw = Inl err"
  using assms
  by (auto simp: ParseConfigMapValues_def nonempty_Some_iff split: option.splits sum.splits)


section \<open>Fetching\<close>

text \<open>One iteration of the loop of \<open>BuildLastModifiedByRevision\<close>, and the loop.\<close>

definition build_step :: "config_map \<Rightarrow> (string \<rightharpoonup> gotime) \<Rightarrow> (string \<rightharpoonup> gotime)" where
  "build_step cm result =
     (if \<not> has_prefix (om_name (cm_meta cm)) ConfigMapNamePrefix then result
      else case ParseConfigMapValues cm of
        Inl _ \<Rightarrow> result
      | Inr vals \<Rightarrow>
          let lastModified = GetConfigMapLastModified cm
          in case result (iv_revision vals) of
               Some existing \<Rightarrow>
                 if after lastModified existing then result(iv_revision vals \<mapsto> lastModified) else result
             | None \<Rightarrow> result(iv_revision vals \<mapsto> lastModified))"

definition BuildLastModifiedByRevision ::
  "'w kube \<Rightarrow> ('w, goerror + (string \<rightharpoonup> gotime)) go" where
  "BuildLastModifiedByRevision k =
     go_try (Wrap (''list ConfigMaps in '' @ IstioSystemNamespace @ '': ''))
       (go_call (kListConfigMaps k (Some IstioSystemNamespace)))
       (\<lambda>items. go_ret (Inr (fold build_step items Map.empty)))"

text \<open>
  Specification: the times of the ConfigMaps that count for a revision, and the greatest of them.
\<close>

definition counts_for :: "config_map \<Rightarrow> string \<Rightarrow> bool" where
  "counts_for cm r \<longleftrightarrow>
     has_prefix (om_name (cm_meta cm)) ConfigMapNamePrefix \<and>
     (case ParseConfigMapValues cm of Inl _ \<Rightarrow> False | Inr vals \<Rightarrow> iv_revision vals = r)"

definition times_of :: "config_map list \<Rightarrow> string \<Rightarrow> gotime set" where
  "times_of cms r = GetConfigMapLastModified ` {cm \<in> set cms. counts_for cm r}"

definition max_time :: "gotime set \<Rightarrow> gotime option" where
  "max_time T = (if T = {} then None else Some (Max T))"

lemma max_time_empty [simp]: "max_time {} = None"
  by (simp add: max_time_def)

lemma max_time_insert:
  "finite T \<Longrightarrow> max_time (insert t T) =
     (case max_time T of None \<Rightarrow> Some t | Some u \<Rightarrow> Some (if after t u then t else u))"
  by (cases "T = {}") (simp_all add: max_time_def after_def max_def del: Max_less_iff)

lemma build_step_counts:
  "counts_for cm r \<Longrightarrow> build_step cm m r =
     (case m r of None \<Rightarrow> Some (GetConfigMapLastModified cm)
      | Some u \<Rightarrow> Some (if after (GetConfigMapLastModified cm) u then GetConfigMapLastModified cm else u))"
  by (auto simp: build_step_def counts_for_def Let_def split: sum.splits option.splits)

lemma build_step_other: "\<not> counts_for cm r \<Longrightarrow> build_step cm m r = m r"
  by (auto simp: build_step_def counts_for_def Let_def split: sum.splits option.splits)

lemma finite_times_of [simp]: "finite (times_of cms r)"
  by (simp add: times_of_def)

lemma fold_build_step:
  "fold build_step cms Map.empty r = max_time (times_of cms r)"
proof (induction cms rule: rev_induct)
  case Nil
  then show ?case by (simp add: times_of_def)
next
  case (snoc cm cms)
  show ?case
  proof (cases "counts_for cm r")
    case True
    then have "times_of (cms @ [cm]) r = insert (GetConfigMapLastModified cm) (times_of cms r)"
      by (auto simp: times_of_def)
    with True snoc show ?thesis by (simp add: build_step_counts max_time_insert)
  next
    case False
    then have "times_of (cms @ [cm]) r = times_of cms r" by (auto simp: times_of_def)
    with False snoc show ?thesis by (simp add: build_step_other)
  qed
qed


section \<open>Properties\<close>

text \<open>
  C29. The table of last modifications: for every revision, the greatest last-modified time among
  the readable injector ConfigMaps of \<open>istio-system\<close> with that revision, and no entry when there is
  none, whatever the order in which the server lists them.
\<close>

theorem BuildLastModifiedByRevision_max:
  "returns (BuildLastModifiedByRevision k) w (Inr table) w' \<longleftrightarrow>
     (\<exists>cms. kListConfigMaps k (Some IstioSystemNamespace) w = (Inr cms, w') \<and>
        table = (\<lambda>r. max_time (times_of cms r)))"
proof -
  have "fold build_step cms Map.empty = (\<lambda>r. max_time (times_of cms r))" for cms
    by (rule ext) (rule fold_build_step)
  then show ?thesis
    unfolding BuildLastModifiedByRevision_def returns_try by auto
qed

text \<open>
  C35. A ConfigMap that parses has the revision of the first non-empty of: \<open>revision\<close> in its values,
  \<open>global.revision\<close> in its values, the label \<open>istio.io/rev\<close>, the word \<open>default\<close>; it is never empty.
\<close>

theorem ParseConfigMapValues_revision:
  assumes "ParseConfigMapValues cm = Inr vals"
  shows "\<exists>raw data. cm_data cm ''values'' = Some raw \<and> unmarshal_map raw = Inr data \<and>
    iv_revision vals = first_nonempty (revision_sources cm data) \<and> iv_revision vals \<noteq> []"
  using assms by (rule ParseConfigMapValues_InrE) auto

definition example_config_map :: config_map where
  "example_config_map =
     \<lparr>cm_meta = \<lparr>om_namespace = ''istio-system'', om_name = ''istio-sidecar-injector-1-20'',
                 om_labels = [LabelIstioRev \<mapsto> ''1-20''], om_annotations = Map.empty,
                 om_creation = 0, om_managed = [Some 5, None, Some 3], om_owners = []\<rparr>,
      cm_data = [''values'' \<mapsto> ''{}'']\<rparr>"

lemma parse_json_braces: "parse_json ''{}'' = Some (JObj [])"
  by code_simp

lemma unmarshal_map_braces: "unmarshal_map ''{}'' = Inr Map.empty"
  by (simp add: unmarshal_map_def parse_json_braces jmembers_def)

theorem ParseConfigMapValues_revision_witness:
  "ParseConfigMapValues example_config_map =
     Inr \<lparr>iv_revision = ''1-20'', iv_hub = [], iv_tag = [], iv_image = []\<rparr> \<and>
   (\<exists>raw data. cm_data example_config_map ''values'' = Some raw \<and> unmarshal_map raw = Inr data \<and>
      ''1-20'' = first_nonempty (revision_sources example_config_map data))"
proof -
  have parse: "ParseConfigMapValues example_config_map =
     Inr \<lparr>iv_revision = ''1-20'', iv_hub = [], iv_tag = [], iv_image = []\<rparr>"
    by (simp add: ParseConfigMapValues_def values_revision_def example_config_map_def nonempty_def
        unmarshal_map_braces)
  from ParseConfigMapValues_revision [OF this] parse show ?thesis by auto
qed

text \<open>
  Parsing fails exactly when the key \<open>values\<close> is absent or empty or its text is not a JSON
  object (or \<open>null\<close>).
\<close>

theorem ParseConfigMapValues_fails:
  "(\<exists>e. ParseConfigMapValues cm = Inl e) \<longleftrightarrow>
     map_get (cm_data cm) ''values'' = [] \<or> (\<exists>e. unmarshal_map (map_get (cm_data cm) ''values'') = Inl e)"
proof (cases "nonempty (cm_data cm ''values'')")
  case None
  then have "map_get (cm_data cm) ''values'' = []"
    by (auto simp: nonempty_def map_get_def split: option.splits if_splits)
  with None show ?thesis by (simp add: ParseConfigMapValues_def)
next
  case (Some raw)
  then have "map_get (cm_data cm) ''values'' = raw" "raw \<noteq> []"
    by (auto simp: nonempty_Some_iff map_get_def)
  with Some show ?thesis
    by (auto simp: ParseConfigMapValues_def split: sum.splits option.splits)
qed

end
