(* ===== verification/MwcTags.thy ===== *)
theory MwcTags
  imports Kube
begin

text \<open>
  Package \<open>mwc\<close>, the part that reads: the tables from Istio revision tag to revision and to the
  time of the tag's last change, built from the \<open>istio-revision-tag-*\<close> webhook configurations
  (\<open>trigger.go\<close>).
\<close>

definition istioRevisionTagPrefix :: string where
  "istioRevisionTagPrefix = ''istio-revision-tag-''"

definition getLastModified :: "mutating_webhook_configuration \<Rightarrow> gotime" where
  "getLastModified mwc = latest_modified (mwc_meta mwc)"

type_synonym tag_tables = "(string \<rightharpoonup> string) \<times> (string \<rightharpoonup> gotime)"

definition tag_step :: "mutating_webhook_configuration \<Rightarrow> tag_tables \<Rightarrow> tag_tables" where
  "tag_step mwc tables =
     (if \<not> has_prefix (om_name (mwc_meta mwc)) istioRevisionTagPrefix then tables
      else let tag = map_get (om_labels (mwc_meta mwc)) LabelIstioTag;
               revision = map_get (om_labels (mwc_meta mwc)) LabelIstioRev
           in if tag \<noteq> [] \<and> revision \<noteq> []
              then ((fst tables)(tag \<mapsto> revision), (snd tables)(tag \<mapsto> getLastModified mwc))
              else tables)"

definition FetchTagToRevisionAndLastModified :: "'w kube \<Rightarrow> ('w, goerror + tag_tables) go" where
  "FetchTagToRevisionAndLastModified k =
     go_try (Wrap ''list MutatingWebhookConfigurations: '') (go_call (kListMWCs k))
       (\<lambda>items. go_ret (Inr (fold tag_step items (Map.empty, Map.empty))))"

text \<open>
  Specification: a configuration defines a tag when its name has the prefix and both labels are
  non-empty; the last one in the list that defines it gives the entry in both tables.
\<close>

definition defines_tag :: "string \<Rightarrow> mutating_webhook_configuration \<Rightarrow> bool" where
  "defines_tag tag mwc \<longleftrightarrow>
     has_prefix (om_name (mwc_meta mwc)) istioRevisionTagPrefix \<and> tag \<noteq> [] \<and>
     map_get (om_labels (mwc_meta mwc)) LabelIstioTag = tag \<and>
     map_get (om_labels (mwc_meta mwc)) LabelIstioRev \<noteq> []"

definition last_defining ::
  "string \<Rightarrow> mutating_webhook_configuration list \<Rightarrow> mutating_webhook_configuration option" where
  "last_defining tag mwcs = List.find (defines_tag tag) (rev mwcs)"

lemma tag_step_defines:
  "defines_tag tag mwc \<Longrightarrow>
     fst (tag_step mwc t) tag = Some (map_get (om_labels (mwc_meta mwc)) LabelIstioRev) \<and>
     snd (tag_step mwc t) tag = Some (getLastModified mwc)"
  by (auto simp: tag_step_def defines_tag_def Let_def)

lemma tag_step_other:
  "\<not> defines_tag tag mwc \<Longrightarrow>
     fst (tag_step mwc t) tag = fst t tag \<and> snd (tag_step mwc t) tag = snd t tag"
  by (auto simp: tag_step_def defines_tag_def Let_def)

lemma fold_tag_step:
  "fst (fold tag_step mwcs (Map.empty, Map.empty)) tag =
     map_option (\<lambda>m. map_get (om_labels (mwc_meta m)) LabelIstioRev) (last_defining tag mwcs) \<and>
   snd (fold tag_step mwcs (Map.empty, Map.empty)) tag =
     map_option getLastModified (last_defining tag mwcs)"
  by (induction mwcs rule: rev_induct)
    (auto simp: last_defining_def tag_step_defines tag_step_other)

lemma last_defining_Some:
  "last_defining tag mwcs = Some m \<Longrightarrow> m \<in> set mwcs \<and> defines_tag tag m"
  by (metis find_Some_iff2 last_defining_def nth_mem set_rev)

lemma last_defining_None:
  "last_defining tag mwcs = None \<longleftrightarrow> (\<forall>m \<in> set mwcs. \<not> defines_tag tag m)"
  by (auto simp: last_defining_def find_None_iff)


section \<open>Properties\<close>

text \<open>
  C32. The tag tables: a tag has an entry in both tables or in neither, from the last listed
  configuration that defines it: its revision label in the one, its last modification in the
  other.
\<close>

theorem FetchTagToRevision_last:
  "returns (FetchTagToRevisionAndLastModified k) w (Inr (revisions, stamps)) w' \<longleftrightarrow>
     (\<exists>mwcs. kListMWCs k w = (Inr mwcs, w') \<and>
        revisions = (\<lambda>tag. map_option (\<lambda>m. map_get (om_labels (mwc_meta m)) LabelIstioRev) (last_defining tag mwcs)) \<and>
        stamps = (\<lambda>tag. map_option getLastModified (last_defining tag mwcs)))"
proof -
  have "fold tag_step mwcs (Map.empty, Map.empty) =
      ((\<lambda>tag. map_option (\<lambda>m. map_get (om_labels (mwc_meta m)) LabelIstioRev) (last_defining tag mwcs)),
       (\<lambda>tag. map_option getLastModified (last_defining tag mwcs)))" for mwcs
    by (rule prod_eqI) (auto simp: fold_tag_step)
  then show ?thesis
    unfolding FetchTagToRevisionAndLastModified_def returns_try by auto
qed

end
