(* ===== verification/Owners.thy ===== *)
theory Owners
  imports Kube
begin

text \<open>
  From a pod to the workload that owns it (\<open>internal/podscanner/pod_scanner.go\<close>): following the
  controller references through ReplicaSets and ControllerRevisions. The recursion of the code
  has no bound of its own, so \<open>findWorkloadOwner\<close> is the least fixed point of its body: it is
  \<open>None\<close> where the code would go on for ever.
\<close>

section \<open>The code\<close>

type_synonym 'w owner_search = "object_meta \<Rightarrow> ('w, goerror + workload_ref option) go"

definition getWorkloadRef ::
  "'w kube \<Rightarrow> namespaced_name \<Rightarrow> string \<Rightarrow> wtype \<Rightarrow> ('w, goerror + workload_ref option) go" where
  "getWorkloadRef k nn kind obj =
     go_bind (go_call (kGetWorkload k obj nn))
       (\<lambda>r. case r of
          Inl err \<Rightarrow> if isNotFound err then go_ret (Inr None) else go_ret (Inl err)
        | Inr _ \<Rightarrow> go_ret (Inr (Some \<lparr>wr_nn = nn, wr_kind = kind\<rparr>)))"

definition getIntermediateObject ::
  "'w kube \<Rightarrow> namespaced_name \<Rightarrow> string \<Rightarrow> ('w, goerror + object_meta option) go" where
  "getIntermediateObject k nn kind =
     (if kind = ''ReplicaSet'' then
        go_bind (go_call (kGetReplicaSet k nn))
          (\<lambda>r. case r of
             Inl err \<Rightarrow> if isNotFound err then go_ret (Inr None) else go_ret (Inl err)
           | Inr rs \<Rightarrow> go_ret (Inr (Some rs)))
      else if kind = ''ControllerRevision'' then
        go_bind (go_call (kGetControllerRevision k nn))
          (\<lambda>r. case r of
             Inl err \<Rightarrow> if isNotFound err then go_ret (Inr None) else go_ret (Inl err)
           | Inr cr \<Rightarrow> go_ret (Inr (Some cr)))
      else go_ret (Inr None))"

text \<open>\<open>search\<close> is the recursive call \<open>s.findWorkloadOwner\<close>.\<close>

definition fetchIntermediateOwner ::
  "'w kube \<Rightarrow> 'w owner_search \<Rightarrow> namespaced_name \<Rightarrow> string \<Rightarrow> ('w, goerror + workload_ref option) go" where
  "fetchIntermediateOwner k search nn kind =
     go_bind (getIntermediateObject k nn kind)
       (\<lambda>r. case r of
          Inl err \<Rightarrow> go_ret (Inl err)
        | Inr None \<Rightarrow> go_ret (Inr None)
        | Inr (Some nextObj) \<Rightarrow> search nextObj)"

definition resolveOwner ::
  "'w kube \<Rightarrow> 'w owner_search \<Rightarrow> object_meta \<Rightarrow> owner_reference \<Rightarrow>
   ('w, goerror + workload_ref option) go" where
  "resolveOwner k search obj owner =
     (let nn = \<lparr>nn_namespace = om_namespace obj, nn_name = or_name owner\<rparr>
      in if or_kind owner = ''Deployment'' then getWorkloadRef k nn ''Deployment'' DeploymentT
         else if or_kind owner = ''StatefulSet'' then getWorkloadRef k nn ''StatefulSet'' StatefulSetT
         else if or_kind owner = ''DaemonSet'' then getWorkloadRef k nn ''DaemonSet'' DaemonSetT
         else if or_kind owner = ''ReplicaSet'' \<or> or_kind owner = ''ControllerRevision''
         then fetchIntermediateOwner k search nn (or_kind owner)
         else go_ret (Inr None))"

text \<open>The loop over the owner references: non-controllers are passed over.\<close>

fun first_owner ::
  "(owner_reference \<Rightarrow> ('w, goerror + workload_ref option) go) \<Rightarrow> owner_reference list \<Rightarrow>
   ('w, goerror + workload_ref option) go" where
  "first_owner resolve [] = go_ret (Inr None)"
| "first_owner resolve (owner # owners) =
     (if or_controller owner = None \<or> or_controller owner = Some False
      then first_owner resolve owners
      else go_bind (resolve owner)
        (\<lambda>r. case r of
           Inl err \<Rightarrow> go_ret (Inl err)
         | Inr (Some ref) \<Rightarrow> go_ret (Inr (Some ref))
         | Inr None \<Rightarrow> first_owner resolve owners))"

lemma go_if_mono:
  assumes "c \<Longrightarrow> monotone (fun_ord option_ord) option_ord (\<lambda>f. A f w)"
    and "\<not> c \<Longrightarrow> monotone (fun_ord option_ord) option_ord (\<lambda>f. B f w)"
  shows "monotone (fun_ord option_ord) option_ord (\<lambda>f. (if c then A f else B f) w)"
  using assms by (cases c) simp_all

lemma go_const_mono: "monotone (fun_ord option_ord) option_ord (\<lambda>f. m w)"
  by (rule monotoneI) (simp add: flat_ord_def)

lemma first_owner_mono [partial_function_mono]:
  assumes "\<And>owner w. monotone (fun_ord option_ord) option_ord (\<lambda>f. R f owner w)"
  shows "monotone (fun_ord option_ord) option_ord (\<lambda>f. first_owner (R f) owners w)"
proof (induction owners arbitrary: w)
  case Nil
  show ?case by (simp add: go_ret_mono)
next
  case (Cons owner owners)
  have "monotone (fun_ord option_ord) option_ord
      (\<lambda>f. (case r of Inl err \<Rightarrow> go_ret (Inl err) | Inr (Some ref) \<Rightarrow> go_ret (Inr (Some ref))
            | Inr None \<Rightarrow> first_owner (R f) owners) v)" for r v
  proof (cases r)
    case (Inr a)
    then show ?thesis by (cases a) (simp_all add: go_ret_mono Cons.IH)
  qed (simp add: go_ret_mono)
  then show ?case
    unfolding first_owner.simps by (intro go_if_mono go_bind_mono Cons.IH assms)
qed

lemma resolveOwner_mono [partial_function_mono]:
  assumes "\<And>obj w. monotone (fun_ord option_ord) option_ord (\<lambda>f. F f obj w)"
  shows "monotone (fun_ord option_ord) option_ord (\<lambda>f. resolveOwner k (F f) obj owner w)"
proof -
  have step: "monotone (fun_ord option_ord) option_ord
      (\<lambda>f. (case r of Inl err \<Rightarrow> go_ret (Inl err) | Inr None \<Rightarrow> go_ret (Inr None)
            | Inr (Some nextObj) \<Rightarrow> F f nextObj) v)" for r v
  proof (cases r)
    case (Inr a)
    then show ?thesis by (cases a) (simp_all add: go_ret_mono assms)
  qed (simp add: go_ret_mono)
  show ?thesis
    unfolding resolveOwner_def fetchIntermediateOwner_def Let_def
    by (intro go_if_mono go_bind_mono step) (rule go_const_mono)+
qed

partial_function (option) findWorkloadOwner ::
  "'w kube \<Rightarrow> object_meta \<Rightarrow> 'w \<Rightarrow> ((goerror + workload_ref option) outcome \<times> 'w) option" where
  "findWorkloadOwner k obj w =
     (if om_owners obj = [] then go_ret (Inr None) w
      else first_owner (resolveOwner k (\<lambda>nextObj w. findWorkloadOwner k nextObj w) obj) (om_owners obj) w)"


lemma findWorkloadOwner_unfold:
  "findWorkloadOwner k obj =
     (if om_owners obj = [] then go_ret (Inr None)
      else first_owner (resolveOwner k (findWorkloadOwner k) obj) (om_owners obj))"
  by (rule ext) (subst findWorkloadOwner.simps, simp)


section \<open>What an answer means\<close>

text \<open>
  The ownership the search follows: \<open>controls\<close> says that a reference marks a controller,
  \<open>owner_key\<close> where it points, \<open>fetched\<close> that the API server gave an intermediate object for it,
  and \<open>owned_by\<close> that a chain of controllers leads to a workload the server knows.
\<close>

definition controls :: "owner_reference \<Rightarrow> bool" where
  "controls owner \<longleftrightarrow> or_controller owner = Some True"

definition owner_key :: "object_meta \<Rightarrow> owner_reference \<Rightarrow> namespaced_name" where
  "owner_key obj owner = \<lparr>nn_namespace = om_namespace obj, nn_name = or_name owner\<rparr>"

definition fetched :: "'w kube \<Rightarrow> object_meta \<Rightarrow> owner_reference \<Rightarrow> object_meta \<Rightarrow> bool" where
  "fetched k obj owner nxt \<longleftrightarrow>
     or_kind owner = ''ReplicaSet'' \<and> (\<exists>w w'. kGetReplicaSet k (owner_key obj owner) w = (Inr nxt, w')) \<or>
     or_kind owner = ''ControllerRevision'' \<and>
       (\<exists>w w'. kGetControllerRevision k (owner_key obj owner) w = (Inr nxt, w'))"

inductive owned_by :: "'w kube \<Rightarrow> object_meta \<Rightarrow> workload_ref \<Rightarrow> bool" for k where
  direct: "owner \<in> set (om_owners obj) \<Longrightarrow> controls owner \<Longrightarrow> type_of_kind (or_kind owner) = Some ty \<Longrightarrow>
    kGetWorkload k ty (owner_key obj owner) w = (Inr wl, w') \<Longrightarrow>
    owned_by k obj \<lparr>wr_nn = owner_key obj owner, wr_kind = or_kind owner\<rparr>"
| via: "owner \<in> set (om_owners obj) \<Longrightarrow> controls owner \<Longrightarrow> fetched k obj owner nxt \<Longrightarrow>
    owned_by k nxt ref \<Longrightarrow> owned_by k obj ref"

lemma returns_getWorkloadRef [go_simps]:
  "returns (getWorkloadRef k nn kind ty) w r w' \<longleftrightarrow>
     (\<exists>err. kGetWorkload k ty nn w = (Inl err, w') \<and> r = (if isNotFound err then Inr None else Inl err)) \<or>
     (\<exists>wl. kGetWorkload k ty nn w = (Inr wl, w') \<and> r = Inr (Some \<lparr>wr_nn = nn, wr_kind = kind\<rparr>))"
  unfolding getWorkloadRef_def returns_bind split_sum_ex by auto

lemma not_controls:
  "\<not> controls owner \<longleftrightarrow> or_controller owner = None \<or> or_controller owner = Some False"
  by (cases "or_controller owner") (auto simp: controls_def)

lemma first_owner_Cons:
  "first_owner R (owner # owners) =
     (if controls owner
      then go_bind (R owner)
        (\<lambda>r. case r of
           Inl err \<Rightarrow> go_ret (Inl err)
         | Inr (Some ref) \<Rightarrow> go_ret (Inr (Some ref))
         | Inr None \<Rightarrow> first_owner R owners)
      else first_owner R owners)"
  using not_controls [of owner] by (simp del: not_None_eq) blast

lemma first_owner_Some:
  "returns (first_owner R owners) w (Inr (Some ref)) w' \<Longrightarrow>
     \<exists>owner \<in> set owners. controls owner \<and> (\<exists>w1 w2. returns (R owner) w1 (Inr (Some ref)) w2)"
proof (induction owners arbitrary: w)
  case Nil
  then show ?case by simp
next
  case (Cons owner owners)
  show ?case
  proof (cases "controls owner")
    case False
    with Cons show ?thesis unfolding first_owner_Cons by auto
  next
    case True
    with Cons.prems obtain r w1 where r: "returns (R owner) w r w1"
      and rest: "returns (case r of Inl err \<Rightarrow> go_ret (Inl err) | Inr None \<Rightarrow> first_owner R owners
                  | Inr (Some ref) \<Rightarrow> go_ret (Inr (Some ref))) w1 (Inr (Some ref)) w'"
      unfolding first_owner_Cons by (auto elim: go_elims)
    show ?thesis
    proof (cases "r = Inr None")
      case True
      with rest have "returns (first_owner R owners) w1 (Inr (Some ref)) w'" by simp
      then show ?thesis using Cons.IH by auto
    next
      case False
      with rest have "r = Inr (Some ref)" by (auto split: sum.splits option.splits)
      with r True show ?thesis by auto
    qed
  qed
qed

lemma resolveOwner_SomeD:
  assumes "returns (resolveOwner k search obj owner) w (Inr (Some ref)) w'"
  obtains (workload) ty wl where "type_of_kind (or_kind owner) = Some ty"
      and "kGetWorkload k ty (owner_key obj owner) w = (Inr wl, w')"
      and "ref = \<lparr>wr_nn = owner_key obj owner, wr_kind = or_kind owner\<rparr>"
    | (intermediate) nxt w1 where "fetched k obj owner nxt" and "returns (search nxt) w1 (Inr (Some ref)) w'"
proof -
  consider "or_kind owner \<in> {''Deployment'', ''StatefulSet'', ''DaemonSet''}"
    | "or_kind owner = ''ReplicaSet''" | "or_kind owner = ''ControllerRevision''"
    | "or_kind owner \<notin> {''Deployment'', ''StatefulSet'', ''DaemonSet'', ''ReplicaSet'', ''ControllerRevision''}"
    by fastforce
  then show thesis
  proof cases
    case 1
    with assms show thesis
      by (auto simp: resolveOwner_def Let_def go_simps owner_key_def split: if_splits intro!: workload)
  next
    case 2
    with assms have "\<exists>nxt w1. fetched k obj owner nxt \<and> returns (search nxt) w1 (Inr (Some ref)) w'"
      by (fastforce simp: resolveOwner_def Let_def fetchIntermediateOwner_def getIntermediateObject_def
          fetched_def owner_key_def elim!: go_elims split: sum.splits option.splits if_splits)
    then show thesis using intermediate by blast
  next
    case 3
    with assms have "\<exists>nxt w1. fetched k obj owner nxt \<and> returns (search nxt) w1 (Inr (Some ref)) w'"
      by (fastforce simp: resolveOwner_def Let_def fetchIntermediateOwner_def getIntermediateObject_def
          fetched_def owner_key_def elim!: go_elims split: sum.splits option.splits if_splits)
    then show thesis using intermediate by blast
  next
    case 4
    with assms show thesis by (simp add: resolveOwner_def Let_def)
  qed
qed

text \<open>Soundness: the search returns only workloads that own the object.\<close>

lemma findWorkloadOwner_owned_by:
  assumes "returns (findWorkloadOwner k obj) w (Inr (Some ref)) w'"
  shows "owned_by k obj ref"
proof -
  have "fst r = Return (Inr (Some ref)) \<longrightarrow> owned_by k obj ref"
    if "findWorkloadOwner k obj w = Some r" for r k and obj :: object_meta and w :: 'a
  proof (rule findWorkloadOwner.raw_induct [OF _ that,
        where P = "\<lambda>k obj w r. fst r = Return (Inr (Some ref)) \<longrightarrow> owned_by k obj ref"])
    fix f :: "'a kube \<Rightarrow> object_meta \<Rightarrow> 'a \<Rightarrow> ((goerror + workload_ref option) outcome \<times> 'a) option"
      and k and obj :: object_meta and w r
    assume IH: "\<And>k obj w r. f k obj w = Some r \<Longrightarrow> fst r = Return (Inr (Some ref)) \<longrightarrow> owned_by k obj ref"
      and eq: "(if om_owners obj = [] then go_ret (Inr None) w
        else first_owner (resolveOwner k (\<lambda>nextObj w. f k nextObj w) obj) (om_owners obj) w) = Some r"
    show "fst r = Return (Inr (Some ref)) \<longrightarrow> owned_by k obj ref"
    proof
      assume "fst r = Return (Inr (Some ref))"
      then have "returns (first_owner (resolveOwner k (f k) obj) (om_owners obj)) w (Inr (Some ref)) (snd r)"
        using eq by (cases r) (auto simp: returns_def go_ret_def split: if_splits)
      from first_owner_Some [OF this] obtain owner w1 w2
        where owner: "owner \<in> set (om_owners obj)" "controls owner"
          and res: "returns (resolveOwner k (f k) obj owner) w1 (Inr (Some ref)) w2"
        by blast
      from res show "owned_by k obj ref"
      proof (cases rule: resolveOwner_SomeD)
        case (workload ty wl)
        with owner show ?thesis by (auto intro: owned_by.direct)
      next
        case (intermediate nxt w1)
        then have "owned_by k nxt ref" using IH by (fastforce simp: returns_def)
        with owner intermediate(1) show ?thesis by (rule owned_by.via)
      qed
    qed
  qed
  with assms show ?thesis by (fastforce simp: returns_def)
qed

lemma owned_by_kind: "owned_by k obj ref \<Longrightarrow> type_of_kind (wr_kind ref) \<noteq> None"
  by (induction rule: owned_by.induct) simp_all

text \<open>When fetched objects carry the namespace they were asked for, ownership stays inside it.\<close>

lemma owned_by_namespace:
  assumes "owned_by k obj ref"
    and "\<And>obj owner nxt. fetched k obj owner nxt \<Longrightarrow> om_namespace nxt = om_namespace obj"
  shows "wr_namespace ref = om_namespace obj"
  using assms by (induction rule: owned_by.induct) (simp_all add: owner_key_def)


section \<open>When the search comes back\<close>

definition next_object :: "'w kube \<Rightarrow> object_meta \<Rightarrow> object_meta \<Rightarrow> bool" where
  "next_object k obj nxt \<longleftrightarrow>
     (\<exists>owner \<in> set (om_owners obj). controls owner \<and> fetched k obj owner nxt)"

lemma getWorkloadRef_total: "go_total (getWorkloadRef k nn kind ty)"
  unfolding getWorkloadRef_def by (intro go_total_intros)

lemma first_owner_total:
  assumes "\<And>owner. owner \<in> set owners \<Longrightarrow> controls owner \<Longrightarrow> go_total (R owner)"
  shows "go_total (first_owner R owners)"
  using assms
proof (induction owners)
  case (Cons owner owners)
  then show ?case
    unfolding first_owner_Cons by (intro go_total_intros) simp_all
qed (simp add: go_total_ret)

lemma resolveOwner_total:
  assumes "\<And>nxt. fetched k obj owner nxt \<Longrightarrow> go_total (search nxt)"
  shows "go_total (resolveOwner k search obj owner)"
  unfolding resolveOwner_def Let_def fetchIntermediateOwner_def
proof (intro go_total_intros getWorkloadRef_total)
  let ?nn = "\<lparr>nn_namespace = om_namespace obj, nn_name = or_name owner\<rparr>"
  show "go_total (getIntermediateObject k ?nn (or_kind owner))"
    unfolding getIntermediateObject_def by (intro go_total_intros)
  fix x w w' found nxt
  assume "returns (getIntermediateObject k ?nn (or_kind owner)) w x w'" "x = Inr found" "found = Some nxt"
  then have "fetched k obj owner nxt"
    by (fastforce simp: getIntermediateObject_def fetched_def owner_key_def elim!: go_elims
        split: if_splits sum.splits)
  then show "go_total (search nxt)" by (rule assms)
qed

text \<open>Without an endless chain of controllers the search always comes back.\<close>

lemma findWorkloadOwner_total:
  assumes "wfp (\<lambda>nxt obj. next_object k obj nxt)"
  shows "go_total (findWorkloadOwner k obj)"
  using assms
proof (induction obj rule: wfp_induct_rule)
  case (less obj)
  have "go_total (first_owner (resolveOwner k (findWorkloadOwner k) obj) (om_owners obj))"
    using less by (intro first_owner_total resolveOwner_total) (auto simp: next_object_def)
  then show ?case by (subst findWorkloadOwner_unfold) (simp add: go_total_ret)
qed

text \<open>On a closed set of ReplicaSets that control one another it never does.\<close>

lemma findWorkloadOwner_cycle:
  assumes "C obj"
    and "\<And>obj. C obj \<Longrightarrow> \<exists>owner owners. om_owners obj = owner # owners \<and> controls owner \<and>
      or_kind owner = ''ReplicaSet'' \<and>
      (\<forall>w. \<exists>nxt w'. kGetReplicaSet k (owner_key obj owner) w = (Inr nxt, w') \<and> C nxt)"
  shows "findWorkloadOwner k obj w = None"
proof -
  have "k' = k \<longrightarrow> \<not> C obj" if "findWorkloadOwner k' obj w = Some r" for r k' and obj :: object_meta and w
  proof (rule findWorkloadOwner.raw_induct [OF _ that, where P = "\<lambda>k' obj w r. k' = k \<longrightarrow> \<not> C obj"],
      intro impI notI)
    fix f :: "'a kube \<Rightarrow> object_meta \<Rightarrow> 'a \<Rightarrow> ((goerror + workload_ref option) outcome \<times> 'a) option"
      and k' and obj :: object_meta and w r
    assume IH: "\<And>k' obj w r. f k' obj w = Some r \<Longrightarrow> k' = k \<longrightarrow> \<not> C obj"
      and eq: "(if om_owners obj = [] then go_ret (Inr None) w
        else first_owner (resolveOwner k' (\<lambda>nextObj w. f k' nextObj w) obj) (om_owners obj) w) = Some r"
      and "k' = k" and "C obj"
    from assms(2) [OF \<open>C obj\<close>] obtain owner owners where owner: "om_owners obj = owner # owners"
        "controls owner" "or_kind owner = ''ReplicaSet''"
      and get: "\<forall>w. \<exists>nxt w'. kGetReplicaSet k (owner_key obj owner) w = (Inr nxt, w') \<and> C nxt"
      by blast
    from get obtain nxt w' where nxt: "kGetReplicaSet k (owner_key obj owner) w = (Inr nxt, w')" "C nxt"
      by blast
    have "f k nxt w' = None"
      using IH nxt(2) by (cases "f k nxt w'") auto
    then have "resolveOwner k (f k) obj owner w = None"
      using owner(3) nxt(1)
      by (simp add: resolveOwner_def fetchIntermediateOwner_def getIntermediateObject_def Let_def
          go_bind_def go_call_def go_ret_def owner_key_def)
    then show False
      using eq owner \<open>k' = k\<close> unfolding owner(1) first_owner_Cons by (simp add: go_bind_def)
  qed
  with assms(1) show ?thesis by (cases "findWorkloadOwner k obj w") auto
qed

text \<open>The search only reads.\<close>

lemma first_owner_preserves:
  "(\<And>owner. preserves P (R owner)) \<Longrightarrow> preserves P (first_owner R owners)"
proof (induction owners)
  case (Cons owner owners)
  then show ?case unfolding first_owner_Cons by (intro preserves_intros) simp_all
qed (simp add: preserves_ret)

lemma resolveOwner_preserves:
  assumes "\<And>ty nn. preserves P (go_call (kGetWorkload k ty nn))"
    and "\<And>nn. preserves P (go_call (kGetReplicaSet k nn))"
    and "\<And>nn. preserves P (go_call (kGetControllerRevision k nn))"
    and "\<And>nxt. preserves P (search nxt)"
  shows "preserves P (resolveOwner k search obj owner)"
  unfolding resolveOwner_def Let_def fetchIntermediateOwner_def getIntermediateObject_def getWorkloadRef_def
  by (intro preserves_intros assms)

lemma findWorkloadOwner_preserves:
  assumes "\<And>ty nn. preserves P (go_call (kGetWorkload k ty nn))"
    and "\<And>nn. preserves P (go_call (kGetReplicaSet k nn))"
    and "\<And>nn. preserves P (go_call (kGetControllerRevision k nn))"
  shows "preserves P (findWorkloadOwner k obj)"
proof -
  have "k' = k \<longrightarrow> P w \<longrightarrow> P (snd r)" if "findWorkloadOwner k' obj w = Some r" for r k' and obj :: object_meta and w
  proof (rule findWorkloadOwner.raw_induct [OF _ that, where P = "\<lambda>k' obj w r. k' = k \<longrightarrow> P w \<longrightarrow> P (snd r)"])
    fix f :: "'a kube \<Rightarrow> object_meta \<Rightarrow> 'a \<Rightarrow> ((goerror + workload_ref option) outcome \<times> 'a) option"
      and k' and obj :: object_meta and w r
    assume IH: "\<And>k' obj w r. f k' obj w = Some r \<Longrightarrow> k' = k \<longrightarrow> P w \<longrightarrow> P (snd r)"
      and eq: "(if om_owners obj = [] then go_ret (Inr None) w
        else first_owner (resolveOwner k' (\<lambda>nextObj w. f k' nextObj w) obj) (om_owners obj) w) = Some r"
    show "k' = k \<longrightarrow> P w \<longrightarrow> P (snd r)"
    proof (intro impI)
      assume k: "k' = k" and w: "P w"
      have "preserves P (f k nxt)" for nxt
        using IH by (fastforce simp: preserves_def)
      then have "preserves P (first_owner (resolveOwner k (f k) obj) (om_owners obj))"
        using assms by (intro first_owner_preserves resolveOwner_preserves)
      with eq k w show "P (snd r)"
        by (cases r) (auto simp: preserves_def go_ret_def split: if_splits)
    qed
  qed
  then show ?thesis by (fastforce simp: preserves_def)
qed

end
