(* ===== verification/Images.thy ===== *)
theory Images
  imports Kube
begin

text \<open>
  Container images in \<open>internal/podscanner/pod_scanner.go\<close>: splitting an image reference
  (\<open>ParseImage\<close>), comparing two of them (\<open>imagesMatch\<close>), and finding the image of the
  \<open>istio-proxy\<close> container of a pod (\<open>getIstioProxyImage\<close>).
\<close>

definition istioProxyContainerName :: string where
  "istioProxyContainerName = ''istio-proxy''"

record parsed_image =
  pi_registry :: string
  pi_image_name :: string
  pi_tag :: string

definition ParseImage :: "string \<Rightarrow> parsed_image" where
  "ParseImage img =
     (let img1 = (case index_of (CHR ''@'') img of Some atIdx \<Rightarrow> take atIdx img | None \<Rightarrow> img);
          (tag, img2) =
            (case last_index_of (CHR '':'') img1 of
               Some colonIdx \<Rightarrow> (drop (colonIdx + 1) img1, take colonIdx img1)
             | None \<Rightarrow> (''latest'', img1))
      in case last_index_of (CHR ''/'') img2 of
           Some lastSlash \<Rightarrow>
             \<lparr>pi_registry = take lastSlash img2, pi_image_name = drop (lastSlash + 1) img2,
              pi_tag = tag\<rparr>
         | None \<Rightarrow> \<lparr>pi_registry = [], pi_image_name = img2, pi_tag = tag\<rparr>)"

definition imagesMatch :: "string \<Rightarrow> string \<Rightarrow> bool \<Rightarrow> bool" where
  "imagesMatch current expected compareHub =
     (if compareHub then current = expected
      else let cp = ParseImage current; ep = ParseImage expected
           in pi_image_name cp = pi_image_name ep \<and> pi_tag cp = pi_tag ep)"

fun image_of_proxy :: "container list \<Rightarrow> string option" where
  "image_of_proxy [] = None"
| "image_of_proxy (c # cs) =
     (if c_name c = istioProxyContainerName then Some (c_image c) else image_of_proxy cs)"

definition getIstioProxyImage :: "pod \<Rightarrow> string" where
  "getIstioProxyImage p =
     (case image_of_proxy (ps_containers (p_spec p)) of
        Some img \<Rightarrow> img
      | None \<Rightarrow>
          (case image_of_proxy (ps_init_containers (p_spec p)) of
             Some img \<Rightarrow> img
           | None \<Rightarrow> []))"


section \<open>References as they are written\<close>

text \<open>
  A reference with its parts in place: registry path, name, tag and, where given, a digest.
  \<open>wf_ref\<close> says which parts are free of the separators that follow them.
\<close>

definition image_ref :: "string \<Rightarrow> string \<Rightarrow> string \<Rightarrow> string option \<Rightarrow> string" where
  "image_ref registry name tag digest =
     registry @ ''/'' @ name @ '':'' @ tag @ (case digest of Some d \<Rightarrow> ''@'' @ d | None \<Rightarrow> [])"

definition wf_ref :: "string \<Rightarrow> string \<Rightarrow> string \<Rightarrow> bool" where
  "wf_ref registry name tag \<longleftrightarrow>
     CHR ''@'' \<notin> set (registry @ name @ tag) \<and> CHR '':'' \<notin> set tag \<and> CHR ''/'' \<notin> set name"

lemma cut_at:
  "CHR ''@'' \<notin> set s \<Longrightarrow>
     (case index_of (CHR ''@'') (s @ (case digest of Some d \<Rightarrow> ''@'' @ d | None \<Rightarrow> [])) of
        Some i \<Rightarrow> take i (s @ (case digest of Some d \<Rightarrow> ''@'' @ d | None \<Rightarrow> []))
      | None \<Rightarrow> s @ (case digest of Some d \<Rightarrow> ''@'' @ d | None \<Rightarrow> [])) = s"
  by (cases digest) (simp_all add: index_of_absent index_of_append)

lemma ParseImage_image_ref:
  assumes "wf_ref registry name tag"
  shows "ParseImage (image_ref registry name tag digest) =
    \<lparr>pi_registry = registry, pi_image_name = name, pi_tag = tag\<rparr>"
proof -
  let ?s = "registry @ ''/'' @ name @ '':'' @ tag"
  have at: "CHR ''@'' \<notin> set ?s" using assms by (auto simp: wf_ref_def)
  have ref: "image_ref registry name tag digest =
      ?s @ (case digest of Some d \<Rightarrow> ''@'' @ d | None \<Rightarrow> [])"
    by (simp add: image_ref_def)
  have colon: "last_index_of (CHR '':'') ?s = Some (length (registry @ ''/'' @ name))"
    using assms last_index_of_append [of "CHR '':''" tag "registry @ ''/'' @ name"]
    by (simp add: wf_ref_def)
  have slash: "last_index_of (CHR ''/'') (registry @ CHR ''/'' # name) = Some (length registry)"
    using assms by (intro last_index_of_append) (simp add: wf_ref_def)
  show ?thesis
    unfolding ParseImage_def ref cut_at [OF at] Let_def colon by (simp add: slash)
qed

text \<open>A port in the registry of a reference without a tag is taken for the tag.\<close>

lemma ParseImage_port:
  assumes "CHR ''@'' \<notin> set (host @ rest)" and "CHR '':'' \<notin> set rest" and "CHR ''/'' \<notin> set host"
  shows "ParseImage (host @ '':'' @ rest) =
    \<lparr>pi_registry = [], pi_image_name = host, pi_tag = rest\<rparr>"
proof -
  have colon: "last_index_of (CHR '':'') (host @ CHR '':'' # rest) = Some (length host)"
    using assms(2) by (rule last_index_of_append)
  show ?thesis
    using assms(1,3) by (simp add: ParseImage_def colon index_of_absent last_index_of_absent)
qed

lemma imagesMatch_refl [simp]: "imagesMatch a a compareHub"
  by (simp add: imagesMatch_def)

lemma imagesMatch_sym: "imagesMatch a b compareHub \<Longrightarrow> imagesMatch b a compareHub"
  by (auto simp: imagesMatch_def Let_def split: if_splits)

lemma imagesMatch_trans:
  "imagesMatch a b compareHub \<Longrightarrow> imagesMatch b c compareHub \<Longrightarrow> imagesMatch a c compareHub"
  by (auto simp: imagesMatch_def Let_def split: if_splits)

lemma imagesMatch_hub: "imagesMatch a b True \<Longrightarrow> imagesMatch a b compareHub"
  by (simp add: imagesMatch_def)

lemma image_of_proxy_Some:
  "image_of_proxy cs = Some img \<Longrightarrow>
     \<exists>c \<in> set cs. c_name c = istioProxyContainerName \<and> c_image c = img"
  by (induction cs) (auto split: if_splits)

lemma image_of_proxy_None:
  "image_of_proxy cs = None \<longleftrightarrow> (\<forall>c \<in> set cs. c_name c \<noteq> istioProxyContainerName)"
  by (induction cs) auto


section \<open>Properties\<close>



text \<open>
  C37. Comparing tagged images. Without \<open>compareHub\<close> two references match exactly when name and tag
  agree, whatever the registries; with it they match exactly when the registries agree too.
\<close>

theorem imagesMatch_tagged:
  assumes "wf_ref registry1 name1 tag1" and "wf_ref registry2 name2 tag2"
  shows "imagesMatch (registry1 @ ''/'' @ name1 @ '':'' @ tag1) (registry2 @ ''/'' @ name2 @ '':'' @ tag2) compareHub
    \<longleftrightarrow> name1 = name2 \<and> tag1 = tag2 \<and> (compareHub \<longrightarrow> registry1 = registry2)"
proof -
  have parse: "ParseImage (registry1 @ ''/'' @ name1 @ '':'' @ tag1) = \<lparr>pi_registry = registry1, pi_image_name = name1, pi_tag = tag1\<rparr>"
    "ParseImage (registry2 @ ''/'' @ name2 @ '':'' @ tag2) = \<lparr>pi_registry = registry2, pi_image_name = name2, pi_tag = tag2\<rparr>"
    using ParseImage_image_ref [OF assms(1), of None] ParseImage_image_ref [OF assms(2), of None] by (simp_all add: image_ref_def)
  then have "registry1 @ ''/'' @ name1 @ '':'' @ tag1 = registry2 @ ''/'' @ name2 @ '':'' @ tag2 \<Longrightarrow>
      registry1 = registry2 \<and> name1 = name2 \<and> tag1 = tag2" by (metis parsed_image.iffs)
  with parse show ?thesis unfolding imagesMatch_def Let_def by auto
qed

theorem imagesMatch_tagged_witness:
  "imagesMatch ''gcr.io/istio/proxyv2:1.20'' ''docker.io/istio/proxyv2:1.20'' False \<and>
   \<not> imagesMatch ''gcr.io/istio/proxyv2:1.20'' ''docker.io/istio/proxyv2:1.20'' True"
  using imagesMatch_tagged [of "''gcr.io/istio''" "''proxyv2''" "''1.20''" "''docker.io/istio''" "''proxyv2''" "''1.20''"]
  by (simp add: wf_ref_def)

text \<open>
  Digests are not compared, against the comment in \<open>ParseImage\<close>: without the hub two references match
  exactly when name and tag agree, whatever their digests.
\<close>

theorem imagesMatch_name_and_tag:
  assumes "wf_ref registry1 name1 tag1" and "wf_ref registry2 name2 tag2"
  shows "imagesMatch (image_ref registry1 name1 tag1 digest1) (image_ref registry2 name2 tag2 digest2) False
    \<longleftrightarrow> name1 = name2 \<and> tag1 = tag2"
  by (simp add: imagesMatch_def ParseImage_image_ref [OF assms(1)] ParseImage_image_ref [OF assms(2)])

theorem imagesMatch_name_and_tag_witness:
  "imagesMatch ''gcr.io/istio/proxyv2:1.20@sha256:aa'' ''docker.io/istio/proxyv2:1.20@sha256:bb'' False"
  using imagesMatch_name_and_tag [of "''gcr.io/istio''" "''proxyv2''" "''1.20''" "''docker.io/istio''"
      "''proxyv2''" "''1.20''" "Some ''sha256:aa''" "Some ''sha256:bb''"]
  by (simp add: wf_ref_def image_ref_def)

text \<open>
  A reference with a port in its registry and no tag is split at the port: the host becomes
  the image name and the rest of the path the tag.
\<close>

theorem ParseImage_untagged_port:
  assumes "CHR ''@'' \<notin> set (host @ port @ path)" and "CHR '':'' \<notin> set (port @ path)"
    and "CHR ''/'' \<notin> set host"
  shows "ParseImage (host @ '':'' @ port @ ''/'' @ path) =
    \<lparr>pi_registry = [], pi_image_name = host, pi_tag = port @ ''/'' @ path\<rparr>"
  using assms by (intro ParseImage_port) auto

theorem ParseImage_untagged_port_witness:
  "pi_image_name (ParseImage ''localhost:5000/istio/proxyv2'') = ''localhost''"
  using ParseImage_untagged_port [of "''localhost''" "''5000''" "''istio/proxyv2''"] by simp

text \<open>
  The proxy's image is that of the first container named \<open>istio-proxy\<close>, the containers being
  searched before the init containers; it is empty when there is none.
\<close>

theorem getIstioProxyImage_first:
  "getIstioProxyImage p =
     (case List.find (\<lambda>c. c_name c = istioProxyContainerName)
         (ps_containers (p_spec p) @ ps_init_containers (p_spec p)) of
        Some c \<Rightarrow> c_image c
      | None \<Rightarrow> [])"
proof -
  have find: "image_of_proxy cs = map_option c_image (List.find (\<lambda>c. c_name c = istioProxyContainerName) cs)" for cs
    by (induction cs) auto
  have app: "List.find P (xs @ ys) = (case List.find P xs of Some x \<Rightarrow> Some x | None \<Rightarrow> List.find P ys)"
    for P and xs ys :: "container list"
    by (induction xs) auto
  show ?thesis by (simp add: getIstioProxyImage_def find app split: option.split)
qed

end
