(* ===== verification/Webhook.thy ===== *)
theory Webhook
  imports Kube
begin

text \<open>
  Package \<open>webhook\<close> (\<open>webhook_client.go\<close>): the client of Istio's sidecar injection webhook. The
  codecs of the Kubernetes types, the JSON patch library, TLS and the HTTP exchange are the
  operations of a \<open>transport\<close> record, an argument of the model; the choice of URL and CA bundle,
  the admission review that is sent, and the treatment of every kind of answer are the code's.
\<close>

section \<open>Addresses\<close>

definition injectPath :: string where
  "injectPath = ''/inject''"

definition injectPort :: int where
  "injectPort = 443"

definition defaultTagWebhookConfigName :: string where
  "defaultTagWebhookConfigName = ''istio-revision-tag-default''"

text \<open>\<open>fmt.Sprintf("https://%s.%s.svc:%d%s", name, ns, port, path)\<close>.\<close>

definition service_url :: "string \<Rightarrow> string \<Rightarrow> int \<Rightarrow> string \<Rightarrow> string" where
  "service_url svc ns port path =
     ''https://'' @ svc @ ''.'' @ ns @ ''.svc:'' @ int_dec port @ path"

definition urlFromClientConfig :: "webhook_client_config \<Rightarrow> goerror + string" where
  "urlFromClientConfig cfg =
     (if (case wc_url cfg of Some u \<Rightarrow> u \<noteq> [] | None \<Rightarrow> False)
      then (case wc_url cfg of Some u \<Rightarrow> Inr u | None \<Rightarrow> Inr [])
      else case wc_service cfg of
        None \<Rightarrow> Inl (Errorf ''WebhookClientConfig has neither URL nor Service'')
      | Some svc \<Rightarrow>
          let port = (case sr_port svc of Some p \<Rightarrow> p | None \<Rightarrow> injectPort);
              path = (case sr_path svc of
                        None \<Rightarrow> injectPath
                      | Some p \<Rightarrow> (case p of
                                    [] \<Rightarrow> injectPath
                                  | c # _ \<Rightarrow> if c \<noteq> CHR ''/'' then ''/'' @ p else p));
              ns = (if sr_namespace svc \<noteq> [] then sr_namespace svc else IstioSystemNamespace)
          in Inr (service_url (sr_name svc) ns port path))"

definition getWebhookURL :: "string \<Rightarrow> string" where
  "getWebhookURL revision =
     (let svcName = (if revision \<noteq> [] \<and> revision \<noteq> ''default'' then ''istiod-'' @ revision
                     else ''istiod'')
      in service_url svcName IstioSystemNamespace injectPort injectPath)"

definition injectorConfigName :: "string \<Rightarrow> string" where
  "injectorConfigName revision =
     (if revision \<noteq> [] \<and> revision \<noteq> ''default'' then ConfigMapNamePrefix @ ''-'' @ revision
      else ConfigMapNamePrefix)"

definition getCABundleForRevision :: "'w kube \<Rightarrow> string \<Rightarrow> ('w, goerror + string) go" where
  "getCABundleForRevision k revision =
     (let configName = injectorConfigName revision
      in go_try (Wrap (''get MutatingWebhookConfiguration '' @ configName @ '': ''))
           (go_call (kGetMWC k configName))
           (\<lambda>mwc. go_ret
              (case mwc_webhooks mwc of
                 [] \<Rightarrow> Inl (Errorf (''MutatingWebhookConfiguration '' @ configName @ '' has no webhooks''))
               | wh # _ \<Rightarrow>
                   if wc_ca_bundle wh = []
                   then Inl (Errorf (''MutatingWebhookConfiguration '' @ configName @ '' has no caBundle''))
                   else Inr (wc_ca_bundle wh))))"

text \<open>
  The default tag's configuration, when it is preferred: \<open>None\<close> when the code falls through to
  the revision's configuration.
\<close>

definition tag_webhook :: "webhook_client_config \<Rightarrow> goerror + (string \<times> string)" where
  "tag_webhook cfg =
     (case urlFromClientConfig cfg of
        Inl urlErr \<Rightarrow> Inl (Wrap (''extract URL from '' @ defaultTagWebhookConfigName @ '': '') urlErr)
      | Inr url \<Rightarrow>
          if wc_ca_bundle cfg = []
          then Inl (Errorf (''MutatingWebhookConfiguration '' @ defaultTagWebhookConfigName
                            @ '' has no caBundle''))
          else Inr (url, wc_ca_bundle cfg))"

definition getWebhookURLAndCABundle ::
  "'w kube \<Rightarrow> string \<Rightarrow> bool \<Rightarrow> ('w, goerror + (string \<times> string)) go" where
  "getWebhookURLAndCABundle k revision preferDefaultTagWebhook =
     go_bind
       (if preferDefaultTagWebhook
        then go_bind (go_call (kGetMWC k defaultTagWebhookConfigName))
               (\<lambda>r. go_ret (case r of
                      Inr mwc \<Rightarrow> (case mwc_webhooks mwc of [] \<Rightarrow> None | cfg # _ \<Rightarrow> Some (tag_webhook cfg))
                    | Inl _ \<Rightarrow> None))
        else go_ret None)
       (\<lambda>early. case early of
          Some res \<Rightarrow> go_ret res
        | None \<Rightarrow>
            go_try (Wrap (''get caBundle for revision '' @ revision @ '': ''))
              (getCABundleForRevision k revision)
              (\<lambda>caBundle. go_ret (Inr (getWebhookURL revision, caBundle))))"


section \<open>The exchange\<close>

record http_client =
  hc_timeout :: duration
  hc_root_cas :: string
  hc_insecure_skip_verify :: bool
  hc_dial_timeout :: duration
  hc_keep_alive :: duration
  hc_tls_handshake_timeout :: duration

record admission_review =
  rv_kind :: string
  rv_api_version :: string
  rv_uid :: string
  rv_object_kind :: "string \<times> string \<times> string"
  rv_object_resource :: "string \<times> string \<times> string"
  rv_namespace :: string
  rv_operation :: string
  rv_object_raw :: string

text \<open>The response part of a review; \<open>Result\<close> is a pointer to a status.\<close>

record admission_response =
  ar_allowed :: bool
  ar_result_message :: "string option"
  ar_patch :: string

record 'w transport =
  trParsesPEM :: "string \<Rightarrow> bool"
  trMarshalPod :: "pod option \<Rightarrow> goerror + string"
  trMarshalReview :: "admission_review \<Rightarrow> goerror + string"
  trNewRequest :: "string \<Rightarrow> goerror option"
  trDo :: "http_client \<Rightarrow> string \<Rightarrow> string \<Rightarrow> 'w \<Rightarrow> (goerror + (int \<times> string)) \<times> 'w"
  trDecodeReview :: "string \<Rightarrow> goerror + admission_response option"
  trDecodePatch :: "string \<Rightarrow> goerror + json"
  trApplyPatch :: "json \<Rightarrow> string \<Rightarrow> goerror + string"
  trUnmarshalPod :: "string \<Rightarrow> goerror + pod"

definition transportForCABundle :: "'w transport \<Rightarrow> string \<Rightarrow> goerror + http_client" where
  "transportForCABundle tr caBundle =
     (if \<not> trParsesPEM tr caBundle then Inl (Errorf ''failed to parse caBundle'')
      else Inr \<lparr>hc_timeout = 30 * second, hc_root_cas = caBundle, hc_insecure_skip_verify = False,
                hc_dial_timeout = 5 * second, hc_keep_alive = 30 * second,
                hc_tls_handshake_timeout = 10 * second\<rparr>)"

definition applyJSONPatch :: "'w transport \<Rightarrow> string \<Rightarrow> string \<Rightarrow> goerror + string" where
  "applyJSONPatch tr original patch =
     (case trDecodePatch tr patch of
        Inl err \<Rightarrow> Inl (Wrap ''decode patch: '' err)
      | Inr decoded \<Rightarrow>
          (case trApplyPatch tr decoded original of
             Inl err \<Rightarrow> Inl (Wrap ''apply patch: '' err)
           | Inr patched \<Rightarrow> Inr patched))"

definition make_review :: "pod \<Rightarrow> string \<Rightarrow> admission_review" where
  "make_review p podRaw =
     \<lparr>rv_kind = ''AdmissionReview'', rv_api_version = ''admission.k8s.io/v1'',
      rv_uid = ''fortsa2-webhook-check'', rv_object_kind = ([], ''v1'', ''Pod''),
      rv_object_resource = ([], ''v1'', ''pods''), rv_namespace = om_namespace (p_meta p),
      rv_operation = ''CREATE'', rv_object_raw = podRaw\<rparr>"

text \<open>
  What is made of a decoded answer. A denial whose \<open>status\<close> is absent dereferences the nil
  pointer \<open>Response.Result\<close>: a panic.
\<close>

definition handle_response ::
  "'w transport \<Rightarrow> pod \<Rightarrow> string \<Rightarrow> admission_response option \<Rightarrow> ('w, goerror + pod) go" where
  "handle_response tr p podRaw response =
     (case response of
        None \<Rightarrow> go_ret (Inl (Errorf ''webhook response has no response body''))
      | Some r \<Rightarrow>
          if \<not> ar_allowed r then
            (case ar_result_message r of
               None \<Rightarrow> go_panic ''invalid memory address or nil pointer dereference''
             | Some msg \<Rightarrow> go_ret (Inl (Errorf (''webhook denied request: '' @ msg))))
          else if ar_patch r = [] then go_ret (Inr p)
          else go_ret
            (case applyJSONPatch tr podRaw (ar_patch r) of
               Inl err \<Rightarrow> Inl (Wrap ''apply patch: '' err)
             | Inr patchedRaw \<Rightarrow>
                 (case trUnmarshalPod tr patchedRaw of
                    Inl err \<Rightarrow> Inl (Wrap ''unmarshal mutated pod: '' err)
                  | Inr mutated \<Rightarrow> Inr mutated)))"

definition send_review ::
  "'w transport \<Rightarrow> http_client \<Rightarrow> string \<Rightarrow> pod \<Rightarrow> string \<Rightarrow> string \<Rightarrow> ('w, goerror + pod) go" where
  "send_review tr httpClient url p podRaw reviewBytes =
     (case trNewRequest tr url of
        Some err \<Rightarrow> go_ret (Inl (Wrap ''create request: '' err))
      | None \<Rightarrow>
          go_try (Wrap ''webhook request: '') (go_call (trDo tr httpClient url reviewBytes))
            (\<lambda>(status, body).
               if status \<noteq> 200
               then go_ret (Inl (Errorf (''webhook returned status '' @ int_dec status)))
               else case trDecodeReview tr body of
                 Inl err \<Rightarrow> go_ret (Inl (Wrap ''decode response: '' err))
               | Inr response \<Rightarrow> handle_response tr p podRaw response))"

definition CallWebhook ::
  "'w kube \<Rightarrow> 'w transport \<Rightarrow> pod option \<Rightarrow> string \<Rightarrow> bool \<Rightarrow> ('w, goerror + pod) go" where
  "CallWebhook k tr podp revision preferDefaultTagWebhook =
     go_try (Wrap ''get webhook URL and caBundle: '')
       (getWebhookURLAndCABundle k revision preferDefaultTagWebhook)
       (\<lambda>(url, caBundle).
          case transportForCABundle tr caBundle of
            Inl err \<Rightarrow> go_ret (Inl (Wrap ''create transport: '' err))
          | Inr httpClient \<Rightarrow>
              (case trMarshalPod tr podp of
                 Inl err \<Rightarrow> go_ret (Inl (Wrap ''marshal pod: '' err))
               | Inr podRaw \<Rightarrow>
                   (case podp of
                      None \<Rightarrow> go_panic ''invalid memory address or nil pointer dereference''
                    | Some p \<Rightarrow>
                        (case trMarshalReview tr (make_review p podRaw) of
                           Inl err \<Rightarrow> go_ret (Inl (Wrap ''marshal admission review: '' err))
                         | Inr reviewBytes \<Rightarrow> send_review tr httpClient url p podRaw reviewBytes))))"


text \<open>
  The interface \<open>WebhookCaller\<close> is its one method. \<open>CallWebhook\<close> takes the client that is the field
  of its receiver \<open>WebhookClient\<close>; \<open>webhook_caller_of\<close> is the receiver used as the interface.
\<close>

type_synonym 'w webhook_caller = "pod option \<Rightarrow> string \<Rightarrow> bool \<Rightarrow> ('w, goerror + pod) go"

record 'w webhook_client =
  whc_k8s_client :: "'w kube"

definition NewWebhookClient :: "'w kube \<Rightarrow> 'w webhook_client" where
  "NewWebhookClient k8sClient = \<lparr>whc_k8s_client = k8sClient\<rparr>"

definition webhook_caller_of :: "'w transport \<Rightarrow> 'w webhook_client \<Rightarrow> 'w webhook_caller" where
  "webhook_caller_of tr w = CallWebhook (whc_k8s_client w) tr"


section \<open>Where the CA bundle comes from\<close>

lemma getCABundleForRevision_Inr:
  assumes "returns (getCABundleForRevision k revision) w (Inr ca) w'"
  obtains mwc wh whs where "kGetMWC k (injectorConfigName revision) w = (Inr mwc, w')"
    and "mwc_webhooks mwc = wh # whs" and "wc_ca_bundle wh = ca" and "ca \<noteq> []"
  using assms
  by (auto simp: getCABundleForRevision_def Let_def elim!: go_elims split: list.splits if_splits)

lemma tag_webhook_Inr:
  "tag_webhook cfg = Inr (url, ca) \<longleftrightarrow>
     urlFromClientConfig cfg = Inr url \<and> wc_ca_bundle cfg = ca \<and> ca \<noteq> []"
  by (auto simp: tag_webhook_def split: sum.splits if_splits)


section \<open>Properties\<close>

text \<open>
  Revisions are kept apart: two revisions have the same webhook address, or the same name of
  the configuration with the CA bundle, only when they are equal or both stand for the default
  revision.
\<close>

theorem webhook_per_revision:
  "(getWebhookURL r1 = getWebhookURL r2 \<longleftrightarrow> r1 = r2 \<or> {r1, r2} \<subseteq> {[], ''default''}) \<and>
   (injectorConfigName r1 = injectorConfigName r2 \<longleftrightarrow> r1 = r2 \<or> {r1, r2} \<subseteq> {[], ''default''})"
  by (auto simp: getWebhookURL_def injectorConfigName_def service_url_def Let_def)

text \<open>
  The address taken from a configuration with a service: an \<open>https\<close> address of the service in
  its namespace, \<open>istio-system\<close> when it names none, whose path begins with a slash.
\<close>

lemma urlFromClientConfig_service:
  assumes "map_get (\<lambda>_. wc_url cfg) ''url'' = []" and "wc_service cfg = Some svc"
  shows "\<exists>ns port path. urlFromClientConfig cfg =
      Inr (''https://'' @ sr_name svc @ ''.'' @ ns @ ''.svc:'' @ int_dec port @ path) \<and>
    ns = (if sr_namespace svc = [] then IstioSystemNamespace else sr_namespace svc) \<and>
    port = (case sr_port svc of Some p \<Rightarrow> p | None \<Rightarrow> 443) \<and> has_prefix path ''/''"
proof -
  have "\<not> (case wc_url cfg of Some u \<Rightarrow> u \<noteq> [] | None \<Rightarrow> False)"
    using assms(1) by (simp add: map_get_def split: option.splits)
  with assms(2) show ?thesis
    by (auto simp: urlFromClientConfig_def service_url_def injectPath_def injectPort_def has_prefix_def Let_def
        split: option.splits list.splits)
qed

end
