(* ===== verification/Scanner.thy ===== *)
theory Scanner
  imports Owners Images Webhook
begin

text \<open>
  The pod scanner (\<open>internal/podscanner/pod_scanner.go\<close>): which pods are listed, which of them
  are passed over because they are newer than the configuration, what the injection webhook
  would give them today, and the list of workloads that the scan returns.
\<close>

section \<open>Options\<close>

record scan_options =
  so_compare_hub :: bool
  so_istiod_config_read_delay :: duration
  so_skip_namespaces :: "string list"
  so_limit_to_namespaces :: "string list"

record istio_config =
  ic_last_modified_by_revision :: "string \<rightharpoonup> gotime"
  ic_tag_to_revision :: "string \<rightharpoonup> string"
  ic_last_modified_by_tag :: "string \<rightharpoonup> gotime"

text \<open>
  \<open>PodScanner\<close> with its constructors; the interface field \<open>webhookCaller\<close> may be nil.
\<close>

record 'w pod_scanner =
  sc_client :: "'w kube"
  sc_webhook_caller :: "'w webhook_caller option"

definition newPodScanner :: "'w kube \<Rightarrow> 'w webhook_caller option \<Rightarrow> 'w pod_scanner" where
  "newPodScanner c webhookCaller = \<lparr>sc_client = c, sc_webhook_caller = webhookCaller\<rparr>"

definition NewPodScanner :: "'w kube \<Rightarrow> 'w transport \<Rightarrow> 'w pod_scanner" where
  "NewPodScanner c tr = newPodScanner c (Some (webhook_caller_of tr (NewWebhookClient c)))"

lemma NewPodScanner_simps [simp]:
  "sc_client (NewPodScanner c tr) = c"
  "sc_webhook_caller (NewPodScanner c tr) = Some (CallWebhook c tr)"
  by (simp_all add: NewPodScanner_def newPodScanner_def webhook_caller_of_def NewWebhookClient_def)


section \<open>Listing\<close>

fun list_namespaces :: "'w kube \<Rightarrow> string list \<Rightarrow> pod list \<Rightarrow> ('w, goerror + pod list) go" where
  "list_namespaces k [] items = go_ret (Inr items)"
| "list_namespaces k (ns # nss) items =
     go_try (Wrap (''list pods in '' @ ns @ '': '')) (go_call (kListPods k (Some ns)))
       (\<lambda>nsItems. list_namespaces k nss (items @ nsItems))"

definition limit_set :: "string list \<Rightarrow> string list" where
  "limit_set nss = remdups (filter (\<lambda>ns. ns \<noteq> []) nss)"

definition listPods :: "'w kube \<Rightarrow> 'w runtime \<Rightarrow> scan_options \<Rightarrow> ('w, goerror + pod list) go" where
  "listPods k rt opts =
     (case so_limit_to_namespaces opts of
        [ns] \<Rightarrow>
          go_try (Wrap (''list pods in '' @ ns @ '': '')) (go_call (kListPods k (Some ns)))
            (\<lambda>items. go_ret (Inr items))
      | _ # _ # _ \<Rightarrow>
          go_bind (go_call (rtRange rt (limit_set (so_limit_to_namespaces opts))))
            (\<lambda>nss. list_namespaces k nss [])
      | [] \<Rightarrow>
          go_try (Wrap ''list pods: '') (go_call (kListPods k None)) (\<lambda>items. go_ret (Inr items)))"


section \<open>One pod\<close>

definition effective_last_modified :: "string \<Rightarrow> string \<Rightarrow> istio_config \<Rightarrow> gotime" where
  "effective_last_modified revision revOrTag cfg =
     (let eff = (case ic_last_modified_by_revision cfg revision of
                   Some lastModified \<Rightarrow> if \<not> is_zero lastModified then lastModified else zero_time
                 | None \<Rightarrow> zero_time)
      in case ic_last_modified_by_tag cfg revOrTag of
           Some tagLastModified \<Rightarrow>
             if \<not> is_zero tagLastModified \<and> after tagLastModified eff then tagLastModified else eff
         | None \<Rightarrow> eff)"

definition shouldSkipPodForLastModified ::
  "pod \<Rightarrow> string \<Rightarrow> string \<Rightarrow> istio_config \<Rightarrow> scan_options \<Rightarrow> bool" where
  "shouldSkipPodForLastModified p revision revOrTag cfg opts =
     (let eff = effective_last_modified revision revOrTag cfg
      in if is_zero eff then False
         else \<not> before (om_creation (p_meta p)) (time_add eff (so_istiod_config_read_delay opts)))"

text \<open>The revision or tag a namespace's labels ask for; empty when they ask for none.\<close>

definition namespace_rev :: "object_meta \<Rightarrow> string" where
  "namespace_rev ns =
     (case om_labels ns LabelIstioRev of
        Some v \<Rightarrow> if v \<noteq> [] then v
                  else if om_labels ns LabelIstioInjection = Some ''enabled'' then ''default'' else []
      | None \<Rightarrow> if om_labels ns LabelIstioInjection = Some ''enabled'' then ''default'' else [])"

definition getIstioRevFromWorkloadOrNamespace ::
  "'w kube \<Rightarrow> workload_ref \<Rightarrow> ('w, goerror + string) go" where
  "getIstioRevFromWorkloadOrNamespace k ref =
     (case type_of_kind (wr_kind ref) of
        None \<Rightarrow> go_ret (Inr ''default'')
      | Some ty \<Rightarrow>
          go_try (\<lambda>err. err) (go_call (kGetWorkload k ty (wr_nn ref)))
            (\<lambda>wl. if map_get (pt_labels (wl_template wl)) LabelIstioRev \<noteq> []
                  then go_ret (Inr (map_get (pt_labels (wl_template wl)) LabelIstioRev))
                  else go_try (\<lambda>err. err) (go_call (kGetNamespace k (wr_namespace ref)))
                         (\<lambda>ns. go_ret (Inr (namespace_rev ns)))))"

definition dnsSubdomainMaxLen :: nat where
  "dnsSubdomainMaxLen = 63"

definition podNameSuffix :: string where
  "podNameSuffix = ''-fortsa-check''"

text \<open>
  The name of the pod that is sent to the webhook. The workload's name is used only when it has
  to be cut; otherwise the placeholder is kept and the suffix added to it.
\<close>

definition check_pod_name :: "string \<Rightarrow> string" where
  "check_pod_name wlName =
     (let name = ''fortsa-check''
      in if wlName \<noteq> [] then
           (let name' = (if length wlName > dnsSubdomainMaxLen - length podNameSuffix
                         then take (dnsSubdomainMaxLen - length podNameSuffix) wlName else name)
            in name' @ podNameSuffix)
         else name)"

definition pod_of_template :: "namespaced_name \<Rightarrow> pod_template \<Rightarrow> pod" where
  "pod_of_template nn t =
     \<lparr>p_meta = \<lparr>om_namespace = nn_namespace nn, om_name = check_pod_name (nn_name nn),
                om_labels = pt_labels t, om_annotations = pt_annotations t,
                om_creation = zero_time, om_managed = [], om_owners = []\<rparr>,
      p_spec = pt_spec t\<rparr>"

definition buildPodFromWorkload ::
  "'w kube \<Rightarrow> workload_ref \<Rightarrow> ('w, goerror + pod option) go" where
  "buildPodFromWorkload k ref =
     (case type_of_kind (wr_kind ref) of
        None \<Rightarrow> go_ret (Inr None)
      | Some ty \<Rightarrow>
          go_try (\<lambda>err. err) (go_call (kGetWorkload k ty (wr_nn ref)))
            (\<lambda>wl. go_ret (Inr (Some (pod_of_template (wr_nn ref) (wl_template wl))))))"

definition resolve_tag :: "istio_config \<Rightarrow> string \<Rightarrow> string" where
  "resolve_tag cfg revOrTag =
     (case ic_tag_to_revision cfg revOrTag of Some r \<Rightarrow> r | None \<Rightarrow> revOrTag)"

text \<open>The comparison of the pod with what the webhook returned.\<close>

definition compare_pods :: "workload_ref \<Rightarrow> pod \<Rightarrow> pod \<Rightarrow> scan_options \<Rightarrow> workload_ref option" where
  "compare_pods ref p mutated opts =
     (let expectedImage = getIstioProxyImage mutated; currentImage = getIstioProxyImage p
      in if expectedImage = [] then None
         else if imagesMatch currentImage expectedImage (so_compare_hub opts) then None
         else Some ref)"

definition check_with_webhook ::
  "'w kube \<Rightarrow> 'w webhook_caller \<Rightarrow> pod \<Rightarrow> workload_ref \<Rightarrow> string \<Rightarrow> istio_config \<Rightarrow> scan_options \<Rightarrow>
   ('w, workload_ref option) go" where
  "check_with_webhook k caller p ref revOrTag cfg opts =
     go_bind (buildPodFromWorkload k ref)
       (\<lambda>r. case r of
          Inl _ \<Rightarrow> go_ret None
        | Inr templatePod \<Rightarrow>
            go_bind (caller templatePod (resolve_tag cfg revOrTag) (revOrTag = ''default''))
              (\<lambda>r. case r of
                 Inl _ \<Rightarrow> go_ret None
               | Inr mutated \<Rightarrow> go_ret (compare_pods ref p mutated opts)))"

definition processPodForOutdatedSidecar ::
  "'w kube \<Rightarrow> 'w webhook_caller \<Rightarrow> istio_config \<Rightarrow> scan_options \<Rightarrow> pod \<Rightarrow> ('w, workload_ref option) go" where
  "processPodForOutdatedSidecar k caller cfg opts p =
     go_bind (findWorkloadOwner k (p_meta p))
       (\<lambda>r. case r of
          Inl _ \<Rightarrow> go_ret None
        | Inr found \<Rightarrow>
            (case found of
               None \<Rightarrow> go_ret None
             | Some ref \<Rightarrow>
                 go_bind (getIstioRevFromWorkloadOrNamespace k ref)
                   (\<lambda>r. case r of
                      Inl _ \<Rightarrow> go_ret None
                    | Inr revOrTag \<Rightarrow>
                        if revOrTag = [] then go_ret None
                        else if shouldSkipPodForLastModified p (resolve_tag cfg revOrTag) revOrTag cfg opts
                        then go_ret None
                        else check_with_webhook k caller p ref revOrTag cfg opts)))"


section \<open>The scan\<close>

fun scan_pods ::
  "(pod \<Rightarrow> ('w, workload_ref option) go) \<Rightarrow> string list \<Rightarrow> namespaced_name list \<Rightarrow> workload_ref list \<Rightarrow>
   pod list \<Rightarrow> ('w, workload_ref list) go" where
  "scan_pods process skipSet seen workloads [] = go_ret workloads"
| "scan_pods process skipSet seen workloads (p # ps) =
     (if om_namespace (p_meta p) \<in> set skipSet
      then scan_pods process skipSet seen workloads ps
      else go_bind (process p)
        (\<lambda>r. case r of
           None \<Rightarrow> scan_pods process skipSet seen workloads ps
         | Some ref \<Rightarrow>
             if wr_nn ref \<in> set seen then scan_pods process skipSet seen workloads ps
             else scan_pods process skipSet (wr_nn ref # seen) (workloads @ [ref]) ps))"

definition ScanOutdatedPods ::
  "'w kube \<Rightarrow> 'w runtime \<Rightarrow> 'w webhook_caller option \<Rightarrow> istio_config \<Rightarrow> scan_options \<Rightarrow>
   ('w, goerror + workload_ref list) go" where
  "ScanOutdatedPods k rt webhookCaller cfg opts =
     (case webhookCaller of
        None \<Rightarrow> go_ret (Inr [])
      | Some caller \<Rightarrow>
          go_try (\<lambda>err. err) (listPods k rt opts)
            (\<lambda>pods. go_bind
               (scan_pods (processPodForOutdatedSidecar k caller cfg opts)
                  (filter (\<lambda>ns. ns \<noteq> []) (so_skip_namespaces opts)) [] [] pods)
               (\<lambda>workloads. go_ret (Inr workloads))))"


section \<open>Properties\<close>

text \<open>
  The known times of a configuration for a pod: the last modification of the revision and that of
  the tag, where recorded.
\<close>

definition known_times :: "string \<Rightarrow> string \<Rightarrow> istio_config \<Rightarrow> gotime set" where
  "known_times revision revOrTag cfg =
     {t. \<not> is_zero t \<and>
         (ic_last_modified_by_revision cfg revision = Some t \<or> ic_last_modified_by_tag cfg revOrTag = Some t)}"

lemma effective_last_modified_known:
  assumes "\<forall>t \<in> known_times revision revOrTag cfg. 0 < t"
  shows "known_times revision revOrTag cfg = {} \<and> effective_last_modified revision revOrTag cfg = zero_time \<or>
    (effective_last_modified revision revOrTag cfg \<in> known_times revision revOrTag cfg \<and>
     (\<forall>t \<in> known_times revision revOrTag cfg. t \<le> effective_last_modified revision revOrTag cfg))"
  using assms
  by (cases "ic_last_modified_by_revision cfg revision"; cases "ic_last_modified_by_tag cfg revOrTag")
    (auto simp: known_times_def effective_last_modified_def is_zero_def zero_time_def after_def)

text \<open>
  C30. A pod is passed over exactly when a time of the last configuration change is known for its
  revision or tag and the pod was created no earlier than the read delay after every known one.
  Times are counted from the year 1; the hypothesis says that recorded times come after it.
\<close>

theorem shouldSkip_newer_than_config:
  assumes "\<forall>t \<in> known_times revision revOrTag cfg. 0 < t"
  shows "shouldSkipPodForLastModified p revision revOrTag cfg opts \<longleftrightarrow>
    known_times revision revOrTag cfg \<noteq> {} \<and>
    (\<forall>t \<in> known_times revision revOrTag cfg. t + so_istiod_config_read_delay opts \<le> om_creation (p_meta p))"
  using effective_last_modified_known [OF assms] assms
  by (fastforce simp: shouldSkipPodForLastModified_def Let_def before_def time_add_def is_zero_def zero_time_def)

definition example_config :: istio_config where
  "example_config =
     \<lparr>ic_last_modified_by_revision = [''1-20'' \<mapsto> 100], ic_tag_to_revision = [''canary'' \<mapsto> ''1-20''],
      ic_last_modified_by_tag = [''canary'' \<mapsto> 200]\<rparr>"

definition example_pod :: "gotime \<Rightarrow> pod" where
  "example_pod created =
     \<lparr>p_meta = \<lparr>om_namespace = ''shop'', om_name = ''web-1'', om_labels = Map.empty,
                om_annotations = Map.empty, om_creation = created, om_managed = [], om_owners = []\<rparr>,
      p_spec = \<lparr>ps_containers = [], ps_init_containers = [], ps_rest = []\<rparr>\<rparr>"

definition example_options :: scan_options where
  "example_options =
     \<lparr>so_compare_hub = False, so_istiod_config_read_delay = 10, so_skip_namespaces = [],
      so_limit_to_namespaces = []\<rparr>"

theorem shouldSkip_newer_than_config_witness:
  "shouldSkipPodForLastModified (example_pod 210) ''1-20'' ''canary'' example_config example_options \<and>
   \<not> shouldSkipPodForLastModified (example_pod 209) ''1-20'' ''canary'' example_config example_options"
proof -
  have known: "known_times ''1-20'' ''canary'' example_config = {100, 200}"
    by (auto simp: known_times_def example_config_def is_zero_def zero_time_def)
  show ?thesis
    using shouldSkip_newer_than_config [of "''1-20''" "''canary''" example_config "example_pod 210" example_options]
      shouldSkip_newer_than_config [of "''1-20''" "''canary''" example_config "example_pod 209" example_options]
    by (simp add: known example_pod_def example_options_def)
qed

text \<open>
  The name of the pod sent to the webhook is a DNS label in length: 63 bytes at most.
\<close>

theorem check_pod_name_length: "length (check_pod_name n) \<le> dnsSubdomainMaxLen"
  by (simp add: check_pod_name_def dnsSubdomainMaxLen_def podNameSuffix_def Let_def)

text \<open>
  The name of the pod sent to the webhook does not depend on the workload's name when that name
  is not longer than 50 bytes: it is the placeholder with the suffix.
\<close>

theorem check_pod_name_placeholder:
  assumes "n \<noteq> []" and "length n \<le> 50"
  shows "check_pod_name n = ''fortsa-check-fortsa-check''"
  using assms by (simp add: check_pod_name_def dnsSubdomainMaxLen_def podNameSuffix_def Let_def)

theorem check_pod_name_placeholder_witness:
  "check_pod_name ''web'' = ''fortsa-check-fortsa-check''"
  by (rule check_pod_name_placeholder) simp_all

end
