(* ===== verification/Interfaces.thy ===== *)
theory Interfaces
  imports ConfigMaps MwcTags Scanner
begin

text \<open>
  The interfaces between the program and the outside, and between its own packages, as locales.
  \<open>api_reads\<close>, \<open>runtime_keeps\<close> and \<open>exchange\<close> say what an operation of the API client, the runtime
  and the network leaves alone; \<open>webhook_caller\<close> is the Go interface \<open>webhook.WebhookCaller\<close>,
  which the webhook client implements and the scanner uses. Their lemmas carry a property of the
  world through every component that only reads.
\<close>

section \<open>Reading from the API server\<close>

locale api_reads =
  fixes k :: "'w kube" and P :: "'w \<Rightarrow> bool"
  assumes get_workload: "preserves P (go_call (kGetWorkload k ty nn))"
    and get_replicaset: "preserves P (go_call (kGetReplicaSet k nn))"
    and get_revision: "preserves P (go_call (kGetControllerRevision k nn))"
    and get_namespace: "preserves P (go_call (kGetNamespace k ns))"
    and get_mwc: "preserves P (go_call (kGetMWC k name))"
    and list_pods: "preserves P (go_call (kListPods k nso))"
    and list_configmaps: "preserves P (go_call (kListConfigMaps k nso))"
    and list_mwcs: "preserves P (go_call (kListMWCs k))"
begin

lemmas reads =
  get_workload get_replicaset get_revision get_namespace get_mwc list_pods list_configmaps list_mwcs

lemma find_owner_keeps: "preserves P (findWorkloadOwner k obj)"
  by (intro findWorkloadOwner_preserves reads)

lemma get_rev_keeps: "preserves P (getIstioRevFromWorkloadOrNamespace k ref)"
  unfolding getIstioRevFromWorkloadOrNamespace_def by (intro preserves_intros reads)

lemma build_pod_keeps: "preserves P (buildPodFromWorkload k ref)"
  unfolding buildPodFromWorkload_def by (intro preserves_intros reads)

lemma ca_bundle_keeps: "preserves P (getCABundleForRevision k revision)"
  unfolding getCABundleForRevision_def Let_def by (intro preserves_intros reads)

lemma url_keeps: "preserves P (getWebhookURLAndCABundle k revision prefer)"
  unfolding getWebhookURLAndCABundle_def by (intro preserves_intros reads ca_bundle_keeps)

lemma build_last_modified_keeps: "preserves P (BuildLastModifiedByRevision k)"
  unfolding BuildLastModifiedByRevision_def by (intro preserves_intros reads)

lemma fetch_tags_keeps: "preserves P (FetchTagToRevisionAndLastModified k)"
  unfolding FetchTagToRevisionAndLastModified_def by (intro preserves_intros reads)

lemma list_namespaces_keeps: "preserves P (list_namespaces k nss items)"
  by (induction nss arbitrary: items) (auto intro!: preserves_intros reads)

end


section \<open>The runtime and the network\<close>

locale runtime_keeps =
  fixes rt :: "'w runtime" and P :: "'w \<Rightarrow> bool"
  assumes now: "preserves P (go_call (rtNow rt))"
    and select: "preserves P (go_call (rtSelect rt d))"
    and range: "preserves P (go_call (rtRange rt keys))"

locale exchange =
  fixes tr :: "'w transport" and P :: "'w \<Rightarrow> bool"
  assumes do: "preserves P (go_call (trDo tr client url body))"
begin

lemma handle_response_keeps: "preserves P (handle_response tr p podRaw response)"
  unfolding handle_response_def by (intro preserves_intros)

lemma send_review_keeps: "preserves P (send_review tr client url p podRaw reviewBytes)"
  unfolding send_review_def by (intro preserves_intros do handle_response_keeps)

end


section \<open>The webhook\<close>

locale webhook_caller =
  fixes caller :: "'w webhook_caller" and P :: "'w \<Rightarrow> bool"
  assumes call: "preserves P (caller podp revision prefer)"

locale webhook_client = api_reads k P + exchange tr P
  for k :: "'w kube" and tr :: "'w transport" and P :: "'w \<Rightarrow> bool"

sublocale webhook_client \<subseteq> client: webhook_caller "CallWebhook k tr" P
  by unfold_locales
    (unfold CallWebhook_def, intro preserves_intros url_keeps send_review_keeps)


section \<open>A scan only reads\<close>

locale scanning = api_reads k P + runtime_keeps rt P + webhook_caller caller P
  for k :: "'w kube" and rt :: "'w runtime" and caller :: "'w webhook_caller" and P :: "'w \<Rightarrow> bool"
begin

lemma list_pods_keeps: "preserves P (listPods k rt opts)"
  unfolding listPods_def
  by (auto intro!: preserves_intros reads range list_namespaces_keeps split: list.split)

lemma process_pod_keeps: "preserves P (processPodForOutdatedSidecar k caller cfg opts p)"
  unfolding processPodForOutdatedSidecar_def check_with_webhook_def
  by (intro preserves_intros find_owner_keeps get_rev_keeps build_pod_keeps call)

lemma scan_pods_keeps:
  "preserves P (scan_pods (processPodForOutdatedSidecar k caller cfg opts) skipSet seen refs pods)"
  by (induction pods arbitrary: seen refs) (auto intro!: preserves_intros process_pod_keeps)

lemma scan_keeps: "preserves P (ScanOutdatedPods k rt (Some caller) cfg opts)"
  unfolding ScanOutdatedPods_def option.case by (intro preserves_intros list_pods_keeps scan_pods_keeps)

end

locale reading = webhook_client k tr P + runtime_keeps rt P
  for k :: "'w kube" and tr :: "'w transport" and rt :: "'w runtime" and P :: "'w \<Rightarrow> bool"

sublocale reading \<subseteq> scan: scanning k rt "CallWebhook k tr" P ..

context reading begin

lemma scan_outdated_keeps: "preserves P (ScanOutdatedPods k rt (Some (CallWebhook k tr)) cfg opts)"
  by (rule scan.scan_keeps)

end

end
