(* ===== verification/Annotator.thy ===== *)
theory Annotator
  imports Scanner
begin

text \<open>
  Package \<open>annotator\<close> (\<open>workload_annotator.go\<close>): setting the \<open>restartedAt\<close> annotation of a
  workload's pod template, with the cooldown that leaves a recently annotated workload alone and
  the retries of a conflicting patch.
\<close>

section \<open>The code\<close>

definition patchConflictMaxRetries :: nat where
  "patchConflictMaxRetries = 3"

definition patchConflictBackoff :: duration where
  "patchConflictBackoff = 50 * millisecond"

definition nn_string :: "namespaced_name \<Rightarrow> string" where
  "nn_string nn = nn_namespace nn @ ''/'' @ nn_name nn"

text \<open>The time of the annotation; the zero time when it is absent, empty or unreadable.\<close>

definition restarted_at :: "pod_template \<Rightarrow> gotime" where
  "restarted_at t =
     (case pt_annotations t RestartedAtAnnotation of
        None \<Rightarrow> zero_time
      | Some s \<Rightarrow> if s = [] then zero_time
                  else (case parse_rfc3339 s of None \<Rightarrow> zero_time | Some at \<Rightarrow> at))"

definition getRestartedAt :: "'w kube \<Rightarrow> workload_ref \<Rightarrow> ('w, goerror + gotime) go" where
  "getRestartedAt k ref =
     (case type_of_kind (wr_kind ref) of
        None \<Rightarrow> go_ret (Inr zero_time)
      | Some ty \<Rightarrow>
          go_try (Wrap (''get workload '' @ nn_string (wr_nn ref) @ '' for restartedAt: ''))
            (go_call (kGetWorkload k ty (wr_nn ref)))
            (\<lambda>wl. go_ret (Inr (restarted_at (wl_template wl)))))"

text \<open>The loop of \<open>patchWithRetry\<close>; the result is Go's \<open>error\<close>, \<open>None\<close> for \<open>nil\<close>.\<close>

function patch_loop ::
  "'w runtime \<Rightarrow> ('w, goerror option) go \<Rightarrow> nat \<Rightarrow> goerror option \<Rightarrow> ('w, goerror option) go" where
  "patch_loop rt patch attempt lastErr =
     (if attempt < patchConflictMaxRetries then
        go_bind patch
          (\<lambda>r. case r of
             None \<Rightarrow> go_ret None
           | Some err \<Rightarrow>
               if \<not> isConflict err then go_ret (Some err)
               else if attempt < patchConflictMaxRetries - 1 then
                 go_bind (go_call (rtSelect rt patchConflictBackoff))
                   (\<lambda>s. case s of
                      CtxDone e \<Rightarrow> go_ret (Some e)
                    | TimerFired \<Rightarrow> patch_loop rt patch (attempt + 1) (Some err))
               else patch_loop rt patch (attempt + 1) (Some err))
      else go_ret lastErr)"
  by pat_completeness auto
termination
  by (relation "measure (\<lambda>(rt, patch, attempt, lastErr). patchConflictMaxRetries - attempt)") auto

declare patch_loop.simps [simp del]

definition patchWithRetry ::
  "'w runtime \<Rightarrow> ('w, goerror option) go \<Rightarrow> ('w, goerror option) go" where
  "patchWithRetry rt patch = patch_loop rt patch 0 None"

definition restart_patch :: "string \<Rightarrow> json" where
  "restart_patch value =
     JObj [(''spec'', JObj [(''template'', JObj [(''metadata'',
       JObj [(''annotations'', JObj [(RestartedAtAnnotation, JStr value)])])])])]"

text \<open>The cooldown check: whether to skip.\<close>

definition in_cooldown ::
  "'w kube \<Rightarrow> 'w runtime \<Rightarrow> duration \<Rightarrow> workload_ref \<Rightarrow> ('w, goerror + bool) go" where
  "in_cooldown k rt cooldown ref =
     (if 0 < cooldown then
        go_try (Wrap (''get workload '' @ nn_string (wr_nn ref) @ '' for restartedAt: ''))
          (getRestartedAt k ref)
          (\<lambda>annotatedAt.
             if \<not> is_zero annotatedAt
             then go_bind (go_call (rtNow rt)) (\<lambda>now. go_ret (Inr (time_sub now annotatedAt < cooldown)))
             else go_ret (Inr False))
      else go_ret (Inr False))"

text \<open>
  \<open>Annotate\<close> returns \<open>(true, nil)\<close> as \<open>Inr True\<close>, \<open>(false, nil)\<close> as \<open>Inr False\<close> and \<open>(false, err)\<close>
  as \<open>Inl err\<close>. The switch on the kind comes after the patch has been built.
\<close>

definition Annotate ::
  "'w kube \<Rightarrow> 'w runtime \<Rightarrow> duration \<Rightarrow> workload_ref \<Rightarrow> ('w, goerror + bool) go" where
  "Annotate k rt annotationCooldown ref =
     go_try (\<lambda>err. err) (in_cooldown k rt annotationCooldown ref)
       (\<lambda>skip.
          if skip then go_ret (Inr False)
          else go_bind (go_call (rtNow rt))
            (\<lambda>now.
               let patch = restart_patch (format_rfc3339 now)
               in case type_of_kind (wr_kind ref) of
                    None \<Rightarrow> go_ret (Inr False)
                  | Some ty \<Rightarrow>
                      go_bind (patchWithRetry rt (go_call (kMergePatch k ty (wr_nn ref) patch)))
                        (\<lambda>err. go_ret (case err of None \<Rightarrow> Inr True | Some e \<Rightarrow> Inl e))))"

text \<open>
  The interface \<open>WorkloadAnnotator\<close> is its one method. \<open>Annotate\<close> takes the fields of its receiver
  \<open>WorkloadAnnotatorImpl\<close>; \<open>workload_annotator_of\<close> is the receiver used as the interface.
\<close>

type_synonym 'w workload_annotator = "workload_ref \<Rightarrow> ('w, goerror + bool) go"

record 'w workload_annotator_impl =
  wa_client :: "'w kube"
  wa_annotation_cooldown :: duration

definition NewWorkloadAnnotator :: "'w kube \<Rightarrow> duration \<Rightarrow> 'w workload_annotator_impl" where
  "NewWorkloadAnnotator c annotationCooldown =
     \<lparr>wa_client = c, wa_annotation_cooldown = annotationCooldown\<rparr>"

definition workload_annotator_of :: "'w runtime \<Rightarrow> 'w workload_annotator_impl \<Rightarrow> 'w workload_annotator" where
  "workload_annotator_of rt a = Annotate (wa_client a) rt (wa_annotation_cooldown a)"

lemma NewWorkloadAnnotator_annotates [simp]:
  "workload_annotator_of rt (NewWorkloadAnnotator c cooldown) = Annotate c rt cooldown"
  by (simp add: workload_annotator_of_def NewWorkloadAnnotator_def)


section \<open>Retrying\<close>

lemma patch_loop_0:
  "patch_loop rt patch 0 le =
     go_bind patch
       (\<lambda>r. case r of
          None \<Rightarrow> go_ret None
        | Some err \<Rightarrow>
            if \<not> isConflict err then go_ret (Some err)
            else go_bind (go_call (rtSelect rt patchConflictBackoff))
              (\<lambda>s. case s of CtxDone e \<Rightarrow> go_ret (Some e) | TimerFired \<Rightarrow> patch_loop rt patch 1 (Some err)))"
  by (subst patch_loop.simps, simp add: patchConflictMaxRetries_def, rule go_bind_cong)
    (simp add: patchConflictMaxRetries_def numeral_eq_Suc split: option.split)

lemma patch_loop_1:
  "patch_loop rt patch 1 le =
     go_bind patch
       (\<lambda>r. case r of
          None \<Rightarrow> go_ret None
        | Some err \<Rightarrow>
            if \<not> isConflict err then go_ret (Some err)
            else go_bind (go_call (rtSelect rt patchConflictBackoff))
              (\<lambda>s. case s of CtxDone e \<Rightarrow> go_ret (Some e) | TimerFired \<Rightarrow> patch_loop rt patch 2 (Some err)))"
  by (subst patch_loop.simps, simp add: patchConflictMaxRetries_def, rule go_bind_cong)
    (simp add: patchConflictMaxRetries_def numeral_eq_Suc split: option.split)

lemma patch_loop_2:
  "patch_loop rt patch 2 le = patch"
proof -
  have "patch_loop rt patch 2 le =
     go_bind patch
       (\<lambda>r. case r of
          None \<Rightarrow> go_ret None
        | Some err \<Rightarrow>
            if \<not> isConflict err then go_ret (Some err) else patch_loop rt patch 3 (Some err))"
    by (subst patch_loop.simps, simp add: patchConflictMaxRetries_def, rule go_bind_cong)
      (simp add: patchConflictMaxRetries_def numeral_eq_Suc split: option.split)
  also have "\<dots> = go_bind patch go_ret"
  proof -
    have "(\<lambda>r. case r of
          None \<Rightarrow> go_ret None
        | Some err \<Rightarrow>
            if \<not> isConflict err then go_ret (Some err) else patch_loop rt patch 3 (Some err)) = go_ret"
    proof
      fix r
      have "patch_loop rt patch 3 le = go_ret le" for le
        by (subst patch_loop.simps) (simp add: patchConflictMaxRetries_def)
      then show "(case r of
          None \<Rightarrow> go_ret None
        | Some err \<Rightarrow>
            if \<not> isConflict err then go_ret (Some err) else patch_loop rt patch 3 (Some err)) = go_ret r"
        by (cases r) simp_all
    qed
    then show ?thesis by simp
  qed
  finally show ?thesis by simp
qed

text \<open>
  An equivalent description: three tries, each of the first two followed by a wait after a
  conflict; the last try's result is the result.
\<close>

definition retry_after ::
  "'w runtime \<Rightarrow> ('w, goerror option) go \<Rightarrow> ('w, goerror option) go \<Rightarrow> ('w, goerror option) go" where
  "retry_after rt patch again =
     go_bind patch
       (\<lambda>r. if (case r of None \<Rightarrow> False | Some err \<Rightarrow> isConflict err)
            then go_bind (go_call (rtSelect rt patchConflictBackoff))
                   (\<lambda>s. case s of CtxDone e \<Rightarrow> go_ret (Some e) | TimerFired \<Rightarrow> again)
            else go_ret r)"

lemma retry_after_eq:
  "retry_after rt patch again =
     go_bind patch
       (\<lambda>r. case r of
          None \<Rightarrow> go_ret None
        | Some err \<Rightarrow>
            if \<not> isConflict err then go_ret (Some err)
            else go_bind (go_call (rtSelect rt patchConflictBackoff))
              (\<lambda>s. case s of CtxDone e \<Rightarrow> go_ret (Some e) | TimerFired \<Rightarrow> again))"
proof -
  have "(\<lambda>r. if (case r of None \<Rightarrow> False | Some err \<Rightarrow> isConflict err)
            then go_bind (go_call (rtSelect rt patchConflictBackoff))
                   (\<lambda>s. case s of CtxDone e \<Rightarrow> go_ret (Some e) | TimerFired \<Rightarrow> again)
            else go_ret r) =
      (\<lambda>r. case r of
          None \<Rightarrow> go_ret None
        | Some err \<Rightarrow>
            if \<not> isConflict err then go_ret (Some err)
            else go_bind (go_call (rtSelect rt patchConflictBackoff))
              (\<lambda>s. case s of CtxDone e \<Rightarrow> go_ret (Some e) | TimerFired \<Rightarrow> again))"
    by (rule ext) (simp split: option.split)
  then show ?thesis by (simp add: retry_after_def)
qed

lemma patchWithRetry_three:
  "patchWithRetry rt patch = retry_after rt patch (retry_after rt patch patch)"
  unfolding patchWithRetry_def retry_after_eq
  by (subst patch_loop_0, subst patch_loop_1, subst patch_loop_2) (rule refl)

lemma patchWithRetry_total: "go_total patch \<Longrightarrow> go_total (patchWithRetry rt patch)"
  unfolding patchWithRetry_three retry_after_def
  by (intro go_total_intros) (auto split: select_outcome.split intro!: go_total_intros)

lemma patchWithRetry_preserves:
  assumes "preserves P patch" and "preserves P (go_call (rtSelect rt patchConflictBackoff))"
  shows "preserves P (patchWithRetry rt patch)"
  unfolding patchWithRetry_three retry_after_def
  by (intro preserves_intros assms) (auto split: select_outcome.split intro!: preserves_intros assms)

lemma returns_retry_cases:
  assumes "returns (retry_after rt patch again) w r w'"
  obtains "returns patch w r w'"
    | v e where "rtSelect rt patchConflictBackoff v = (CtxDone e, w')" and "r = Some e"
    | v where "returns again v r w'"
proof -
  from assms obtain s v where "returns patch w s v"
    and rest: "returns (if (case s of None \<Rightarrow> False | Some err \<Rightarrow> isConflict err)
            then go_bind (go_call (rtSelect rt patchConflictBackoff))
                   (\<lambda>s. case s of CtxDone e \<Rightarrow> go_ret (Some e) | TimerFired \<Rightarrow> again)
            else go_ret s) v r w'"
    unfolding retry_after_def by (rule returns_bindE)
  with that show thesis
    by (cases "case s of None \<Rightarrow> False | Some err \<Rightarrow> isConflict err")
      (auto elim!: returns_bindE split: select_outcome.splits)
qed

lemma retry_after_conflict:
  assumes "returns patch w (Some e) w1" and "isConflict e"
    and "rtSelect rt patchConflictBackoff w1 = (TimerFired, w2)" and "returns again w2 r w3"
  shows "returns (retry_after rt patch again) w r w3"
proof -
  have "returns (go_bind (go_call (rtSelect rt patchConflictBackoff))
      (\<lambda>s. case s of CtxDone e \<Rightarrow> go_ret (Some e) | TimerFired \<Rightarrow> again)) w1 r w3"
    using assms(3,4) by (simp add: returns_bind)
  with assms(1,2) show ?thesis
    unfolding retry_after_def by (auto intro!: returns_bindI)
qed

lemma retry_after_stop:
  assumes "returns patch w r w'" and "\<And>e. r = Some e \<Longrightarrow> \<not> isConflict e"
  shows "returns (retry_after rt patch again) w r w'"
proof -
  have "\<not> (case r of None \<Rightarrow> False | Some err \<Rightarrow> isConflict err)"
    using assms(2) by (cases r) simp_all
  with assms(1) show ?thesis
    unfolding retry_after_def by (auto intro!: returns_bindI)
qed

end
