(* ===== verification/Triggers.thy ===== *)
theory Triggers
  imports ConfigMaps MwcTags
begin

text \<open>
  What starts a reconciliation: the requests and event filters of packages \<open>configmap\<close>, \<open>mwc\<close>,
  \<open>namespace\<close> and \<open>periodic\<close> (their \<open>trigger.go\<close> files), and the watches that
  \<open>SetupIstioChangeController\<close> registers. \<open>requests_for\<close> is what those watches put on the work
  queue for an event; the semantics of \<open>predicate.NewPredicateFuncs\<close> and
  \<open>handler.EnqueueRequestsFromMapFunc\<close> is the documented one of controller-runtime.
\<close>

section \<open>Requests\<close>

text \<open>A \<open>reconcile.Request\<close> is a namespaced name.\<close>

type_synonym request = namespaced_name

definition configmap_ReconcileRequest :: request where
  "configmap_ReconcileRequest =
     \<lparr>nn_namespace = IstioSystemNamespace, nn_name = ReconcileTriggerNameIstioChange\<rparr>"

definition configmap_ReconcileRequestName :: string where
  "configmap_ReconcileRequestName = ReconcileTriggerNameIstioChange"

definition mwc_ReconcileRequest :: request where
  "mwc_ReconcileRequest =
     \<lparr>nn_namespace = IstioSystemNamespace, nn_name = ReconcileTriggerNameIstioChange\<rparr>"

definition mwc_ReconcileRequestName :: string where
  "mwc_ReconcileRequestName = ReconcileTriggerNameIstioChange"

definition namespace_ReconcileRequest :: "string \<Rightarrow> request" where
  "namespace_ReconcileRequest namespace = \<lparr>nn_namespace = [], nn_name = namespace\<rparr>"

definition reconcileTriggerName :: string where
  "reconcileTriggerName = ''__periodic_reconcile__''"

definition periodic_ReconcileRequest :: request where
  "periodic_ReconcileRequest =
     \<lparr>nn_namespace = IstioSystemNamespace, nn_name = reconcileTriggerName\<rparr>"

definition periodic_ReconcileRequestName :: string where
  "periodic_ReconcileRequestName = reconcileTriggerName"


section \<open>Filters\<close>

definition configmap_Filter :: "object_meta \<Rightarrow> bool" where
  "configmap_Filter obj =
     (if om_namespace obj \<noteq> IstioSystemNamespace then False
      else has_prefix (om_name obj) ConfigMapNamePrefix)"

definition mwc_Filter :: "object_meta \<Rightarrow> bool" where
  "mwc_Filter obj = has_prefix (om_name obj) istioRevisionTagPrefix"

definition hasIstioLabels :: "object_meta \<Rightarrow> bool" where
  "hasIstioLabels obj =
     (if om_labels obj LabelIstioRev \<noteq> None then True
      else case om_labels obj LabelIstioInjection of
        Some v \<Rightarrow> v \<noteq> []
      | None \<Rightarrow> False)"

datatype event =
    CreateEvent object_meta
  | UpdateEvent object_meta object_meta
  | DeleteEvent object_meta
  | GenericEvent object_meta

text \<open>\<open>predicate.NewPredicateFuncs\<close>: the filter on the object, the new one of an update.\<close>

fun predicate_funcs :: "(object_meta \<Rightarrow> bool) \<Rightarrow> event \<Rightarrow> bool" where
  "predicate_funcs p (CreateEvent obj) = p obj"
| "predicate_funcs p (UpdateEvent old new) = p new"
| "predicate_funcs p (DeleteEvent obj) = p obj"
| "predicate_funcs p (GenericEvent obj) = p obj"

text \<open>The predicate of package \<open>namespace\<close>; a field that is not set lets the event pass.\<close>

fun namespace_Filter :: "event \<Rightarrow> bool" where
  "namespace_Filter (CreateEvent obj) = False"
| "namespace_Filter (UpdateEvent old new) = (hasIstioLabels old \<or> hasIstioLabels new)"
| "namespace_Filter (DeleteEvent obj) = False"
| "namespace_Filter (GenericEvent obj) = True"


section \<open>Watches\<close>

text \<open>\<open>handler.EnqueueRequestsFromMapFunc\<close>: an update maps both objects; doubles are dropped.\<close>

fun enqueue_from_map :: "(object_meta \<Rightarrow> request list) \<Rightarrow> event \<Rightarrow> request list" where
  "enqueue_from_map f (CreateEvent obj) = remdups (f obj)"
| "enqueue_from_map f (UpdateEvent old new) = remdups (f old @ f new)"
| "enqueue_from_map f (DeleteEvent obj) = remdups (f obj)"
| "enqueue_from_map f (GenericEvent obj) = remdups (f obj)"

datatype watch_event =
    ConfigMapEvent event
  | MWCEvent event
  | NamespaceEvent event
  | TickEvent

text \<open>The watches of the controller; the periodic source is added when the period is positive.\<close>

fun requests_for :: "duration \<Rightarrow> watch_event \<Rightarrow> request list" where
  "requests_for reconcilePeriod (ConfigMapEvent e) =
     (if predicate_funcs configmap_Filter e
      then enqueue_from_map (\<lambda>obj. [configmap_ReconcileRequest]) e else [])"
| "requests_for reconcilePeriod (MWCEvent e) =
     (if predicate_funcs mwc_Filter e
      then enqueue_from_map (\<lambda>obj. [mwc_ReconcileRequest]) e else [])"
| "requests_for reconcilePeriod (NamespaceEvent e) =
     (if namespace_Filter e
      then enqueue_from_map (\<lambda>obj. [namespace_ReconcileRequest (om_name obj)]) e else [])"
| "requests_for reconcilePeriod TickEvent =
     (if 0 < reconcilePeriod then [periodic_ReconcileRequest] else [])"

text \<open>
  The pending requests as a list: one is added only when it is not there yet. The whole queue is
  in \<open>WorkQueue\<close>.
\<close>

definition queue_add :: "request list \<Rightarrow> request \<Rightarrow> request list" where
  "queue_add q r = (if r \<in> set q then q else q @ [r])"

definition queue_event :: "duration \<Rightarrow> watch_event \<Rightarrow> request list \<Rightarrow> request list" where
  "queue_event reconcilePeriod e q = fold (\<lambda>r q. queue_add q r) (requests_for reconcilePeriod e) q"

lemma queue_add_distinct: "distinct q \<Longrightarrow> distinct (queue_add q r)"
  by (simp add: queue_add_def)

lemma set_queue_add [simp]: "set (queue_add q r) = insert r (set q)"
  by (auto simp: queue_add_def)

lemma fold_queue_add_distinct: "distinct q \<Longrightarrow> distinct (fold (\<lambda>r q. queue_add q r) rs q)"
  by (induction rs arbitrary: q) (simp_all add: queue_add_distinct)

lemma set_fold_queue_add: "set (fold (\<lambda>r q. queue_add q r) rs q) = set rs \<union> set q"
  by (induction rs arbitrary: q) auto


section \<open>Properties\<close>

fun event_objects :: "event \<Rightarrow> object_meta list" where
  "event_objects (CreateEvent obj) = [obj]"
| "event_objects (UpdateEvent old new) = [old, new]"
| "event_objects (DeleteEvent obj) = [obj]"
| "event_objects (GenericEvent obj) = [obj]"

lemma enqueue_from_map_set: "set (enqueue_from_map f e) = \<Union> (set ` f ` set (event_objects e))"
  by (cases e) auto

text \<open>
  The work queue: after any sequence of events it holds every request that they make, each
  once, so that bursts of configuration changes are served by one reconciliation.
\<close>

theorem queue_coalesces:
  "distinct (fold (queue_event period) events []) \<and>
   set (fold (queue_event period) events []) = \<Union> (set ` requests_for period ` set events)"
proof -
  have "distinct q \<Longrightarrow> distinct (fold (queue_event period) events q)" for q
    by (induction events arbitrary: q) (simp_all add: queue_event_def fold_queue_add_distinct)
  moreover have "set (fold (queue_event period) events q) =
      \<Union> (set ` requests_for period ` set events) \<union> set q" for q
    by (induction events arbitrary: q) (auto simp: queue_event_def set_fold_queue_add)
  ultimately show ?thesis by simp
qed

end
