(* ===== verification/ScanSpec.thy ===== *)
theory ScanSpec
  imports Scanner
begin

text \<open>
  What a scan promises. The loop of \<open>ScanOutdatedPods\<close>, with its set of names already seen, is
  refined to a pipeline: process every pod outside the skipped namespaces, drop the pods that
  gave nothing, keep the first reference of every name. \<open>outdated\<close> is the specification of one
  pod's answer.
\<close>

section \<open>The loop as a pipeline\<close>

fun process_all :: "('a \<Rightarrow> ('w, 'b) go) \<Rightarrow> 'a list \<Rightarrow> ('w, 'b list) go" where
  "process_all f [] = go_ret []"
| "process_all f (x # xs) = go_bind (f x) (\<lambda>y. go_bind (process_all f xs) (\<lambda>ys. go_ret (y # ys)))"

fun keep_first :: "namespaced_name list \<Rightarrow> workload_ref list \<Rightarrow> workload_ref list" where
  "keep_first seen [] = []"
| "keep_first seen (r # rs) =
     (if wr_nn r \<in> set seen then keep_first seen rs else r # keep_first (wr_nn r # seen) rs)"

definition scanned :: "string list \<Rightarrow> pod list \<Rightarrow> pod list" where
  "scanned skipSet pods = filter (\<lambda>p. om_namespace (p_meta p) \<notin> set skipSet) pods"

fun somes :: "'a option list \<Rightarrow> 'a list" where
  "somes [] = []"
| "somes (None # xs) = somes xs"
| "somes (Some x # xs) = x # somes xs"

lemma set_somes [simp]: "set (somes xs) = {x. Some x \<in> set xs}"
  by (induction xs rule: somes.induct) auto

lemma scan_pods_pipeline:
  "scan_pods process skipSet seen workloads pods =
     go_bind (process_all process (scanned skipSet pods))
       (\<lambda>rs. go_ret (workloads @ keep_first seen (somes rs)))"
proof (induction pods arbitrary: seen workloads)
  case Nil
  then show ?case by (simp add: scanned_def)
next
  case (Cons p ps)
  show ?case
  proof (cases "om_namespace (p_meta p) \<in> set skipSet")
    case True
    then have "scanned skipSet (p # ps) = scanned skipSet ps" by (simp add: scanned_def)
    with True Cons show ?thesis by simp
  next
    case False
    then have sc: "scanned skipSet (p # ps) = p # scanned skipSet ps" by (simp add: scanned_def)
    have "(case r of
           None \<Rightarrow> scan_pods process skipSet seen workloads ps
         | Some ref \<Rightarrow>
             if wr_nn ref \<in> set seen then scan_pods process skipSet seen workloads ps
             else scan_pods process skipSet (wr_nn ref # seen) (workloads @ [ref]) ps)
        = go_bind (process_all process (scanned skipSet ps))
            (\<lambda>rs. go_ret (workloads @ keep_first seen (somes (r # rs))))" for r
      by (cases r) (auto simp: Cons.IH)
    note step = this
    from False show ?thesis
      unfolding sc by (simp add: go_bind_assoc) (rule go_bind_cong, rule step)
  qed
qed

text \<open>The first of every name: no name twice, none lost, the order kept.\<close>

lemma keep_first_names:
  "set (map wr_nn (keep_first seen rs)) = set (map wr_nn rs) - set seen"
  by (induction seen rs rule: keep_first.induct) auto

lemma keep_first_distinct: "distinct (map wr_nn (keep_first seen rs))"
proof (induction seen rs rule: keep_first.induct)
  case (2 seen r rs)
  have "wr_nn r \<notin> set (map wr_nn (keep_first (wr_nn r # seen) rs))"
    unfolding keep_first_names by simp
  with 2 show ?case by simp
qed simp

lemma keep_first_subseq: "subseq (keep_first seen rs) rs"
  by (induction seen rs rule: keep_first.induct) auto

lemma set_keep_first: "set (keep_first seen rs) \<subseteq> set rs"
  by (induction seen rs rule: keep_first.induct) auto

lemma returns_process_all:
  "returns (process_all f xs) w ys w' \<Longrightarrow>
     length ys = length xs \<and>
     (\<forall>i < length xs. \<exists>w1 w2. returns (f (xs ! i)) w1 (ys ! i) w2)"
proof (induction xs arbitrary: w ys)
  case (Cons x xs)
  then obtain y w1 ys' where y: "returns (f x) w y w1" and ys': "returns (process_all f xs) w1 ys' w'"
    and ys: "ys = y # ys'"
    by (auto elim!: go_elims)
  from Cons.IH [OF ys'] y show ?case
    unfolding ys by (auto simp: less_Suc_eq_0_disj)
qed simp

lemma process_all_total: "(\<And>x. x \<in> set xs \<Longrightarrow> go_total (f x)) \<Longrightarrow> go_total (process_all f xs)"
  by (induction xs) (auto intro!: go_total_bind go_total_ret)

lemma process_all_preserves: "(\<And>x. preserves P (f x)) \<Longrightarrow> preserves P (process_all f xs)"
  by (induction xs) (auto intro!: preserves_bind preserves_ret)


section \<open>The answer for one pod\<close>

text \<open>
  \<open>outdated k caller cfg opts p ref\<close>: \<open>ref\<close> owns the pod; the revision or tag it asks for is not
  empty; the pod is not newer than the configuration; and for the pod built from its template the
  webhook answered with a proxy image that the pod's own does not match.
\<close>

definition outdated ::
  "'w kube \<Rightarrow> 'w webhook_caller \<Rightarrow> istio_config \<Rightarrow> scan_options \<Rightarrow> pod \<Rightarrow> workload_ref \<Rightarrow> bool" where
  "outdated k caller cfg opts p ref \<longleftrightarrow>
     owned_by k (p_meta p) ref \<and>
     (\<exists>revOrTag templatePod mutated.
        (\<exists>w w'. returns (getIstioRevFromWorkloadOrNamespace k ref) w (Inr revOrTag) w') \<and>
        revOrTag \<noteq> [] \<and>
        \<not> shouldSkipPodForLastModified p (resolve_tag cfg revOrTag) revOrTag cfg opts \<and>
        (\<exists>w w'. returns (buildPodFromWorkload k ref) w (Inr templatePod) w') \<and>
        (\<exists>w w'. returns (caller templatePod (resolve_tag cfg revOrTag) (revOrTag = ''default''))
                  w (Inr mutated) w') \<and>
        getIstioProxyImage mutated \<noteq> [] \<and>
        \<not> imagesMatch (getIstioProxyImage p) (getIstioProxyImage mutated) (so_compare_hub opts))"

lemma compare_pods_Some:
  "compare_pods ref p mutated opts = Some ref' \<longleftrightarrow>
     ref' = ref \<and> getIstioProxyImage mutated \<noteq> [] \<and>
     \<not> imagesMatch (getIstioProxyImage p) (getIstioProxyImage mutated) (so_compare_hub opts)"
  by (auto simp: compare_pods_def Let_def)

lemma check_with_webhook_Some:
  assumes "returns (check_with_webhook k caller p ref revOrTag cfg opts) w (Some ref') w'"
  shows "ref' = ref \<and>
    (\<exists>templatePod mutated.
        (\<exists>w w'. returns (buildPodFromWorkload k ref) w (Inr templatePod) w') \<and>
        (\<exists>w w'. returns (caller templatePod (resolve_tag cfg revOrTag) (revOrTag = ''default''))
                  w (Inr mutated) w') \<and>
        getIstioProxyImage mutated \<noteq> [] \<and>
        \<not> imagesMatch (getIstioProxyImage p) (getIstioProxyImage mutated) (so_compare_hub opts))"
proof -
  from assms obtain r w1 where b: "returns (buildPodFromWorkload k ref) w r w1"
    and rest: "returns (case r of Inl _ \<Rightarrow> go_ret None | Inr templatePod \<Rightarrow>
        go_bind (caller templatePod (resolve_tag cfg revOrTag) (revOrTag = ''default''))
          (\<lambda>r. case r of Inl _ \<Rightarrow> go_ret None | Inr mutated \<Rightarrow> go_ret (compare_pods ref p mutated opts)))
      w1 (Some ref') w'"
    unfolding check_with_webhook_def by (rule returns_bindE)
  from rest obtain templatePod where r: "r = Inr templatePod"
    by (cases r) auto
  from rest obtain s w2 where c: "returns (caller templatePod (resolve_tag cfg revOrTag) (revOrTag = ''default'')) w1 s w2"
    and "returns (case s of Inl _ \<Rightarrow> go_ret None | Inr mutated \<Rightarrow> go_ret (compare_pods ref p mutated opts))
      w2 (Some ref') w'"
    unfolding r by (auto elim: returns_bindE)
  then obtain mutated where "s = Inr mutated" "compare_pods ref p mutated opts = Some ref'"
    by (cases s) auto
  with b c r show ?thesis unfolding compare_pods_Some by blast
qed

lemma processPod_outdated:
  assumes "returns (processPodForOutdatedSidecar k caller cfg opts p) w (Some ref) w'"
  shows "outdated k caller cfg opts p ref"
proof -
  from assms obtain found w1 where f: "returns (findWorkloadOwner k (p_meta p)) w found w1"
    and rest: "returns (case found of Inl _ \<Rightarrow> go_ret None | Inr found \<Rightarrow>
            (case found of
               None \<Rightarrow> go_ret None
             | Some ref \<Rightarrow>
                 go_bind (getIstioRevFromWorkloadOrNamespace k ref)
                   (\<lambda>r. case r of
                      Inl _ \<Rightarrow> go_ret None
                    | Inr revOrTag \<Rightarrow>
                        if revOrTag = [] then go_ret None
                        else if shouldSkipPodForLastModified p (resolve_tag cfg revOrTag) revOrTag cfg opts
                        then go_ret None
                        else check_with_webhook k caller p ref revOrTag cfg opts))) w1 (Some ref) w'"
    unfolding processPodForOutdatedSidecar_def by (rule returns_bindE)
  from rest obtain ref0 where found: "found = Inr (Some ref0)"
    by (auto split: sum.splits option.splits)
  from rest obtain r w2 where rev: "returns (getIstioRevFromWorkloadOrNamespace k ref0) w1 r w2"
    and rest': "returns (case r of Inl _ \<Rightarrow> go_ret None | Inr revOrTag \<Rightarrow>
                        if revOrTag = [] then go_ret None
                        else if shouldSkipPodForLastModified p (resolve_tag cfg revOrTag) revOrTag cfg opts
                        then go_ret None
                        else check_with_webhook k caller p ref0 revOrTag cfg opts) w2 (Some ref) w'"
    unfolding found by (auto elim: returns_bindE)
  from rest' obtain revOrTag where r: "r = Inr revOrTag" "revOrTag \<noteq> []"
      "\<not> shouldSkipPodForLastModified p (resolve_tag cfg revOrTag) revOrTag cfg opts"
    and check: "returns (check_with_webhook k caller p ref0 revOrTag cfg opts) w2 (Some ref) w'"
    by (auto split: sum.splits if_splits)
  from check_with_webhook_Some [OF check] have "ref = ref0" by simp
  with findWorkloadOwner_owned_by [of k "p_meta p" w ref0 w1] f found rev r check_with_webhook_Some [OF check]
  show ?thesis unfolding outdated_def by blast
qed

text \<open>Every workload of a scan's result is outdated for one of the pods that were scanned.\<close>

lemma scan_pods_outdated:
  assumes "returns (scan_pods (processPodForOutdatedSidecar k caller cfg opts) skipSet [] [] pods) w refs w'"
  shows "distinct (map wr_nn refs)"
    and "ref \<in> set refs \<Longrightarrow>
      \<exists>p \<in> set pods. om_namespace (p_meta p) \<notin> set skipSet \<and> outdated k caller cfg opts p ref"
proof -
  from assms obtain rs where rs: "returns (process_all (processPodForOutdatedSidecar k caller cfg opts)
      (scanned skipSet pods)) w rs w'" and refs: "refs = keep_first [] (somes rs)"
    unfolding scan_pods_pipeline by (auto elim!: returns_bindE)
  show "distinct (map wr_nn refs)" unfolding refs by (rule keep_first_distinct)
  assume "ref \<in> set refs"
  then have "Some ref \<in> set rs" using set_keep_first [of "[]" "somes rs"] by (auto simp: refs)
  then obtain i where i: "i < length rs" "rs ! i = Some ref" by (auto simp: in_set_conv_nth)
  from returns_process_all [OF rs] i obtain w1 w2 where "i < length (scanned skipSet pods)"
    "returns (processPodForOutdatedSidecar k caller cfg opts (scanned skipSet pods ! i)) w1 (Some ref) w2"
    by metis
  then have "scanned skipSet pods ! i \<in> set (scanned skipSet pods)"
    "outdated k caller cfg opts (scanned skipSet pods ! i) ref"
    using processPod_outdated by (auto intro: nth_mem)
  then show "\<exists>p \<in> set pods. om_namespace (p_meta p) \<notin> set skipSet \<and> outdated k caller cfg opts p ref"
    by (auto simp: scanned_def)
qed

end
