(* ===== verification/Reconciler.thy ===== *)
theory Reconciler
  imports Annotator Triggers ScanSpec
begin

text \<open>
  Package \<open>controller\<close> (\<open>istio_change_reconciler.go\<close>): the reconciler, from a request taken off
  the queue to the annotation of every outdated workload, and \<open>parseSkipNamespaces\<close> of
  \<open>cmd/main.go\<close>, which makes one of its options. A \<open>ctrl.Result\<close> is always the empty one, so a
  reconciliation returns \<open>Inr ()\<close> or an error; logging is left out.
\<close>

section \<open>The reconciler\<close>

record reconciler_options =
  ro_dry_run :: bool
  ro_compare_hub :: bool
  ro_restart_delay :: duration
  ro_istiod_config_read_delay :: duration
  ro_annotation_cooldown :: duration
  ro_skip_namespaces :: "string list"
  ro_reconcile_period :: duration

record 'w reconciler =
  rc_client :: "'w kube"
  rc_scanner :: "'w pod_scanner"
  rc_annotator :: "'w workload_annotator"
  rc_dry_run :: bool
  rc_compare_hub :: bool
  rc_restart_delay :: duration
  rc_istiod_config_read_delay :: duration
  rc_skip_namespaces :: "string list"
  rc_reconcile_period :: duration

definition NewIstioChangeReconciler ::
  "'w kube \<Rightarrow> 'w runtime \<Rightarrow> 'w transport \<Rightarrow> reconciler_options \<Rightarrow> 'w reconciler" where
  "NewIstioChangeReconciler k rt tr opts =
     \<lparr>rc_client = k,
      rc_scanner = NewPodScanner k tr,
      rc_annotator = workload_annotator_of rt (NewWorkloadAnnotator k (ro_annotation_cooldown opts)),
      rc_dry_run = ro_dry_run opts,
      rc_compare_hub = ro_compare_hub opts,
      rc_restart_delay = ro_restart_delay opts,
      rc_istiod_config_read_delay = ro_istiod_config_read_delay opts,
      rc_skip_namespaces = ro_skip_namespaces opts,
      rc_reconcile_period = ro_reconcile_period opts\<rparr>"

definition waitOrContextDone :: "'w runtime \<Rightarrow> duration \<Rightarrow> ('w, goerror option) go" where
  "waitOrContextDone rt d =
     go_bind (go_call (rtSelect rt d))
       (\<lambda>s. go_ret (case s of CtxDone err \<Rightarrow> Some err | TimerFired \<Rightarrow> None))"

definition awaitIstiodConfigReadDelay ::
  "'w runtime \<Rightarrow> 'w reconciler \<Rightarrow> ('w, goerror option) go" where
  "awaitIstiodConfigReadDelay rt r =
     (if rc_istiod_config_read_delay r \<le> 0 then go_ret None
      else waitOrContextDone rt (rc_istiod_config_read_delay r))"

text \<open>The loop of \<open>annotateWorkloadsWithDelay\<close> from index \<open>i\<close> on.\<close>

fun annotate_from ::
  "'w runtime \<Rightarrow> 'w reconciler \<Rightarrow> nat \<Rightarrow> workload_ref list \<Rightarrow> ('w, unit) go" where
  "annotate_from rt r i [] = go_ret ()"
| "annotate_from rt r i (ref # refs) =
     go_bind
       (if 0 < i \<and> 0 < rc_restart_delay r then waitOrContextDone rt (rc_restart_delay r)
        else go_ret None)
       (\<lambda>err. case err of
          Some _ \<Rightarrow> go_ret ()
        | None \<Rightarrow>
            if rc_dry_run r then annotate_from rt r (Suc i) refs
            else go_bind (rc_annotator r ref) (\<lambda>_. annotate_from rt r (Suc i) refs))"

definition annotateWorkloadsWithDelay ::
  "'w runtime \<Rightarrow> 'w reconciler \<Rightarrow> workload_ref list \<Rightarrow> ('w, unit) go" where
  "annotateWorkloadsWithDelay rt r workloads = annotate_from rt r 0 workloads"

definition scan_options_of :: "'w reconciler \<Rightarrow> string list \<Rightarrow> scan_options" where
  "scan_options_of r limitToNamespaces =
     \<lparr>so_compare_hub = rc_compare_hub r,
      so_istiod_config_read_delay = rc_istiod_config_read_delay r,
      so_skip_namespaces = rc_skip_namespaces r,
      so_limit_to_namespaces = limitToNamespaces\<rparr>"

definition scanAndAnnotate ::
  "'w runtime \<Rightarrow> 'w reconciler \<Rightarrow> istio_config \<Rightarrow> string list \<Rightarrow> ('w, goerror + unit) go" where
  "scanAndAnnotate rt r cfg limitToNamespaces =
     go_try (Wrap ''scan outdated pods: '')
       (ScanOutdatedPods (sc_client (rc_scanner r)) rt (sc_webhook_caller (rc_scanner r)) cfg
          (scan_options_of r limitToNamespaces))
       (\<lambda>workloads. go_bind (annotateWorkloadsWithDelay rt r workloads) (\<lambda>_. go_ret (Inr ())))"

definition reconcileAll ::
  "'w runtime \<Rightarrow> 'w reconciler \<Rightarrow> string list \<Rightarrow> ('w, goerror + unit) go" where
  "reconcileAll rt r limitToNamespaces =
     go_bind (awaitIstiodConfigReadDelay rt r)
       (\<lambda>e. case e of
          Some err \<Rightarrow> go_ret (Inl (Wrap ''await istiod config read delay: '' err))
        | None \<Rightarrow>
            go_try (\<lambda>err. err) (BuildLastModifiedByRevision (rc_client r))
              (\<lambda>lastModifiedByRevision.
                 go_try (Wrap ''fetch tag-to-revision mapping: '')
                   (FetchTagToRevisionAndLastModified (rc_client r))
                   (\<lambda>(tagToRevision, lastModifiedByTag).
                      scanAndAnnotate rt r
                        \<lparr>ic_last_modified_by_revision = lastModifiedByRevision,
                         ic_tag_to_revision = tagToRevision,
                         ic_last_modified_by_tag = lastModifiedByTag\<rparr>
                        limitToNamespaces)))"

definition Reconcile :: "'w runtime \<Rightarrow> 'w reconciler \<Rightarrow> request \<Rightarrow> ('w, goerror + unit) go" where
  "Reconcile rt r req =
     (if nn_name req = periodic_ReconcileRequestName then reconcileAll rt r []
      else if nn_name req = configmap_ReconcileRequestName then reconcileAll rt r []
      else if nn_namespace req = [] \<and> nn_name req \<noteq> [] then reconcileAll rt r [nn_name req]
      else go_ret (Inr ()))"


section \<open>Options from the command line\<close>

text \<open>
  \<open>strings.TrimSpace\<close> cuts the white space of Unicode: the ASCII kinds and the UTF-8 sequences of
  the others.
\<close>

definition go_spaces :: "string list" where
  "go_spaces =
     map (map char_of)
       ([[9], [10], [11], [12], [13], [32], [0xC2, 0x85], [0xC2, 0xA0], [0xE1, 0x9A, 0x80]]
        @ map (\<lambda>b. [0xE2, 0x80, b]) [0x80, 0x81, 0x82, 0x83, 0x84, 0x85, 0x86, 0x87, 0x88, 0x89, 0x8A,
                                      0xA8, 0xA9, 0xAF]
        @ [[0xE2, 0x81, 0x9F], [0xE3, 0x80, 0x80 :: nat]])"

function trim_left_space :: "string \<Rightarrow> string" where
  "trim_left_space s =
     (case List.find (\<lambda>sp. has_prefix s sp \<and> sp \<noteq> []) go_spaces of
        Some sp \<Rightarrow> trim_left_space (drop (length sp) s)
      | None \<Rightarrow> s)"
  by pat_completeness auto
termination
proof (relation "measure length", simp)
  fix s sp
  assume "List.find (\<lambda>sp. has_prefix s sp \<and> sp \<noteq> []) go_spaces = Some sp"
  then have "has_prefix s sp" "sp \<noteq> []" by (auto simp: find_Some_iff)
  then have "0 < length sp" "s \<noteq> []" by (auto simp: has_prefix_def)
  then show "(drop (length sp) s, s) \<in> measure length" by simp
qed

function trim_right_space :: "string \<Rightarrow> string" where
  "trim_right_space s =
     (case List.find (\<lambda>sp. has_suffix s sp \<and> sp \<noteq> []) go_spaces of
        Some sp \<Rightarrow> trim_right_space (take (length s - length sp) s)
      | None \<Rightarrow> s)"
  by pat_completeness auto
termination
proof (relation "measure length", simp)
  fix s sp
  assume "List.find (\<lambda>sp. has_suffix s sp \<and> sp \<noteq> []) go_spaces = Some sp"
  then have "has_suffix s sp" "sp \<noteq> []" by (auto simp: find_Some_iff)
  then have "0 < length sp" "length sp \<le> length s" by (auto simp: has_suffix_def)
  then have "length s - length sp < length s" by linarith
  then show "(take (length s - length sp) s, s) \<in> measure length" by simp
qed

declare trim_left_space.simps [simp del]
declare trim_right_space.simps [simp del]

definition trim_space :: "string \<Rightarrow> string" where
  "trim_space s = trim_right_space (trim_left_space s)"

definition parseSkipNamespaces :: "string \<Rightarrow> string list" where
  "parseSkipNamespaces s =
     (if s = [] then []
      else filter (\<lambda>trimmed. trimmed \<noteq> []) (map trim_space (split_on (CHR '','') s)))"


section \<open>Skipped namespaces\<close>

text \<open>
  What trimming does: no space is left at either end, and a text without them is left alone.
\<close>

definition starts_with_space :: "string \<Rightarrow> bool" where
  "starts_with_space s \<longleftrightarrow> (\<exists>sp \<in> set go_spaces. sp \<noteq> [] \<and> has_prefix s sp)"

definition ends_with_space :: "string \<Rightarrow> bool" where
  "ends_with_space s \<longleftrightarrow> (\<exists>sp \<in> set go_spaces. sp \<noteq> [] \<and> has_suffix s sp)"

lemma trim_left_space_stop: "\<not> starts_with_space s \<Longrightarrow> trim_left_space s = s"
  by (subst trim_left_space.simps) (auto simp: starts_with_space_def find_None_iff split: option.split dest!: find_Some_iff [THEN iffD1] nth_mem)

lemma trim_right_space_stop: "\<not> ends_with_space s \<Longrightarrow> trim_right_space s = s"
  by (subst trim_right_space.simps) (auto simp: ends_with_space_def split: option.split dest!: find_Some_iff [THEN iffD1] nth_mem)

lemma trim_left_space_done: "\<not> starts_with_space (trim_left_space s)"
proof (induction s rule: trim_left_space.induct)
  case (1 s)
  show ?case
  proof (cases "List.find (\<lambda>sp. has_prefix s sp \<and> sp \<noteq> []) go_spaces")
    case None
    then have "trim_left_space s = s" by (subst trim_left_space.simps) simp
    with None show ?thesis by (auto simp: starts_with_space_def find_None_iff)
  next
    case (Some sp)
    with 1 show ?thesis by (subst trim_left_space.simps) simp
  qed
qed

lemma trim_right_space_done: "\<not> ends_with_space (trim_right_space s)"
proof (induction s rule: trim_right_space.induct)
  case (1 s)
  show ?case
  proof (cases "List.find (\<lambda>sp. has_suffix s sp \<and> sp \<noteq> []) go_spaces")
    case None
    then have "trim_right_space s = s" by (subst trim_right_space.simps) simp
    with None show ?thesis by (auto simp: ends_with_space_def find_None_iff)
  next
    case (Some sp)
    with 1 show ?thesis by (subst trim_right_space.simps) simp
  qed
qed

lemma trim_right_space_prefix: "prefix (trim_right_space s) s"
proof (induction s rule: trim_right_space.induct)
  case (1 s)
  show ?case
  proof (cases "List.find (\<lambda>sp. has_suffix s sp \<and> sp \<noteq> []) go_spaces")
    case None
    then show ?thesis by (subst trim_right_space.simps) simp
  next
    case (Some sp)
    with 1 have "prefix (trim_right_space (take (length s - length sp) s)) (take (length s - length sp) s)" by blast
    with Some show ?thesis
      by (subst trim_right_space.simps) (simp add: take_is_prefix prefix_order.trans)
  qed
qed

lemma trim_left_space_set: "set (trim_left_space s) \<subseteq> set s"
proof (induction s rule: trim_left_space.induct)
  case (1 s)
  then show ?case
    by (subst trim_left_space.simps) (auto split: option.split dest: in_set_dropD)
qed

lemma starts_with_space_prefix: "prefix s t \<Longrightarrow> starts_with_space s \<Longrightarrow> starts_with_space t"
  by (auto simp: starts_with_space_def has_prefix_iff intro: prefix_order.trans)

lemma trim_space_clean:
  "\<not> starts_with_space (trim_space s)" "\<not> ends_with_space (trim_space s)" "set (trim_space s) \<subseteq> set s"
proof -
  show "\<not> starts_with_space (trim_space s)"
    using starts_with_space_prefix [OF trim_right_space_prefix] trim_left_space_done
    by (auto simp: trim_space_def)
  show "\<not> ends_with_space (trim_space s)"
    by (simp add: trim_space_def trim_right_space_done)
  show "set (trim_space s) \<subseteq> set s"
    using set_mono_prefix [OF trim_right_space_prefix [of "trim_left_space s"]] trim_left_space_set [of s]
    by (auto simp: trim_space_def)
qed

text \<open>Visible ASCII at both ends, as in every Kubernetes name: nothing to trim.\<close>

definition visible :: "char \<Rightarrow> bool" where
  "visible c \<longleftrightarrow> 32 < (of_char c :: nat) \<and> (of_char c :: nat) < 128"

lemma go_spaces_invisible: "\<forall>sp \<in> set go_spaces. sp \<noteq> [] \<and> \<not> visible (hd sp) \<and> \<not> visible (last sp)"
  by (simp add: go_spaces_def visible_def)

lemma visible_ends:
  assumes "s \<noteq> []" and "visible (hd s)" and "visible (last s)"
  shows "\<not> starts_with_space s" and "\<not> ends_with_space s"
proof -
  have "hd sp = hd s" if "has_prefix s sp" "sp \<noteq> []" for sp
    using that by (auto simp: has_prefix_iff prefix_def)
  then show "\<not> starts_with_space s"
    using go_spaces_invisible assms(2) by (fastforce simp: starts_with_space_def)
  have "last sp = last s" if "has_suffix s sp" "sp \<noteq> []" for sp
    using that by (metis has_suffix_def last_drop linorder_not_le drop_eq_Nil)
  then show "\<not> ends_with_space s"
    using go_spaces_invisible assms(3) by (fastforce simp: ends_with_space_def)
qed

lemma trim_space_stop: "\<not> starts_with_space s \<Longrightarrow> \<not> ends_with_space s \<Longrightarrow> trim_space s = s"
  by (simp add: trim_space_def trim_left_space_stop trim_right_space_stop)

text \<open>
  The list of namespaces to skip holds no empty name, no comma and no name with a space at
  either end, whatever the text of the flag.
\<close>

theorem parseSkipNamespaces_clean:
  "set (parseSkipNamespaces s) \<subseteq>
     {ns. ns \<noteq> [] \<and> CHR '','' \<notin> set ns \<and> \<not> starts_with_space ns \<and> \<not> ends_with_space ns}"
proof -
  have "CHR '','' \<notin> set (trim_space x)" if "x \<in> set (split_on (CHR '','') s)" for x
    using split_on_no_sep [OF that] trim_space_clean(3) [of x] by blast
  then show ?thesis
    by (auto simp: parseSkipNamespaces_def trim_space_clean)
qed

fun join_comma :: "string list \<Rightarrow> string" where
  "join_comma [] = []"
| "join_comma [s] = s"
| "join_comma (s # t # ss) = s @ '','' @ join_comma (t # ss)"

lemma split_join_comma:
  "ss \<noteq> [] \<Longrightarrow> \<forall>s \<in> set ss. CHR '','' \<notin> set s \<Longrightarrow> split_on (CHR '','') (join_comma ss) = ss"
  by (induction ss rule: join_comma.induct) (simp_all add: split_on_absent split_on_append)

text \<open>
  Names that are joined with commas are read back, each and in order, when no name is empty,
  holds a comma or has a space at an end.
\<close>

theorem parseSkipNamespaces_join:
  assumes "\<forall>ns \<in> set nss. ns \<noteq> [] \<and> CHR '','' \<notin> set ns \<and> \<not> starts_with_space ns \<and> \<not> ends_with_space ns"
  shows "parseSkipNamespaces (join_comma nss) = nss"
proof (cases "nss = []")
  case False
  then have "join_comma nss \<noteq> []"
    using assms by (cases nss rule: join_comma.cases) auto
  moreover have "map trim_space nss = nss"
    using assms by (simp add: trim_space_stop map_idI)
  moreover have "filter (\<lambda>s. s \<noteq> []) nss = nss" using assms by simp
  ultimately show ?thesis
    using False assms by (simp add: parseSkipNamespaces_def split_join_comma)
qed (simp add: parseSkipNamespaces_def)

theorem parseSkipNamespaces_join_witness:
  "parseSkipNamespaces ''kube-system,istio-system'' = [''kube-system'', ''istio-system'']"
proof -
  have "\<not> starts_with_space ''kube-system''" "\<not> ends_with_space ''kube-system''"
    "\<not> starts_with_space ''istio-system''" "\<not> ends_with_space ''istio-system''"
    by (simp_all add: visible_ends visible_def)
  then show ?thesis
    using parseSkipNamespaces_join [of "[''kube-system'', ''istio-system'']"] by simp
qed

end
