(* ===== verification/Restarts.thy ===== *)
theory Restarts
  imports Interfaces Reconciler
begin

text \<open>
  What the program writes. The only operation that changes the cluster is the merge patch of the
  annotator, so a world that keeps a log of the patches it was sent shows everything a
  reconciliation does. \<open>workload_annotator\<close> is the Go interface \<open>annotator.WorkloadAnnotator\<close>,
  which the annotator implements and the reconciler uses.
\<close>

section \<open>Patches\<close>

type_synonym patch_entry = "wtype \<times> namespaced_name \<times> json"

text \<open>A restart of a workload: its own kind and name, and a document that sets the annotation.\<close>

definition restarts :: "workload_ref \<Rightarrow> patch_entry \<Rightarrow> bool" where
  "restarts ref e \<longleftrightarrow>
     (\<exists>ty t. type_of_kind (wr_kind ref) = Some ty \<and> e = (ty, wr_nn ref, restart_patch (format_rfc3339 t)))"

text \<open>What one call of the annotator sends: the same restart, three times at most.\<close>

definition tries :: "workload_ref \<Rightarrow> patch_entry list \<Rightarrow> bool" where
  "tries ref es \<longleftrightarrow>
     (\<exists>n e. es = replicate n e \<and> n \<le> patchConflictMaxRetries \<and> (0 < n \<longrightarrow> restarts ref e))"

text \<open>What a run over several workloads sends: for each of them in turn, one call's patches.\<close>

definition restart_run :: "workload_ref list \<Rightarrow> patch_entry list \<Rightarrow> bool" where
  "restart_run refs es \<longleftrightarrow> (\<exists>ess. es = concat ess \<and> list_all2 tries refs ess)"

lemma tries_Nil [simp]: "tries ref []"
  by (force simp: tries_def)

lemma restart_run_Nil [simp]: "restart_run [] []"
  by (simp add: restart_run_def)

lemma restart_run_Cons: "tries ref es \<Longrightarrow> restart_run refs fs \<Longrightarrow> restart_run (ref # refs) (es @ fs)"
  unfolding restart_run_def by (metis concat.simps(2) list_all2_Cons)

lemma restart_run_none [simp]: "restart_run refs []"
  by (induction refs) (simp, metis restart_run_Cons append_Nil tries_Nil)

lemma tries_restarts: "tries ref es \<Longrightarrow> e \<in> set es \<Longrightarrow> restarts ref e"
  by (auto simp: tries_def)

lemma restart_run_restarts:
  assumes "restart_run refs es" and "e \<in> set es"
  obtains ref where "ref \<in> set refs" and "restarts ref e"
proof -
  from assms obtain ess fs where "list_all2 tries refs ess" "fs \<in> set ess" "e \<in> set fs"
    by (auto simp: restart_run_def)
  then obtain ref where "ref \<in> set refs" "tries ref fs"
    by (metis in_set_conv_nth list_all2_conv_all_nth)
  with \<open>e \<in> set fs\<close> show thesis by (blast intro: that tries_restarts)
qed

lemma restart_run_length:
  assumes "restart_run refs es"
  shows "length es \<le> patchConflictMaxRetries * length refs"
proof -
  have "length (concat ess) \<le> patchConflictMaxRetries * length refs" if "list_all2 tries refs ess" for ess
    using that by (induction rule: list_all2_induct) (auto simp: tries_def)
  with assms show ?thesis by (auto simp: restart_run_def)
qed


text \<open>Distinct names: what is sent for one name is one call's patches.\<close>

lemma tries_per_name:
  "tries ref es \<Longrightarrow>
     filter (\<lambda>(ty, nn, doc). nn = name) es = (if wr_nn ref = name then es else [])"
  by (auto simp: tries_def restarts_def)

lemma restart_run_per_name:
  assumes "restart_run refs es" and "distinct (map wr_nn refs)"
  shows "length (filter (\<lambda>(ty, nn, doc). nn = name) es) \<le> patchConflictMaxRetries"
proof -
  have "length (filter (\<lambda>(ty, nn, doc). nn = name) (concat ess))
      \<le> (if name \<in> set (map wr_nn refs) then patchConflictMaxRetries else 0)"
    if "list_all2 tries refs ess" "distinct (map wr_nn refs)" for ess
    using that
  proof (induction rule: list_all2_induct)
    case (Cons ref refs es ess)
    then show ?case
      using tries_per_name [OF Cons(1), of name] by (auto simp: tries_def split: if_splits)
  qed simp
  with assms show ?thesis by (fastforce simp: restart_run_def split: if_splits)
qed


section \<open>The annotator\<close>

locale workload_annotator =
  fixes annotate :: "workload_ref \<Rightarrow> ('w, goerror + bool) go" and log :: "'w \<Rightarrow> patch_entry list"
  assumes annotate: "emits log (tries ref) (annotate ref)"

locale patch_log =
  fixes k :: "'w kube" and rt :: "'w runtime" and log :: "'w \<Rightarrow> patch_entry list"
  assumes reads: "api_reads k (\<lambda>w. log w = l)"
    and runtime: "runtime_keeps rt (\<lambda>w. log w = l)"
    and patch: "kMergePatch k ty nn p w = (r, w') \<Longrightarrow> log w' = log w @ [(ty, nn, p)]"
begin

lemma retry_after_emits:
  assumes "emits log (\<lambda>es. es = [e]) patch"
    and "emits log (\<lambda>es. \<exists>i \<le> n. es = replicate i e) again"
  shows "emits log (\<lambda>es. \<exists>i \<le> n. es = replicate (Suc i) e) (retry_after rt patch again)"
  unfolding retry_after_def
proof (rule emits_bind [OF assms(1), where T = "\<lambda>es. \<exists>i \<le> n. es = replicate i e"])
  fix r
  have "emits log (\<lambda>es. es = []) (go_call (rtSelect rt patchConflictBackoff))"
    by (intro emits_keeps runtime_keeps.select [OF runtime] refl)
  then have wait: "emits log (\<lambda>es. \<exists>i \<le> n. es = replicate i e)
      (go_bind (go_call (rtSelect rt patchConflictBackoff))
        (\<lambda>s. case s of CtxDone err \<Rightarrow> go_ret (Some err) | TimerFired \<Rightarrow> again))"
    by (rule emits_bind [where T = "\<lambda>es. \<exists>i \<le> n. es = replicate i e"])
      (auto intro!: assms(2) emits_ret split: select_outcome.split)
  show "emits log (\<lambda>es. \<exists>i \<le> n. es = replicate i e)
      (if case r of None \<Rightarrow> False | Some err \<Rightarrow> isConflict err
       then go_bind (go_call (rtSelect rt patchConflictBackoff))
          (\<lambda>s. case s of CtxDone e \<Rightarrow> go_ret (Some e) | TimerFired \<Rightarrow> again)
       else go_ret r)"
    using wait by (auto intro: emits_ret)
next
  fix es fs
  assume "es = [e]" and "\<exists>i \<le> n. fs = replicate i e"
  then show "\<exists>i \<le> n. es @ fs = replicate (Suc i) e" by auto
next
  fix es
  assume "es = [e]"
  then show "\<exists>i \<le> n. es = replicate (Suc i) e"
    by (intro exI [of _ 0]) simp
qed

lemma emits_some_tries:
  "emits log (\<lambda>es. \<exists>i \<le> n. es = replicate (Suc i) e) m \<Longrightarrow>
     emits log (\<lambda>es. \<exists>i \<le> Suc n. es = replicate i e) m"
  by (erule emits_mono) (metis Suc_le_mono)

lemma patchWithRetry_emits:
  assumes "emits log (\<lambda>es. es = [e]) patch"
  shows "emits log (\<lambda>es. \<exists>i < patchConflictMaxRetries. es = replicate (Suc i) e) (patchWithRetry rt patch)"
proof -
  have "emits log (\<lambda>es. \<exists>i \<le> 1. es = replicate i e) patch"
    using assms by (rule emits_mono) (intro exI [of _ 1], simp)
  then have "emits log (\<lambda>es. \<exists>i \<le> Suc 1. es = replicate (Suc i) e)
      (retry_after rt patch (retry_after rt patch patch))"
    by (intro retry_after_emits emits_some_tries assms)
  then show ?thesis
    unfolding patchWithRetry_three by (rule emits_mono) (auto simp: patchConflictMaxRetries_def)
qed

lemma in_cooldown_keeps: "preserves (\<lambda>w. log w = l) (in_cooldown k rt cooldown ref)"
  unfolding in_cooldown_def getRestartedAt_def
  by (intro preserves_intros api_reads.reads [OF reads] runtime_keeps.now [OF runtime])

lemma patching_emits:
  assumes "type_of_kind (wr_kind ref) = Some ty"
  shows "emits log (tries ref)
    (go_bind (patchWithRetry rt
        (go_call (kMergePatch k ty (wr_nn ref) (restart_patch (format_rfc3339 now)))))
      (\<lambda>err. go_ret (case err of None \<Rightarrow> Inr True | Some e \<Rightarrow> Inl e)))"
proof -
  let ?e = "(ty, wr_nn ref, restart_patch (format_rfc3339 now))"
  have e: "restarts ref ?e" using assms by (auto simp: restarts_def)
  have "emits log (\<lambda>es. es = [?e]) (go_call (kMergePatch k ty (wr_nn ref) (restart_patch (format_rfc3339 now))))"
    by (auto simp: emits_def go_call_def split: prod.splits dest: patch)
  then have "emits log (\<lambda>es. \<exists>i < patchConflictMaxRetries. es = replicate (Suc i) ?e)
      (patchWithRetry rt (go_call (kMergePatch k ty (wr_nn ref) (restart_patch (format_rfc3339 now)))))"
    by (rule patchWithRetry_emits)
  then have "emits log (tries ref)
      (patchWithRetry rt (go_call (kMergePatch k ty (wr_nn ref) (restart_patch (format_rfc3339 now)))))"
    by (rule emits_mono) (use e in \<open>unfold tries_def, metis Suc_leI\<close>)
  then show ?thesis
    by (rule emits_bind [where T = "\<lambda>es. es = []"]) (simp_all add: emits_ret)
qed

lemma Annotate_emits: "emits log (tries ref) (Annotate k rt cooldown ref)"
  unfolding Annotate_def go_try_def
proof (rule emits_bind [where S = "\<lambda>es. es = []" and T = "tries ref"])
  show "emits log (\<lambda>es. es = []) (in_cooldown k rt cooldown ref)"
    by (intro emits_keeps in_cooldown_keeps refl)
next
  fix r :: "goerror + bool"
  have "emits log (tries ref)
      (go_bind (go_call (rtNow rt))
        (\<lambda>now. let patch = restart_patch (format_rfc3339 now)
               in case type_of_kind (wr_kind ref) of
                    None \<Rightarrow> go_ret (Inr False)
                  | Some ty \<Rightarrow>
                      go_bind (patchWithRetry rt (go_call (kMergePatch k ty (wr_nn ref) patch)))
                        (\<lambda>err. go_ret (case err of None \<Rightarrow> Inr True | Some e \<Rightarrow> Inl e))))"
    by (rule emits_bind [where S = "\<lambda>es. es = []" and T = "tries ref"])
      (auto intro!: emits_keeps runtime_keeps.now [OF runtime] emits_ret patching_emits split: option.split)
  then show "emits log (tries ref)
      (case r of Inl e \<Rightarrow> go_ret (Inl e)
       | Inr skip \<Rightarrow>
          if skip then go_ret (Inr False)
          else go_bind (go_call (rtNow rt))
            (\<lambda>now.
               let patch = restart_patch (format_rfc3339 now)
               in case type_of_kind (wr_kind ref) of
                    None \<Rightarrow> go_ret (Inr False)
                  | Some ty \<Rightarrow>
                      go_bind (patchWithRetry rt (go_call (kMergePatch k ty (wr_nn ref) patch)))
                        (\<lambda>err. go_ret (case err of None \<Rightarrow> Inr True | Some e \<Rightarrow> Inl e))))"
    by (cases r) (simp_all add: emits_ret)
qed simp_all

end

sublocale patch_log \<subseteq> annotator: workload_annotator "Annotate k rt cooldown" log
  for cooldown
  by unfold_locales (rule Annotate_emits)


section \<open>The reconciler\<close>

locale restarting = workload_annotator annotate log
  for annotate :: "workload_ref \<Rightarrow> ('w, goerror + bool) go" and log :: "'w \<Rightarrow> patch_entry list" +
  fixes rt :: "'w runtime"
  assumes runtime: "runtime_keeps rt (\<lambda>w. log w = l)"
begin

lemma wait_keeps: "preserves (\<lambda>w. log w = l) (waitOrContextDone rt d)"
  unfolding waitOrContextDone_def by (intro preserves_intros runtime_keeps.select [OF runtime])

lemma pause_emits:
  "emits log (\<lambda>es. es = []) (if b then waitOrContextDone rt d else go_ret None)"
  by (intro emits_keeps preserves_intros wait_keeps refl)

lemma annotate_from_dry: "rc_dry_run r \<Longrightarrow> emits log (\<lambda>es. es = []) (annotate_from rt r i refs)"
proof (induction refs arbitrary: i)
  case (Cons ref refs)
  then show ?case
    unfolding annotate_from.simps
    by (intro emits_bind [OF pause_emits, where T = "\<lambda>es. es = []"])
      (auto intro!: emits_ret split: option.split)
qed (simp add: emits_ret)

lemma annotate_from_emits:
  "rc_annotator r = annotate \<Longrightarrow> emits log (restart_run refs) (annotate_from rt r i refs)"
proof (induction refs arbitrary: i)
  case (Cons ref refs)
  have rest: "emits log (restart_run refs) (annotate_from rt r (Suc i) refs)"
    using Cons by blast
  have one: "emits log (restart_run (ref # refs))
      (go_bind (annotate ref) (\<lambda>_. annotate_from rt r (Suc i) refs))"
    by (rule emits_bind [OF annotate rest]) (auto intro: restart_run_Cons dest: restart_run_Cons [of _ _ refs "[]"])
  have dry: "emits log (restart_run (ref # refs)) (annotate_from rt r (Suc i) refs)"
    using rest by (rule emits_mono) (use restart_run_Cons [of ref "[]"] in simp)
  show ?case
    unfolding annotate_from.simps Cons.prems
    by (intro emits_bind [OF pause_emits, where T = "restart_run (ref # refs)"])
      (auto intro!: emits_ret one dry split: option.split)
qed (simp add: emits_ret)

end

sublocale patch_log \<subseteq> restarter: restarting "Annotate k rt cooldown" log rt
  for cooldown
  by unfold_locales (intro runtime_keeps.now [OF runtime] runtime_keeps.select [OF runtime]
    runtime_keeps.range [OF runtime])+

end
