(* ===== verification/ReconcilerSpec.thy ===== *)
theory ReconcilerSpec
  imports Restarts ScanSpec
begin

text \<open>
  What a reconciliation as a whole promises: which patches it sends (\<open>installation\<close>), in which
  namespaces (\<open>namespaced_api\<close>), and that it comes back (\<open>answering_webhook\<close>).
\<close>

section \<open>The result of a scan\<close>

lemma returns_ScanOutdatedPods:
  assumes "returns (ScanOutdatedPods k rt (Some caller) cfg opts) w (Inr refs) w'"
  obtains pods w1 where "returns (listPods k rt opts) w (Inr pods) w1"
    and "returns (scan_pods (processPodForOutdatedSidecar k caller cfg opts)
           (filter (\<lambda>ns. ns \<noteq> []) (so_skip_namespaces opts)) [] [] pods) w1 refs w'"
  using assms by (auto simp: ScanOutdatedPods_def elim!: go_elims)

text \<open>\<open>scan_finding\<close>: the reference comes from an outdated pod that the scan listed and did not skip.\<close>

definition scan_finding ::
  "'w kube \<Rightarrow> 'w runtime \<Rightarrow> 'w webhook_caller \<Rightarrow> istio_config \<Rightarrow> scan_options \<Rightarrow> workload_ref \<Rightarrow> bool" where
  "scan_finding k rt caller cfg opts ref \<longleftrightarrow>
     (\<exists>pods p. (\<exists>w w'. returns (listPods k rt opts) w (Inr pods) w') \<and> p \<in> set pods \<and>
        (om_namespace (p_meta p) = [] \<or> om_namespace (p_meta p) \<notin> set (so_skip_namespaces opts)) \<and>
        outdated k caller cfg opts p ref)"

lemma scan_finds:
  assumes "returns (ScanOutdatedPods k rt (Some caller) cfg opts) w (Inr refs) w'"
  shows "distinct (map wr_nn refs)" and "ref \<in> set refs \<Longrightarrow> scan_finding k rt caller cfg opts ref"
proof -
  from assms obtain pods w1 where l: "returns (listPods k rt opts) w (Inr pods) w1"
    and s: "returns (scan_pods (processPodForOutdatedSidecar k caller cfg opts)
           (filter (\<lambda>ns. ns \<noteq> []) (so_skip_namespaces opts)) [] [] pods) w1 refs w'"
    by (rule returns_ScanOutdatedPods)
  from scan_pods_outdated(1) [OF s] show "distinct (map wr_nn refs)" .
  assume "ref \<in> set refs"
  from scan_pods_outdated(2) [OF s this] l show "scan_finding k rt caller cfg opts ref"
    unfolding scan_finding_def by fastforce
qed


section \<open>The patches of a reconciliation\<close>

text \<open>The list of patches of one reconciliation restricted to \<open>limit\<close>.\<close>

definition reconciled ::
  "'w kube \<Rightarrow> 'w runtime \<Rightarrow> 'w transport \<Rightarrow> reconciler_options \<Rightarrow> string list \<Rightarrow> patch_entry list \<Rightarrow> bool" where
  "reconciled k rt tr opts limit es \<longleftrightarrow>
     (ro_dry_run opts \<longrightarrow> es = []) \<and>
     (\<exists>refs cfg. restart_run refs es \<and> distinct (map wr_nn refs) \<and>
        (\<forall>ref \<in> set refs. scan_finding k rt (CallWebhook k tr) cfg
           (scan_options_of (NewIstioChangeReconciler k rt tr opts) limit) ref))"

text \<open>The namespaces a request is restricted to; none for the requests over the whole cluster.\<close>

definition request_limit :: "request \<Rightarrow> string list" where
  "request_limit req =
     (if nn_name req = periodic_ReconcileRequestName \<or> nn_name req = configmap_ReconcileRequestName
      then [] else [nn_name req])"

locale installation = patch_log k rt log
  for k :: "'w kube" and rt :: "'w runtime" and log :: "'w \<Rightarrow> patch_entry list" +
  fixes tr :: "'w transport"
  assumes exchange: "exchange tr (\<lambda>w. log w = l)"
begin

lemma reconciled_Nil [simp]: "reconciled k rt tr opts limit []"
  unfolding reconciled_def by (auto intro!: exI [of _ "[]"])

lemma reading_log: "reading k tr rt (\<lambda>w. log w = l)"
  unfolding reading_def webhook_client_def using reads runtime exchange by blast

lemma scan_keeps_log:
  "preserves (\<lambda>w. log w = l) (ScanOutdatedPods k rt (Some (CallWebhook k tr)) cfg opts)"
  by (rule reading.scan_outdated_keeps [OF reading_log])

lemma build_keeps_log: "preserves (\<lambda>w. log w = l) (BuildLastModifiedByRevision k)"
  by (rule api_reads.build_last_modified_keeps [OF reads])

lemma fetch_keeps_log: "preserves (\<lambda>w. log w = l) (FetchTagToRevisionAndLastModified k)"
  by (rule api_reads.fetch_tags_keeps [OF reads])

lemma await_keeps_log: "preserves (\<lambda>w. log w = l) (awaitIstiodConfigReadDelay rt r)"
  unfolding awaitIstiodConfigReadDelay_def waitOrContextDone_def
  by (intro preserves_intros runtime_keeps.select [OF runtime])

lemma annotate_reconciled:
  assumes "rc = NewIstioChangeReconciler k rt tr opts" and "distinct (map wr_nn refs)"
    and "\<forall>ref \<in> set refs. scan_finding k rt (CallWebhook k tr) cfg (scan_options_of rc limit) ref"
  shows "emits log (reconciled k rt tr opts limit) (annotateWorkloadsWithDelay rt rc refs)"
proof (cases "ro_dry_run opts")
  case True
  then have "emits log (\<lambda>es. es = []) (annotateWorkloadsWithDelay rt rc refs)"
    unfolding annotateWorkloadsWithDelay_def
    by (intro restarter.annotate_from_dry) (simp add: assms NewIstioChangeReconciler_def)
  then show ?thesis by (rule emits_mono) simp
next
  case False
  have "emits log (restart_run refs) (annotateWorkloadsWithDelay rt rc refs)"
    unfolding annotateWorkloadsWithDelay_def
    by (intro restarter.annotate_from_emits [of _ "ro_annotation_cooldown opts"])
      (simp add: assms NewIstioChangeReconciler_def)
  then show ?thesis
    by (rule emits_mono) (use False assms in \<open>auto simp: reconciled_def\<close>)
qed

lemma scanAndAnnotate_reconciled:
  assumes rc: "rc = NewIstioChangeReconciler k rt tr opts"
  shows "emits log (reconciled k rt tr opts limit) (scanAndAnnotate rt rc cfg limit)"
proof -
  have parts: "sc_client (rc_scanner rc) = k" "sc_webhook_caller (rc_scanner rc) = Some (CallWebhook k tr)"
    by (simp_all add: rc NewIstioChangeReconciler_def)
  show ?thesis
    unfolding scanAndAnnotate_def go_try_def parts
  proof (rule emits_bind [where S = "\<lambda>es. es = []" and T = "reconciled k rt tr opts limit"])
    show "emits log (\<lambda>es. es = [])
        (ScanOutdatedPods k rt (Some (CallWebhook k tr)) cfg (scan_options_of rc limit))"
      by (intro emits_keeps scan_keeps_log refl)
  next
    fix x w w'
    assume ret: "returns (ScanOutdatedPods k rt (Some (CallWebhook k tr)) cfg (scan_options_of rc limit)) w x w'"
    show "emits log (reconciled k rt tr opts limit)
        (case x of Inl e \<Rightarrow> go_ret (Inl (Wrap ''scan outdated pods: '' e))
         | Inr workloads \<Rightarrow> go_bind (annotateWorkloadsWithDelay rt rc workloads) (\<lambda>_. go_ret (Inr ())))"
    proof (cases x)
      case (Inr refs)
      have "emits log (reconciled k rt tr opts limit) (annotateWorkloadsWithDelay rt rc refs)"
        using scan_finds [OF ret [unfolded Inr]] by (intro annotate_reconciled [OF rc, of _ cfg]) simp_all
      then show ?thesis
        unfolding Inr sum.case
        by (rule emits_bind [where T = "\<lambda>es. es = []"]) (simp_all add: emits_ret)
    qed (simp add: emits_ret)
  qed simp_all
qed

lemma emits_after_reading:
  assumes "\<And>l. preserves (\<lambda>w. log w = l) m" and "\<And>x. emits log (reconciled k rt tr opts limit) (f x)"
  shows "emits log (reconciled k rt tr opts limit) (go_bind m f)"
  by (rule emits_bind [where S = "\<lambda>es. es = []" and T = "reconciled k rt tr opts limit"])
    (auto intro: emits_keeps assms)

lemma reconcileAll_reconciled:
  assumes rc: "rc = NewIstioChangeReconciler k rt tr opts"
  shows "emits log (reconciled k rt tr opts limit) (reconcileAll rt rc limit)"
proof -
  have client: "rc_client rc = k" by (simp add: rc NewIstioChangeReconciler_def)
  have split: "emits log (reconciled k rt tr opts limit) (case x of Inl e \<Rightarrow> go_ret (Inl (g e)) | Inr y \<Rightarrow> f y)"
    if "\<And>y. emits log (reconciled k rt tr opts limit) (f y)"
    for x and g :: "goerror \<Rightarrow> goerror" and f :: "'z \<Rightarrow> ('w, goerror + unit) go"
    using that by (cases x) (simp_all add: emits_ret)
  show ?thesis
    unfolding reconcileAll_def go_try_def client
    by (intro emits_after_reading await_keeps_log build_keeps_log fetch_keeps_log split)
      (auto intro!: emits_ret emits_after_reading build_keeps_log fetch_keeps_log split
        scanAndAnnotate_reconciled [OF rc] split: option.split)
qed

lemma Reconcile_reconciled:
  "emits log (reconciled k rt tr opts (request_limit req)) (Reconcile rt (NewIstioChangeReconciler k rt tr opts) req)"
  unfolding Reconcile_def request_limit_def
  by (auto intro!: reconcileAll_reconciled emits_ret)

end


section \<open>Namespaces\<close>

text \<open>
  What the API server documents about namespaces: a namespaced object is returned with the
  namespace it was asked for in, and a list restricted to a namespace holds objects of it; and
  what Go says of a map's keys: a range visits each of them.
\<close>

locale namespaced_api =
  fixes k :: "'w kube" and rt :: "'w runtime"
  assumes replicaset_namespace: "kGetReplicaSet k nn w = (Inr m, w') \<Longrightarrow> om_namespace m = nn_namespace nn"
    and revision_namespace: "kGetControllerRevision k nn w = (Inr m, w') \<Longrightarrow> om_namespace m = nn_namespace nn"
    and pods_namespace: "kListPods k (Some ns) w = (Inr pods, w') \<Longrightarrow> ns \<noteq> [] \<Longrightarrow> p \<in> set pods \<Longrightarrow>
      om_namespace (p_meta p) = ns"
    and range_keys: "rtRange rt keys w = (visited, w') \<Longrightarrow> set visited = set keys"
begin

lemma fetched_namespace: "fetched k obj owner nxt \<Longrightarrow> om_namespace nxt = om_namespace obj"
  by (auto simp: fetched_def owner_key_def dest: replicaset_namespace revision_namespace)

lemma owner_namespace: "owned_by k obj ref \<Longrightarrow> wr_namespace ref = om_namespace obj"
  by (erule owned_by_namespace) (erule fetched_namespace)

lemma list_namespaces_in:
  "returns (list_namespaces k nss items) w (Inr pods) w' \<Longrightarrow> [] \<notin> set nss \<Longrightarrow> p \<in> set pods \<Longrightarrow>
     p \<in> set items \<or> om_namespace (p_meta p) \<in> set nss"
proof (induction nss arbitrary: items w)
  case (Cons ns nss)
  from Cons.prems(1) obtain new w1 where new: "kListPods k (Some ns) w = (Inr new, w1)"
    and rest: "returns (list_namespaces k nss (items @ new)) w1 (Inr pods) w'"
    by (auto elim!: go_elims)
  from Cons.IH [OF rest] Cons.prems(2,3)
  have "p \<in> set items \<or> p \<in> set new \<or> om_namespace (p_meta p) \<in> set nss" by auto
  with pods_namespace [OF new] Cons.prems(2) show ?case by auto
qed simp

lemma listPods_limit:
  assumes ret: "returns (listPods k rt opts) w (Inr pods) w'" and "p \<in> set pods"
    and limit: "so_limit_to_namespaces opts \<noteq> []" "[] \<notin> set (so_limit_to_namespaces opts)"
  shows "om_namespace (p_meta p) \<in> set (so_limit_to_namespaces opts)"
proof (cases "so_limit_to_namespaces opts" rule: remdups_adj.cases)
  case (2 ns)
  with ret have "kListPods k (Some ns) w = (Inr pods, w')"
    by (auto simp: listPods_def elim!: go_elims)
  from pods_namespace [OF this] assms(2) limit show ?thesis unfolding 2 by simp
next
  case (3 ns ns' nss)
  let ?keys = "limit_set (so_limit_to_namespaces opts)"
  from ret 3 obtain visited w1 where visited: "rtRange rt ?keys w = (visited, w1)"
    and rest: "returns (list_namespaces k visited []) w1 (Inr pods) w'"
    by (auto simp: listPods_def elim!: go_elims)
  have keys: "set visited = set (so_limit_to_namespaces opts)"
    using range_keys [OF visited] limit(2) by (auto simp: limit_set_def)
  with list_namespaces_in [OF rest] assms(2) limit(2) show ?thesis by auto
qed (simp add: limit)

lemma scan_finding_namespace:
  assumes "scan_finding k rt caller cfg opts ref"
  shows "wr_namespace ref = [] \<or> wr_namespace ref \<notin> set (so_skip_namespaces opts)"
    and "so_limit_to_namespaces opts \<noteq> [] \<Longrightarrow> [] \<notin> set (so_limit_to_namespaces opts) \<Longrightarrow>
      wr_namespace ref \<in> set (so_limit_to_namespaces opts)"
proof -
  from assms obtain pods p w w' where l: "returns (listPods k rt opts) w (Inr pods) w'" "p \<in> set pods"
    and skip: "om_namespace (p_meta p) = [] \<or> om_namespace (p_meta p) \<notin> set (so_skip_namespaces opts)"
    and "outdated k caller cfg opts p ref"
    by (auto simp: scan_finding_def)
  then have ns: "wr_namespace ref = om_namespace (p_meta p)"
    by (auto simp: outdated_def dest: owner_namespace)
  with skip show "wr_namespace ref = [] \<or> wr_namespace ref \<notin> set (so_skip_namespaces opts)" by simp
  assume "so_limit_to_namespaces opts \<noteq> []" "[] \<notin> set (so_limit_to_namespaces opts)"
  with listPods_limit [OF l] ns show "wr_namespace ref \<in> set (so_limit_to_namespaces opts)" by simp
qed

end


lemma reconciled_namespaces:
  assumes "namespaced_api k rt" and rec: "reconciled k rt tr opts limit es" and "(ty, nn, doc) \<in> set es"
  shows "nn_namespace nn = [] \<or> nn_namespace nn \<notin> set (ro_skip_namespaces opts)"
    and "limit = [ns] \<Longrightarrow> ns \<noteq> [] \<Longrightarrow> nn_namespace nn = ns"
proof -
  from rec obtain refs cfg where run: "restart_run refs es"
    and find: "\<forall>ref \<in> set refs. scan_finding k rt (CallWebhook k tr) cfg
           (scan_options_of (NewIstioChangeReconciler k rt tr opts) limit) ref"
    by (auto simp: reconciled_def)
  from restart_run_restarts [OF run assms(3)] obtain ref where "ref \<in> set refs" and "wr_nn ref = nn"
    by (auto simp: restarts_def)
  with find have f: "scan_finding k rt (CallWebhook k tr) cfg
      (scan_options_of (NewIstioChangeReconciler k rt tr opts) limit) ref" by blast
  from namespaced_api.scan_finding_namespace [OF assms(1) f] \<open>wr_nn ref = nn\<close>
  show "nn_namespace nn = [] \<or> nn_namespace nn \<notin> set (ro_skip_namespaces opts)"
    and "limit = [ns] \<Longrightarrow> ns \<noteq> [] \<Longrightarrow> nn_namespace nn = ns"
    by (auto simp: scan_options_of_def NewIstioChangeReconciler_def)
qed

text \<open>A Kubernetes name has no underscore, so a namespace is never taken for a reserved request.\<close>

lemma namespace_not_reserved:
  "CHR ''_'' \<notin> set ns \<Longrightarrow> ns \<noteq> periodic_ReconcileRequestName \<and> ns \<noteq> configmap_ReconcileRequestName"
  by (auto simp: periodic_ReconcileRequestName_def configmap_ReconcileRequestName_def
      reconcileTriggerName_def ReconcileTriggerNameIstioChange_def)

lemma request_limit_namespace:
  "CHR ''_'' \<notin> set ns \<Longrightarrow> request_limit (namespace_ReconcileRequest ns) = [ns]"
  using namespace_not_reserved [of ns]
  by (simp add: request_limit_def namespace_ReconcileRequest_def)


section \<open>Dry runs\<close>

context reading begin

lemma dry_annotate_keeps: "rc_dry_run r \<Longrightarrow> preserves P (annotate_from rt r i refs)"
  by (induction refs arbitrary: i)
    (auto simp: waitOrContextDone_def intro!: preserves_intros select split: option.split)

lemma dry_scan_keeps:
  assumes "rc_scanner r = NewPodScanner k tr" and "rc_dry_run r"
  shows "preserves P (scanAndAnnotate rt r cfg limit)"
  unfolding scanAndAnnotate_def annotateWorkloadsWithDelay_def assms(1) NewPodScanner_simps
  by (intro preserves_intros scan_outdated_keeps dry_annotate_keeps assms)

lemma dry_reconcileAll_keeps:
  assumes "rc_client r = k" and "rc_scanner r = NewPodScanner k tr" and "rc_dry_run r"
  shows "preserves P (reconcileAll rt r limit)"
  unfolding reconcileAll_def awaitIstiodConfigReadDelay_def waitOrContextDone_def assms(1)
  by (intro preserves_intros select build_last_modified_keeps fetch_tags_keeps dry_scan_keeps assms)

lemma dry_run_keeps:
  "ro_dry_run opts \<Longrightarrow> preserves P (Reconcile rt (NewIstioChangeReconciler k rt tr opts) req)"
  unfolding Reconcile_def
  by (intro preserves_intros dry_reconcileAll_keeps) (simp_all add: NewIstioChangeReconciler_def)

end


section \<open>Coming back\<close>

text \<open>
  A reconciliation comes back, with a result or an error, when no chain of controller references
  is endless and the webhook gives a status with every denial.
\<close>

locale answering_webhook =
  fixes tr :: "'w transport"
  assumes denial_status: "trDecodeReview tr body = Inr (Some r) \<Longrightarrow> \<not> ar_allowed r \<Longrightarrow>
    ar_result_message r \<noteq> None"
begin

lemma handle_response_total:
  assumes "trDecodeReview tr body = Inr response"
  shows "go_total (handle_response tr p podRaw response)"
proof (cases response)
  case (Some r)
  with assms denial_status [of body r] show ?thesis
    by (cases "ar_result_message r") (auto simp: handle_response_def go_total_ret)
qed (simp add: handle_response_def go_total_ret)

lemma send_review_total: "go_total (send_review tr client url p podRaw reviewBytes)"
  unfolding send_review_def by (intro go_total_intros handle_response_total) assumption

lemma getWebhookURLAndCABundle_total: "go_total (getWebhookURLAndCABundle k revision prefer)"
  unfolding getWebhookURLAndCABundle_def getCABundleForRevision_def Let_def by (intro go_total_intros)

lemma CallWebhook_total: "go_total (CallWebhook k tr (Some p) revision prefer)"
  unfolding CallWebhook_def option.case
  by (intro go_total_intros getWebhookURLAndCABundle_total send_review_total)

lemma CallWebhook_owned_total:
  assumes "owned_by k obj ref" and "returns (buildPodFromWorkload k ref) w (Inr templatePod) w'"
  shows "go_total (CallWebhook k tr templatePod revision prefer)"
proof -
  from owned_by_kind [OF assms(1)] assms(2) obtain p where "templatePod = Some p"
    by (auto simp: buildPodFromWorkload_def elim!: go_elims)
  then show ?thesis by (simp add: CallWebhook_total)
qed

lemma check_with_webhook_total:
  "owned_by k obj ref \<Longrightarrow>
     go_total (check_with_webhook k (CallWebhook k tr) p ref revOrTag cfg opts)"
  unfolding check_with_webhook_def
proof (intro go_total_intros)
  show "go_total (buildPodFromWorkload k ref)"
    unfolding buildPodFromWorkload_def by (intro go_total_intros)
qed (auto intro: CallWebhook_owned_total)

lemma processPod_total:
  assumes "wfp (\<lambda>nxt obj. next_object k obj nxt)"
  shows "go_total (processPodForOutdatedSidecar k (CallWebhook k tr) cfg opts p)"
  unfolding processPodForOutdatedSidecar_def
proof (intro go_total_intros findWorkloadOwner_total [OF assms])
  fix ref
  show "go_total (getIstioRevFromWorkloadOrNamespace k ref)"
    unfolding getIstioRevFromWorkloadOrNamespace_def by (intro go_total_intros)
qed (auto intro: check_with_webhook_total dest: findWorkloadOwner_owned_by)

lemma listPods_total: "go_total (listPods k rt opts)"
proof -
  have "go_total (list_namespaces k nss items)" for nss items
    by (induction nss arbitrary: items) (auto intro!: go_total_intros)
  then show ?thesis
    unfolding listPods_def by (auto intro!: go_total_intros split: list.split)
qed

lemma ScanOutdatedPods_total:
  assumes "wfp (\<lambda>nxt obj. next_object k obj nxt)"
  shows "go_total (ScanOutdatedPods k rt (Some (CallWebhook k tr)) cfg opts)"
  unfolding ScanOutdatedPods_def option.case scan_pods_pipeline
  by (intro go_total_intros listPods_total process_all_total processPod_total assms)

end

lemma annotate_from_total:
  "(\<And>ref. go_total (rc_annotator r ref)) \<Longrightarrow> go_total (annotate_from rt r i refs)"
  by (induction refs arbitrary: i)
    (auto simp: waitOrContextDone_def intro!: go_total_intros split: option.split)

lemma Annotate_total: "go_total (Annotate k rt cooldown ref)"
  unfolding Annotate_def in_cooldown_def getRestartedAt_def Let_def
  by (intro go_total_intros patchWithRetry_total)

lemma reconcileAll_total:
  assumes "\<And>cfg opts. go_total (ScanOutdatedPods (sc_client (rc_scanner r)) rt (sc_webhook_caller (rc_scanner r)) cfg opts)"
    and "\<And>ref. go_total (rc_annotator r ref)"
  shows "go_total (reconcileAll rt r limit)"
  unfolding reconcileAll_def awaitIstiodConfigReadDelay_def waitOrContextDone_def
    BuildLastModifiedByRevision_def FetchTagToRevisionAndLastModified_def scanAndAnnotate_def
    annotateWorkloadsWithDelay_def
  by (intro go_total_intros assms annotate_from_total)

lemma Reconcile_total:
  assumes "answering_webhook tr" and "wfp (\<lambda>nxt obj. next_object k obj nxt)"
  shows "go_total (Reconcile rt (NewIstioChangeReconciler k rt tr opts) req)"
proof -
  let ?r = "NewIstioChangeReconciler k rt tr opts"
  have parts: "rc_scanner ?r = NewPodScanner k tr" "rc_annotator ?r = Annotate k rt (ro_annotation_cooldown opts)"
    by (simp_all add: NewIstioChangeReconciler_def)
  show ?thesis
    unfolding Reconcile_def
    by (intro go_total_intros reconcileAll_total)
      (simp_all add: parts Annotate_total answering_webhook.ScanOutdatedPods_total [OF assms])
qed


section \<open>The run over the workloads\<close>

lemma annotate_from_all:
  assumes "rc_restart_delay r \<le> 0" and "\<not> rc_dry_run r"
  shows "annotate_from rt r i refs = go_bind (process_all (rc_annotator r) refs) (\<lambda>_. go_ret ())"
proof (induction refs arbitrary: i)
  case (Cons ref refs)
  show ?case
    unfolding annotate_from.simps process_all.simps Cons go_bind_assoc
    using assms by (simp add: go_bind_assoc)
qed simp

lemma annotate_from_cancelled:
  assumes "0 < rc_restart_delay r" and "0 < i" and "rtSelect rt (rc_restart_delay r) w = (CtxDone e, w')"
  shows "returns (annotate_from rt r i (ref # refs)) w () w'"
  using assms by (auto simp: waitOrContextDone_def intro!: returns_bindI)

end
