(* ===== verification/ScanExact.thy ===== *)
theory ScanExact
  imports ScanSpec
begin

text \<open>
  The scan on a cluster that stands still (\<open>snapshot\<close>): every read gives the same answer whenever
  it is made, and an object has at most one controller. There the scan is exact: it returns the
  names of precisely the workloads that own an outdated pod.
\<close>

section \<open>Calls that give one answer\<close>

definition steady :: "('w, 'a) go \<Rightarrow> bool" where
  "steady m \<longleftrightarrow> (\<exists>r. \<forall>w. m w = Some (r, w))"

lemma steady_returns: "steady m \<Longrightarrow> returns m w x w' \<Longrightarrow> returns m v x v \<and> w' = w"
  unfolding steady_def returns_def by auto

lemma steady_ret: "steady (go_ret x)"
  by (simp add: steady_def go_ret_def)

lemma steady_panic: "steady (go_panic msg)"
  by (simp add: steady_def go_panic_def)

lemma steady_bind:
  assumes "steady m" and "\<And>x. steady (f x)"
  shows "steady (go_bind m f)"
proof -
  from assms(1) obtain r where r: "\<And>w. m w = Some (r, w)" by (auto simp: steady_def)
  show ?thesis
  proof (cases r)
    case (Return x)
    with r assms(2) [of x] show ?thesis by (auto simp: steady_def go_bind_def)
  next
    case (Panic msg)
    with r show ?thesis by (auto simp: steady_def go_bind_def)
  qed
qed

lemma steady_case_sum:
  assumes "\<And>e. steady (A e)" and "\<And>x. steady (B x)"
  shows "steady (case r of Inl e \<Rightarrow> A e | Inr x \<Rightarrow> B x)"
  using assms by (cases r) simp_all

lemma steady_case_option:
  assumes "steady A" and "\<And>x. steady (B x)"
  shows "steady (case r of None \<Rightarrow> A | Some x \<Rightarrow> B x)"
  using assms by (cases r) simp_all

lemma steady_if: "steady A \<Longrightarrow> steady B \<Longrightarrow> steady (if c then A else B)"
  by simp

lemma steady_try:
  assumes "steady m" and "\<And>x. steady (f x)"
  shows "steady (go_try g m f)"
  unfolding go_try_def by (intro steady_bind steady_case_sum steady_ret assms)

lemma steady_case_prod:
  assumes "\<And>a b. steady (A a b)"
  shows "steady (case r of (a, b) \<Rightarrow> A a b)"
  using assms by (cases r) simp

lemmas steady_intros =
  steady_ret steady_panic steady_case_prod steady_bind steady_try steady_case_sum steady_case_option steady_if


section \<open>One controller\<close>

definition single_controller :: "object_meta \<Rightarrow> bool" where
  "single_controller obj \<longleftrightarrow> length (filter controls (om_owners obj)) \<le> 1"

lemma first_owner_no_controller:
  "filter controls owners = [] \<Longrightarrow> first_owner R owners = go_ret (Inr None)"
proof (induction owners)
  case (Cons owner owners)
  then show ?case unfolding first_owner_Cons by (auto split: if_splits)
qed simp

lemma first_owner_single:
  assumes "length (filter controls owners) \<le> 1" and "owner \<in> set owners" and "controls owner"
    and "returns (R owner) w (Inr (Some ref)) w'"
  shows "returns (first_owner R owners) w (Inr (Some ref)) w'"
  using assms
proof (induction owners)
  case (Cons o1 owners)
  show ?case
  proof (cases "controls o1")
    case False
    with Cons show ?thesis unfolding first_owner_Cons by auto
  next
    case True
    with Cons.prems(1) have "filter controls owners = []" by simp
    with Cons.prems(2,3) have "owner = o1" by (auto simp: filter_empty_conv)
    with True Cons.prems(4) show ?thesis
      unfolding first_owner_Cons by (auto intro: returns_bindI)
  qed
qed simp


section \<open>The scan of a snapshot\<close>

locale snapshot =
  fixes k :: "'w kube" and caller :: "'w webhook_caller"
  assumes steady_workload: "steady (go_call (kGetWorkload k ty nn))"
    and steady_replicaset: "steady (go_call (kGetReplicaSet k nn))"
    and steady_revision: "steady (go_call (kGetControllerRevision k nn))"
    and steady_namespace: "steady (go_call (kGetNamespace k ns))"
    and steady_caller: "steady (caller (Some p) revision prefer)"
    and fetched_single: "fetched k obj owner nxt \<Longrightarrow> single_controller nxt"
begin

lemma call_anywhere: "steady (go_call f) \<Longrightarrow> f w = (x, w') \<Longrightarrow> f v = (x, v)"
  using steady_returns [of "go_call f" w x w' v] by simp

lemma findWorkloadOwner_single:
  assumes "single_controller obj" and "owner \<in> set (om_owners obj)" and "controls owner"
    and "returns (resolveOwner k (findWorkloadOwner k) obj owner) v (Inr (Some ref)) v"
  shows "returns (findWorkloadOwner k obj) v (Inr (Some ref)) v"
proof -
  have "returns (first_owner (resolveOwner k (findWorkloadOwner k) obj) (om_owners obj)) v (Inr (Some ref)) v"
    using assms(1) first_owner_single [of "om_owners obj" owner, OF _ assms(2,3),
        where R = "resolveOwner k (findWorkloadOwner k) obj", OF _ assms(4)]
    by (simp add: single_controller_def)
  then show ?thesis using assms(2) by (subst findWorkloadOwner_unfold) auto
qed

lemma findWorkloadOwner_exact:
  assumes "owned_by k obj ref" and "single_controller obj"
  shows "returns (findWorkloadOwner k obj) v (Inr (Some ref)) v"
  using assms
proof (induction arbitrary: v rule: owned_by.induct)
  case (direct owner obj ty w wl w')
  from call_anywhere [OF steady_workload direct(4)]
  have get: "kGetWorkload k ty (owner_key obj owner) v = (Inr wl, v)" .
  from direct(3) have kind: "or_kind owner = ''Deployment'' \<and> ty = DeploymentT \<or>
      or_kind owner = ''StatefulSet'' \<and> ty = StatefulSetT \<or> or_kind owner = ''DaemonSet'' \<and> ty = DaemonSetT"
    by (auto simp: type_of_kind.simps split: if_splits)
  have "returns (resolveOwner k (findWorkloadOwner k) obj owner) v
      (Inr (Some \<lparr>wr_nn = owner_key obj owner, wr_kind = or_kind owner\<rparr>)) v"
    using kind get by (elim disjE) (auto simp: resolveOwner_def Let_def go_simps owner_key_def)
  with direct show ?case by (intro findWorkloadOwner_single)
next
  case (via owner obj nxt ref)
  from via(3) have inner: "returns (findWorkloadOwner k nxt) v (Inr (Some ref)) v"
    by (intro via fetched_single)
  from via(3) have "returns (resolveOwner k (findWorkloadOwner k) obj owner) v (Inr (Some ref)) v"
  proof (unfold fetched_def, elim disjE conjE exE)
    fix w w'
    assume "or_kind owner = ''ReplicaSet''" and get: "kGetReplicaSet k (owner_key obj owner) w = (Inr nxt, w')"
    with call_anywhere [OF steady_replicaset get, of v] inner show ?thesis
      by (fastforce simp: resolveOwner_def Let_def fetchIntermediateOwner_def getIntermediateObject_def
          owner_key_def returns_bind)
  next
    fix w w'
    assume "or_kind owner = ''ControllerRevision''"
      and get: "kGetControllerRevision k (owner_key obj owner) w = (Inr nxt, w')"
    with call_anywhere [OF steady_revision get, of v] inner show ?thesis
      by (fastforce simp: resolveOwner_def Let_def fetchIntermediateOwner_def getIntermediateObject_def
          owner_key_def returns_bind)
  qed
  with via show ?case by (intro findWorkloadOwner_single)
qed

lemma steady_get_rev: "steady (getIstioRevFromWorkloadOrNamespace k ref)"
  unfolding getIstioRevFromWorkloadOrNamespace_def
  by (intro steady_intros steady_workload steady_namespace)

lemma steady_build_pod: "steady (buildPodFromWorkload k ref)"
  unfolding buildPodFromWorkload_def by (intro steady_intros steady_workload)

text \<open>One pod: the scan names its workload exactly when it is outdated.\<close>

lemma check_with_webhook_exact:
  assumes "returns (buildPodFromWorkload k ref) w1 (Inr (Some tp)) w2"
    and "returns (caller (Some tp) (resolve_tag cfg revOrTag) (revOrTag = ''default'')) w3 (Inr mutated) w4"
    and "getIstioProxyImage mutated \<noteq> []"
    and "\<not> imagesMatch (getIstioProxyImage p) (getIstioProxyImage mutated) (so_compare_hub opts)"
  shows "returns (check_with_webhook k caller p ref revOrTag cfg opts) v (Some ref) v"
proof -
  have "compare_pods ref p mutated opts = Some ref" using assms(3,4) by (simp add: compare_pods_Some)
  with steady_returns [OF steady_build_pod assms(1), of v] steady_returns [OF steady_caller assms(2), of v]
  show ?thesis unfolding check_with_webhook_def by (auto intro!: returns_bindI)
qed

lemma owned_template:
  assumes "owned_by k obj ref" and "returns (buildPodFromWorkload k ref) w (Inr templatePod) w'"
  obtains tp where "templatePod = Some tp"
  using owned_by_kind [OF assms(1)] assms(2) by (auto simp: buildPodFromWorkload_def elim!: go_elims)

lemma processPod_exact:
  assumes "single_controller (p_meta p)" and "outdated k caller cfg opts p ref"
  shows "returns (processPodForOutdatedSidecar k caller cfg opts p) v (Some ref) v"
proof -
  from assms(2) have own: "owned_by k (p_meta p) ref" by (simp add: outdated_def)
  from assms(2) obtain revOrTag templatePod mutated w1 w2 w3 w4 w5 w6
    where rev: "returns (getIstioRevFromWorkloadOrNamespace k ref) w1 (Inr revOrTag) w2" "revOrTag \<noteq> []"
      "\<not> shouldSkipPodForLastModified p (resolve_tag cfg revOrTag) revOrTag cfg opts"
    and build: "returns (buildPodFromWorkload k ref) w3 (Inr templatePod) w4"
    and hook: "returns (caller templatePod (resolve_tag cfg revOrTag) (revOrTag = ''default'')) w5 (Inr mutated) w6"
      "getIstioProxyImage mutated \<noteq> []"
      "\<not> imagesMatch (getIstioProxyImage p) (getIstioProxyImage mutated) (so_compare_hub opts)"
    unfolding outdated_def by blast
  from owned_template [OF own build] obtain tp where "templatePod = Some tp" .
  with check_with_webhook_exact [of ref w3 tp w4] build hook
  have check: "returns (check_with_webhook k caller p ref revOrTag cfg opts) v (Some ref) v" by simp
  from findWorkloadOwner_exact [OF own assms(1)] steady_returns [OF steady_get_rev rev(1), of v] check rev(2,3)
  show ?thesis unfolding processPodForOutdatedSidecar_def by (auto intro!: returns_bindI)
qed

lemma process_all_exact:
  assumes "returns (process_all (processPodForOutdatedSidecar k caller cfg opts) pods) w rs w'"
    and "p \<in> set pods" and "single_controller (p_meta p)" and "outdated k caller cfg opts p ref"
  shows "Some ref \<in> set rs"
proof -
  from assms(2) obtain i where i: "i < length pods" "p = pods ! i" by (auto simp: in_set_conv_nth)
  from returns_process_all [OF assms(1)] i obtain v v' where len: "length rs = length pods"
    and "returns (processPodForOutdatedSidecar k caller cfg opts p) v (rs ! i) v'" by metis
  with processPod_exact [OF assms(3,4), of v] have "rs ! i = Some ref" by (auto dest: returns_unique)
  with i len show ?thesis by (metis nth_mem)
qed

lemma scan_pods_exact:
  assumes "returns (scan_pods (processPodForOutdatedSidecar k caller cfg opts) skipSet [] [] pods) w refs w'"
    and "p \<in> set pods" and "om_namespace (p_meta p) \<notin> set skipSet" and "single_controller (p_meta p)"
    and "outdated k caller cfg opts p ref"
  shows "wr_nn ref \<in> set (map wr_nn refs)"
proof -
  from assms(1) obtain rs where rs: "returns (process_all (processPodForOutdatedSidecar k caller cfg opts)
      (scanned skipSet pods)) w rs w'" and refs: "refs = keep_first [] (somes rs)"
    unfolding scan_pods_pipeline by (auto elim!: returns_bindE)
  have "Some ref \<in> set rs"
    using assms by (intro process_all_exact [OF rs]) (auto simp: scanned_def)
  then have "wr_nn ref \<in> set (map wr_nn (somes rs))" by force
  then show ?thesis unfolding refs keep_first_names by simp
qed

end

text \<open>The webhook client on a cluster that stands still gives one answer too.\<close>

locale still_cluster =
  fixes k :: "'w kube" and tr :: "'w transport"
  assumes still_workload: "steady (go_call (kGetWorkload k ty nn))"
    and still_replicaset: "steady (go_call (kGetReplicaSet k nn))"
    and still_revision: "steady (go_call (kGetControllerRevision k nn))"
    and still_namespace: "steady (go_call (kGetNamespace k ns))"
    and still_mwc: "steady (go_call (kGetMWC k name))"
    and still_exchange: "steady (go_call (trDo tr client url body))"
    and still_single: "fetched k obj owner nxt \<Longrightarrow> single_controller nxt"
begin

lemma steady_CallWebhook: "steady (CallWebhook k tr podp revision prefer)"
  unfolding CallWebhook_def getWebhookURLAndCABundle_def getCABundleForRevision_def send_review_def
    handle_response_def Let_def
  by (intro steady_intros still_mwc still_exchange)

end

sublocale still_cluster \<subseteq> snapshot k "CallWebhook k tr"
  by unfold_locales
    (auto intro: still_workload still_replicaset still_revision still_namespace steady_CallWebhook still_single)

context still_cluster begin

lemma scan_exact:
  assumes "returns (scan_pods (processPodForOutdatedSidecar k (CallWebhook k tr) cfg opts) skipSet [] [] pods) w refs w'"
    and "p \<in> set pods" and "om_namespace (p_meta p) \<notin> set skipSet" and "single_controller (p_meta p)"
    and "outdated k (CallWebhook k tr) cfg opts p ref"
  shows "wr_nn ref \<in> set (map wr_nn refs)"
  using assms by (rule scan_pods_exact)

end

end
