(* ===== verification/Cooldown.thy ===== *)
theory Cooldown
  imports Restarts
begin

text \<open>
  The annotator's answers: when it leaves a workload alone, what it sends when it does not, and
  why a second call soon after a successful one sends nothing (\<open>merge_patch_api\<close>).
\<close>

section \<open>Branches\<close>

lemma in_cooldown_recent:
  assumes "0 < cooldown" and "type_of_kind (wr_kind ref) = Some ty"
    and "kGetWorkload k ty (wr_nn ref) w = (Inr wl, w1)"
    and "\<not> is_zero (restarted_at (wl_template wl))"
    and "rtNow rt w1 = (now, w2)"
  shows "returns (in_cooldown k rt cooldown ref) w
    (Inr (time_sub now (restarted_at (wl_template wl)) < cooldown)) w2"
proof -
  have "returns (getRestartedAt k ref) w (Inr (restarted_at (wl_template wl))) w1"
    using assms by (auto simp: getRestartedAt_def intro!: returns_tryI)
  then show ?thesis
    using assms by (auto simp: in_cooldown_def intro!: returns_tryI returns_bindI)
qed

lemma Annotate_skips:
  assumes "returns (in_cooldown k rt cooldown ref) w (Inr True) w'"
  shows "returns (Annotate k rt cooldown ref) w (Inr False) w'"
  using assms unfolding Annotate_def by (auto intro!: returns_tryI)

lemma Annotate_cooldown:
  assumes "0 < cooldown" and "type_of_kind (wr_kind ref) = Some ty"
    and "kGetWorkload k ty (wr_nn ref) w = (Inr wl, w1)"
    and "\<not> is_zero (restarted_at (wl_template wl))"
    and "rtNow rt w1 = (now, w2)" and "time_sub now (restarted_at (wl_template wl)) < cooldown"
  shows "returns (Annotate k rt cooldown ref) w (Inr False) w2"
  using in_cooldown_recent [OF assms(1-5)] assms(6) by (intro Annotate_skips) simp

lemma returns_retry_None:
  assumes "returns (retry_after rt patch again) w None w'"
  obtains v where "returns patch v None w'" | v where "returns again v None w'"
  using assms unfolding retry_after_def
  by (auto elim!: returns_bindE split: if_splits option.splits select_outcome.splits)

lemma patchWithRetry_None:
  "returns (patchWithRetry rt patch) w None w' \<Longrightarrow> \<exists>v. returns patch v None w'"
  unfolding patchWithRetry_three by (blast elim: returns_retry_None)

text \<open>A call that reports an annotation ends with a patch that went through.\<close>

lemma Annotate_TrueE:
  assumes "returns (Annotate k rt cooldown ref) w (Inr True) w'"
  obtains ty now v v1 u where "type_of_kind (wr_kind ref) = Some ty"
    and "rtNow rt v = (now, v1)"
    and "kMergePatch k ty (wr_nn ref) (restart_patch (format_rfc3339 now)) u = (None, w')"
proof -
  from assms obtain skip v where s: "returns (if skip then go_ret (Inr False)
          else go_bind (go_call (rtNow rt))
            (\<lambda>now.
               let patch = restart_patch (format_rfc3339 now)
               in case type_of_kind (wr_kind ref) of
                    None \<Rightarrow> go_ret (Inr False)
                  | Some ty \<Rightarrow>
                      go_bind (patchWithRetry rt (go_call (kMergePatch k ty (wr_nn ref) patch)))
                        (\<lambda>err. go_ret (case err of None \<Rightarrow> Inr True | Some e \<Rightarrow> Inl e))))
       v (Inr True) w'"
    unfolding Annotate_def by (auto elim!: returns_tryE)
  from s have "\<not> skip" by (cases skip) auto
  with s obtain now v1 where now: "rtNow rt v = (now, v1)"
    and rest: "returns (case type_of_kind (wr_kind ref) of
                    None \<Rightarrow> go_ret (Inr False)
                  | Some ty \<Rightarrow>
                      go_bind (patchWithRetry rt (go_call (kMergePatch k ty (wr_nn ref)
                          (restart_patch (format_rfc3339 now)))))
                        (\<lambda>err. go_ret (case err of None \<Rightarrow> Inr True | Some e \<Rightarrow> Inl e))) v1 (Inr True) w'"
    by (auto simp: Let_def elim!: returns_bindE)
  from rest obtain ty where ty: "type_of_kind (wr_kind ref) = Some ty"
    by (auto split: option.splits)
  with rest obtain err where err: "returns (patchWithRetry rt (go_call (kMergePatch k ty (wr_nn ref)
        (restart_patch (format_rfc3339 now))))) v1 err w'"
      "(case err of None \<Rightarrow> Inr True | Some e \<Rightarrow> Inl e) = Inr True"
    by (auto elim!: returns_bindE)
  then have "err = None" by (cases err) auto
  with err patchWithRetry_None obtain u
    where "kMergePatch k ty (wr_nn ref) (restart_patch (format_rfc3339 now)) u = (None, w')"
    by fastforce
  with ty now show thesis by (rule that)
qed


section \<open>Reading back\<close>

text \<open>
  What the API server documents about a merge patch that went through: the annotation it sets
  is in the object read right after it. And what a clock in the program's lifetime shows.
\<close>

locale merge_patch_api =
  fixes k :: "'w kube"
  assumes read_back: "kMergePatch k ty nn (restart_patch v) w = (None, w1) \<Longrightarrow>
    kGetWorkload k ty nn w1 = (Inr wl, w2) \<Longrightarrow>
    pt_annotations (wl_template wl) RestartedAtAnnotation = Some v"
begin

lemma format_not_Nil: "format_rfc3339 t \<noteq> []"
  by (simp add: format_rfc3339_def Let_def split: prod.split)

lemma restarted_at_after_patch:
  assumes "kMergePatch k ty nn (restart_patch (format_rfc3339 t)) w = (None, w1)"
    and "kGetWorkload k ty nn w1 = (Inr wl, w2)" and "0 \<le> year_of t" and "year_of t \<le> 9999"
  shows "restarted_at (wl_template wl) = t - t mod second"
  using read_back [OF assms(1,2)] parse_format [OF assms(3,4)] format_not_Nil [of t]
  by (simp add: restarted_at_def)

end

text \<open>\<open>clock_within rt lo hi\<close>: the clock shows times from \<open>lo\<close> to \<open>hi\<close>, in years of four digits.\<close>

definition clock_within :: "'w runtime \<Rightarrow> gotime \<Rightarrow> gotime \<Rightarrow> bool" where
  "clock_within rt lo hi \<longleftrightarrow>
     (\<forall>w now w'. rtNow rt w = (now, w') \<longrightarrow> lo \<le> now \<and> now \<le> hi \<and> 0 \<le> year_of now \<and> year_of now \<le> 9999)"

context merge_patch_api begin

lemma Annotate_again:
  assumes "clock_within rt lo hi" and "second < lo" and "hi - lo < cooldown - second" and "is_duration cooldown"
    and "returns (Annotate k rt cooldown ref) w (Inr True) w1"
    and "type_of_kind (wr_kind ref) = Some ty" and "kGetWorkload k ty (wr_nn ref) w1 = (Inr wl, w2)"
  shows "\<exists>w3. rtNow rt w2 = (fst (rtNow rt w2), w3) \<and> returns (Annotate k rt cooldown ref) w1 (Inr False) w3"
proof -
  obtain now w3 where now: "rtNow rt w2 = (now, w3)" by force
  obtain t v v1 u where t: "rtNow rt v = (t, v1)"
    and p: "kMergePatch k ty (wr_nn ref) (restart_patch (format_rfc3339 t)) u = (None, w1)"
    using Annotate_TrueE [OF assms(5)] assms(6) by (metis option.inject)
  from assms(1) now t have bounds: "lo \<le> t" "t \<le> hi" "now \<le> hi" "0 \<le> year_of t" "year_of t \<le> 9999"
    unfolding clock_within_def by blast+
  have at: "restarted_at (wl_template wl) = t - t mod second"
    by (rule restarted_at_after_patch [OF p assms(7) bounds(4,5)])
  have cut: "0 \<le> t mod second" "t mod second < second" by simp_all
  have pos: "0 < cooldown" "min_duration < cooldown"
    using bounds assms(3) by (simp_all add: min_duration_def)
  have "now < t - t mod second + cooldown" using bounds cut assms(3) by linarith
  then have "time_sub now (restarted_at (wl_template wl)) < cooldown"
    using time_sub_less_iff [OF assms(4) pos(2)] at by simp
  moreover have "\<not> is_zero (restarted_at (wl_template wl))"
    using at bounds cut assms(2) by (simp add: is_zero_def zero_time_def)
  ultimately have "returns (Annotate k rt cooldown ref) w1 (Inr False) w3"
    using Annotate_cooldown [OF pos(1) assms(6,7) _ now] by blast
  with now show ?thesis by simp
qed

end

end
