(* ===== verification/Outcomes.thy ===== *)
theory Outcomes
  imports ReconcilerSpec ScanExact Cooldown
begin

text \<open>
  How a reconciliation ends and what it leaves: the four ways in which it can fail, none of them
  the fault of a single pod or workload (\<open>failure_at\<close>); the part of the world that neither reads
  nor restarts touch (\<open>reconciling\<close>); and that on a cluster that stands still no outdated
  workload is passed over.
\<close>

section \<open>Failures\<close>

text \<open>An operation that fails in the world \<open>v\<close> and makes a reconciliation fail with the error \<open>e\<close>.\<close>

definition failure_at :: "'w kube \<Rightarrow> 'w runtime \<Rightarrow> duration \<Rightarrow> 'w \<Rightarrow> goerror \<Rightarrow> bool" where
  "failure_at k rt delay v e \<longleftrightarrow>
     (\<exists>err. fst (rtSelect rt delay v) = CtxDone err \<and> e = Wrap ''await istiod config read delay: '' err) \<or>
     (\<exists>err. fst (kListConfigMaps k (Some IstioSystemNamespace) v) = Inl err \<and>
        e = Wrap (''list ConfigMaps in '' @ IstioSystemNamespace @ '': '') err) \<or>
     (\<exists>err. fst (kListMWCs k v) = Inl err \<and>
        e = Wrap ''fetch tag-to-revision mapping: '' (Wrap ''list MutatingWebhookConfigurations: '' err)) \<or>
     (\<exists>nso err. fst (kListPods k nso v) = Inl err \<and>
        e = Wrap ''scan outdated pods: ''
              (Wrap (case nso of None \<Rightarrow> ''list pods: '' | Some ns \<Rightarrow> ''list pods in '' @ ns @ '': '') err))"

text \<open>A listing of pods that fails, with its error.\<close>

definition list_failure :: "'w kube \<Rightarrow> 'w \<Rightarrow> goerror \<Rightarrow> bool" where
  "list_failure k v e \<longleftrightarrow>
     (\<exists>nso err. fst (kListPods k nso v) = Inl err \<and>
        e = Wrap (case nso of None \<Rightarrow> ''list pods: '' | Some ns \<Rightarrow> ''list pods in '' @ ns @ '': '') err)"

lemma list_failureI:
  "kListPods k (Some ns) v = (Inl err, v') \<Longrightarrow> list_failure k v (Wrap (''list pods in '' @ ns @ '': '') err)"
  "kListPods k None v = (Inl err, v') \<Longrightarrow> list_failure k v (Wrap ''list pods: '' err)"
  unfolding list_failure_def by (force intro: exI [of _ "Some ns"], force intro: exI [of _ None])

context reading begin

lemma list_namespaces_error:
  "returns (list_namespaces k nss items) w (Inl e) w' \<Longrightarrow> P w \<Longrightarrow> \<exists>v. P v \<and> list_failure k v e"
proof (induction nss arbitrary: items w)
  case (Cons ns nss)
  from Cons.prems(1) show ?case
    unfolding list_namespaces.simps
  proof (cases rule: returns_tryE)
    case (fail err)
    with Cons.prems(2) list_failureI(1) [of k ns w err w'] show ?thesis by auto
  next
    case (ok new w1)
    from preserves_returns [OF list_pods ok(1) Cons.prems(2)] have "P w1" .
    with ok(2) show ?thesis by (rule Cons.IH)
  qed
qed simp

lemma listPods_error:
  assumes "returns (listPods k rt opts) w (Inl e) w'" and "P w"
  shows "\<exists>v. P v \<and> list_failure k v e"
proof (cases "so_limit_to_namespaces opts" rule: remdups_adj.cases)
  case 1
  with assms show ?thesis by (fastforce simp: listPods_def elim!: returns_tryE dest: list_failureI)
next
  case (2 ns)
  with assms show ?thesis by (fastforce simp: listPods_def elim!: returns_tryE dest: list_failureI)
next
  case (3 ns ns' nss)
  with assms(1) obtain visited w1
    where v: "returns (go_call (rtRange rt (limit_set (so_limit_to_namespaces opts)))) w visited w1"
      and l: "returns (list_namespaces k visited []) w1 (Inl e) w'"
    by (auto simp: listPods_def elim!: returns_bindE)
  from list_namespaces_error [OF l preserves_returns [OF range v assms(2)]] show ?thesis .
qed

lemma scan_error:
  assumes "returns (ScanOutdatedPods k rt (Some caller) cfg opts) w (Inl e) w'" and "P w"
  shows "\<exists>v. P v \<and> list_failure k v e"
  using assms unfolding ScanOutdatedPods_def option.case
  by (auto elim!: returns_tryE returns_bindE dest: listPods_error)

lemma await_error:
  assumes "returns (awaitIstiodConfigReadDelay rt r) w (Some err) w'"
  shows "fst (rtSelect rt (rc_istiod_config_read_delay r) w) = CtxDone err"
  using assms
  by (auto simp: awaitIstiodConfigReadDelay_def waitOrContextDone_def elim!: returns_bindE
      split: if_splits select_outcome.splits)

lemma await_keeps: "preserves P (awaitIstiodConfigReadDelay rt r)"
  unfolding awaitIstiodConfigReadDelay_def waitOrContextDone_def by (intro preserves_intros select)

lemma scanAndAnnotate_error:
  assumes "returns (scanAndAnnotate rt r cfg limit) w (Inl e) w'" and "P w" and "rc_scanner r = NewPodScanner k tr"
  shows "\<exists>v. P v \<and> failure_at k rt delay v e"
proof -
  from assms(1,3) obtain e0 where "returns (ScanOutdatedPods k rt (Some (CallWebhook k tr)) cfg (scan_options_of r limit)) w (Inl e0) w'"
    and e: "e = Wrap ''scan outdated pods: '' e0"
    by (auto simp: scanAndAnnotate_def elim!: returns_tryE returns_bindE)
  from scan_error [OF this(1) assms(2)] obtain v where "P v" "list_failure k v e0" by blast
  with e show ?thesis unfolding failure_at_def list_failure_def by blast
qed

lemma reconcileAll_error:
  assumes "returns (reconcileAll rt r limit) w (Inl e) w'" and "P w"
    and "rc_client r = k" and "rc_scanner r = NewPodScanner k tr"
  shows "\<exists>v. P v \<and> failure_at k rt (rc_istiod_config_read_delay r) v e"
proof -
  from assms(1) obtain x w1 where wait: "returns (awaitIstiodConfigReadDelay rt r) w x w1"
    and rest: "returns (case x of Some err \<Rightarrow> go_ret (Inl (Wrap ''await istiod config read delay: '' err))
        | None \<Rightarrow> go_try (\<lambda>err. err) (BuildLastModifiedByRevision (rc_client r))
              (\<lambda>lastModifiedByRevision. go_try (Wrap ''fetch tag-to-revision mapping: '')
                   (FetchTagToRevisionAndLastModified (rc_client r))
                   (\<lambda>(tagToRevision, lastModifiedByTag). scanAndAnnotate rt r
                        \<lparr>ic_last_modified_by_revision = lastModifiedByRevision,
                         ic_tag_to_revision = tagToRevision, ic_last_modified_by_tag = lastModifiedByTag\<rparr> limit)))
       w1 (Inl e) w'"
    unfolding reconcileAll_def by (rule returns_bindE)
  have P1: "P w1" using preserves_returns [OF await_keeps wait assms(2)] .
  show ?thesis
  proof (cases x)
    case (Some err)
    with rest await_error [of r w err w1] wait assms(2) show ?thesis by (auto simp: failure_at_def)
  next
    case None
    with rest assms(3) consider
        "returns (BuildLastModifiedByRevision k) w1 (Inl e) w'"
      | m w2 e0 where "returns (BuildLastModifiedByRevision k) w1 (Inr m) w2"
          "returns (FetchTagToRevisionAndLastModified k) w2 (Inl e0) w'" "e = Wrap ''fetch tag-to-revision mapping: '' e0"
      | m w2 tags w3 cfg where "returns (BuildLastModifiedByRevision k) w1 (Inr m) w2"
          "returns (FetchTagToRevisionAndLastModified k) w2 (Inr tags) w3"
          "returns (scanAndAnnotate rt r cfg limit) w3 (Inl e) w'"
      by (auto elim!: returns_tryE)
    then show ?thesis
    proof cases
      case 1
      with P1 show ?thesis
        by (force simp: BuildLastModifiedByRevision_def failure_at_def elim!: returns_tryE)
    next
      case 2
      with preserves_returns [OF build_last_modified_keeps 2(1) P1] show ?thesis
        by (force simp: FetchTagToRevisionAndLastModified_def failure_at_def elim!: returns_tryE)
    next
      case 3
      from preserves_returns [OF fetch_tags_keeps 3(2) preserves_returns [OF build_last_modified_keeps 3(1) P1]]
      show ?thesis by (rule scanAndAnnotate_error [OF 3(3) _ assms(4)])
    qed
  qed
qed

lemma Reconcile_fails_at:
  assumes "returns (Reconcile rt (NewIstioChangeReconciler k rt tr opts) req) w (Inl e) w'" and "P w"
  shows "\<exists>v. P v \<and> failure_at k rt (ro_istiod_config_read_delay opts) v e"
proof -
  let ?r = "NewIstioChangeReconciler k rt tr opts"
  have "rc_client ?r = k" "rc_scanner ?r = NewPodScanner k tr"
    "rc_istiod_config_read_delay ?r = ro_istiod_config_read_delay opts"
    by (simp_all add: NewIstioChangeReconciler_def)
  with assms reconcileAll_error [of ?r _ w e w'] show ?thesis
    by (auto simp: Reconcile_def split: if_splits)
qed

end

text \<open>A reconciliation that comes back, in a world where none of the four fails, succeeds.\<close>

lemma no_failure_at:
  assumes "\<And>d. fst (rtSelect rt d v) = TimerFired" and "\<And>ns. isl (fst (kListConfigMaps k ns v)) = False"
    and "isl (fst (kListMWCs k v)) = False" and "\<And>nso. isl (fst (kListPods k nso v)) = False"
  shows "\<not> failure_at k rt delay v e"
  using assms unfolding failure_at_def by (metis isl_def select_outcome.distinct(1))


section \<open>What is left alone\<close>

text \<open>
  \<open>annotating\<close>: the reads and one call of the annotator keep \<open>P\<close>; then a reconciliation does.
\<close>

locale annotating = reading k tr rt P
  for k :: "'w kube" and tr :: "'w transport" and rt :: "'w runtime" and P :: "'w \<Rightarrow> bool" +
  fixes cooldown :: duration
  assumes annotate_keeps: "preserves P (Annotate k rt cooldown ref)"
begin

lemma annotate_from_keeps:
  "rc_annotator r = Annotate k rt cooldown \<Longrightarrow> preserves P (annotate_from rt r i refs)"
  by (induction refs arbitrary: i)
    (auto simp: waitOrContextDone_def intro!: preserves_intros select annotate_keeps split: option.split)

lemma reconcileAll_keeps:
  assumes "rc_client r = k" and "rc_scanner r = NewPodScanner k tr" and "rc_annotator r = Annotate k rt cooldown"
  shows "preserves P (reconcileAll rt r limit)"
  unfolding reconcileAll_def scanAndAnnotate_def annotateWorkloadsWithDelay_def assms(1,2) NewPodScanner_simps
  by (intro preserves_intros await_keeps build_last_modified_keeps fetch_tags_keeps scan_outdated_keeps
      annotate_from_keeps [OF assms(3)])

lemma Reconcile_keeps:
  assumes "ro_annotation_cooldown opts = cooldown"
  shows "preserves P (Reconcile rt (NewIstioChangeReconciler k rt tr opts) req)"
  unfolding Reconcile_def
  by (intro preserves_intros reconcileAll_keeps) (simp_all add: NewIstioChangeReconciler_def assms)

end

text \<open>\<open>reconciling\<close>: the one write, a restart patch, keeps \<open>P\<close>; then a call of the annotator does.\<close>

locale reconciling = reading k tr rt P
  for k :: "'w kube" and tr :: "'w transport" and rt :: "'w runtime" and P :: "'w \<Rightarrow> bool" +
  assumes restart_keeps: "preserves P (go_call (kMergePatch k ty nn (restart_patch (format_rfc3339 t))))"
begin

lemma Annotate_keeps: "preserves P (Annotate k rt cooldown ref)"
  unfolding Annotate_def in_cooldown_def getRestartedAt_def Let_def
  by (intro preserves_intros patchWithRetry_preserves restart_keeps reads now select)

end

sublocale reconciling \<subseteq> annotates: annotating k tr rt P cooldown for cooldown
  by unfold_locales (rule Annotate_keeps)

context reconciling begin

lemma Reconcile_keeps: "preserves P (Reconcile rt (NewIstioChangeReconciler k rt tr opts) req)"
  by (rule annotates.Reconcile_keeps) (rule refl)

end


section \<open>No outdated workload is passed over\<close>

text \<open>
  \<open>attended\<close>: the patches \<open>es\<close> hold a restart of the workload, or its cooldown check said to skip
  it, or the check failed.
\<close>

definition attended :: "'w kube \<Rightarrow> 'w runtime \<Rightarrow> duration \<Rightarrow> patch_entry list \<Rightarrow> workload_ref \<Rightarrow> bool" where
  "attended k rt cooldown es ref \<longleftrightarrow>
     (\<exists>e \<in> set es. restarts ref e) \<or>
     (\<exists>v v' r. returns (in_cooldown k rt cooldown ref) v r v' \<and> r \<noteq> Inr False)"

text \<open>\<open>config_read\<close>: the tables a scan uses, as two reads of the API server give them.\<close>

definition config_read :: "'w kube \<Rightarrow> istio_config \<Rightarrow> bool" where
  "config_read k cfg \<longleftrightarrow>
     (\<exists>v v'. returns (BuildLastModifiedByRevision k) v (Inr (ic_last_modified_by_revision cfg)) v') \<and>
     (\<exists>v v'. returns (FetchTagToRevisionAndLastModified k) v
        (Inr (ic_tag_to_revision cfg, ic_last_modified_by_tag cfg)) v')"

text \<open>\<open>uninterrupted\<close>: a pause of this length is never cut short.\<close>

definition uninterrupted :: "'w runtime \<Rightarrow> duration \<Rightarrow> bool" where
  "uninterrupted rt d \<longleftrightarrow> d \<le> 0 \<or> (\<forall>v. fst (rtSelect rt d v) = TimerFired)"

context patch_log begin

lemma Annotate_attends:
  assumes "returns (Annotate k rt cooldown ref) v x v'" and "type_of_kind (wr_kind ref) = Some ty"
    and "log v' = log v @ es"
  shows "attended k rt cooldown es ref"
proof -
  from assms(1) show ?thesis
    unfolding Annotate_def
  proof (cases rule: returns_tryE)
    case (fail e)
    then show ?thesis by (force simp: attended_def)
  next
    case (ok skip v1)
    show ?thesis
    proof (cases skip)
      case True
      with ok show ?thesis by (force simp: attended_def)
    next
      case False
      with ok(2) assms(2) obtain now v2 err v3 where now: "returns (go_call (rtNow rt)) v1 now v2"
        and p: "returns (patchWithRetry rt (go_call (kMergePatch k ty (wr_nn ref) (restart_patch (format_rfc3339 now))))) v2 err v'"
        by (auto simp: Let_def elim!: returns_bindE)
      let ?e = "(ty, wr_nn ref, restart_patch (format_rfc3339 now))"
      have "log v1 = log v"
        using preserves_returns [OF in_cooldown_keeps ok(1)] by blast
      moreover have "log v2 = log v1"
        using preserves_returns [OF runtime_keeps.now [OF runtime] now] by blast
      moreover have "emits log (\<lambda>es. es = [?e]) (go_call (kMergePatch k ty (wr_nn ref) (restart_patch (format_rfc3339 now))))"
        by (auto simp: emits_def go_call_def split: prod.splits dest: patch)
      then obtain i where "log v' = log v2 @ replicate (Suc i) ?e"
        using emitsE [OF patchWithRetry_emits p [unfolded returns_def]] by blast
      ultimately have "es = replicate (Suc i) ?e" using assms(3) by simp
      then show ?thesis using assms(2) by (auto simp: attended_def restarts_def)
    qed
  qed
qed

lemma attended_mono: "attended k rt cooldown es ref \<Longrightarrow> set es \<subseteq> set fs \<Longrightarrow> attended k rt cooldown fs ref"
  unfolding attended_def by blast

lemma pause_uninterrupted:
  assumes "uninterrupted rt d" and "returns (if 0 < i \<and> 0 < d then waitOrContextDone rt d else go_ret None) w err w'"
  shows "err = None"
proof (cases "0 < i \<and> 0 < d")
  case True
  with assms have "fst (rtSelect rt d w) = TimerFired" by (auto simp: uninterrupted_def)
  with True assms(2) show ?thesis by (auto simp: waitOrContextDone_def elim!: returns_bindE)
qed (use assms(2) in auto)

lemma annotate_from_attends:
  assumes "rc_annotator r = Annotate k rt cooldown" and "\<not> rc_dry_run r" and "uninterrupted rt (rc_restart_delay r)"
  shows "returns (annotate_from rt r i refs) w u w' \<Longrightarrow> \<forall>ref \<in> set refs. type_of_kind (wr_kind ref) \<noteq> None \<Longrightarrow>
     \<exists>es. log w' = log w @ es \<and> (\<forall>ref \<in> set refs. attended k rt cooldown es ref)"
proof (induction refs arbitrary: i w)
  case (Cons ref refs)
  from Cons.prems(1) obtain err w1 where pause: "returns (if 0 < i \<and> 0 < rc_restart_delay r
        then waitOrContextDone rt (rc_restart_delay r) else go_ret None) w err w1"
    and go: "returns (case err of Some _ \<Rightarrow> go_ret () | None \<Rightarrow> if rc_dry_run r then annotate_from rt r (Suc i) refs
        else go_bind (rc_annotator r ref) (\<lambda>_. annotate_from rt r (Suc i) refs)) w1 u w'"
    unfolding annotate_from.simps by (rule returns_bindE)
  have "log w1 = log w"
    using emitsE [OF restarter.pause_emits pause [unfolded returns_def]] by auto
  moreover from go assms(1,2) pause_uninterrupted [OF assms(3) pause] obtain x w2
    where one: "returns (Annotate k rt cooldown ref) w1 x w2" and rest: "returns (annotate_from rt r (Suc i) refs) w2 u w'"
    by (auto elim!: returns_bindE)
  moreover obtain es where es: "log w2 = log w1 @ es"
    using emitsE [OF Annotate_emits one [unfolded returns_def]] by blast
  moreover from Cons.prems(2) obtain ty where "type_of_kind (wr_kind ref) = Some ty" by auto
  from Annotate_attends [OF one this es] have now: "attended k rt cooldown es ref" .
  moreover from Cons.IH [OF rest] Cons.prems(2) obtain fs where "log w' = log w2 @ fs"
    and "\<forall>ref \<in> set refs. attended k rt cooldown fs ref" by auto
  ultimately show ?case by (intro exI [of _ "es @ fs"]) (auto intro: attended_mono)
qed simp

end

context installation begin

lemma scanAndAnnotate_attends:
  assumes r: "r = NewIstioChangeReconciler k rt tr opts" and "\<not> ro_dry_run opts" and "uninterrupted rt (ro_restart_delay opts)"
    and "returns (scanAndAnnotate rt r cfg limit) w (Inr ()) w'"
  shows "\<exists>refs w1 es. returns (ScanOutdatedPods k rt (Some (CallWebhook k tr)) cfg (scan_options_of r limit)) w (Inr refs) w1 \<and>
    log w' = log w @ es \<and>
    ((\<forall>ref \<in> set refs. type_of_kind (wr_kind ref) \<noteq> None) \<longrightarrow> (\<forall>ref \<in> set refs. attended k rt (ro_annotation_cooldown opts) es ref))"
proof -
  have parts: "sc_client (rc_scanner r) = k" "sc_webhook_caller (rc_scanner r) = Some (CallWebhook k tr)"
    "rc_annotator r = Annotate k rt (ro_annotation_cooldown opts)" "\<not> rc_dry_run r" "uninterrupted rt (rc_restart_delay r)"
    using assms(2,3) by (simp_all add: r NewIstioChangeReconciler_def)
  from assms(4) obtain refs w1 u where scan: "returns (ScanOutdatedPods k rt (Some (CallWebhook k tr)) cfg (scan_options_of r limit)) w (Inr refs) w1"
    and ann: "returns (annotateWorkloadsWithDelay rt r refs) w1 u w'"
    unfolding scanAndAnnotate_def parts by (auto elim!: returns_tryE returns_bindE)
  have log1: "log w1 = log w" using preserves_returns [OF scan_keeps_log scan] by blast
  have "emits log (restart_run refs) (annotate_from rt r 0 refs)"
    using restarter.annotate_from_emits parts(3) by blast
  from emitsE [OF this ann [unfolded annotateWorkloadsWithDelay_def returns_def]]
  obtain es where es: "log w' = log w1 @ es" by blast
  with annotate_from_attends [OF parts(3-5) ann [unfolded annotateWorkloadsWithDelay_def]] log1 scan show ?thesis by fastforce
qed

lemma reconcileAll_attends:
  assumes r: "r = NewIstioChangeReconciler k rt tr opts" and "\<not> ro_dry_run opts" and "uninterrupted rt (ro_restart_delay opts)"
    and "returns (reconcileAll rt r limit) w (Inr ()) w'"
  shows "\<exists>cfg refs v v' es. config_read k cfg \<and>
    returns (ScanOutdatedPods k rt (Some (CallWebhook k tr)) cfg (scan_options_of r limit)) v (Inr refs) v' \<and>
    log w' = log w @ es \<and>
    ((\<forall>ref \<in> set refs. type_of_kind (wr_kind ref) \<noteq> None) \<longrightarrow> (\<forall>ref \<in> set refs. attended k rt (ro_annotation_cooldown opts) es ref))"
proof -
  have client: "rc_client r = k" by (simp add: r NewIstioChangeReconciler_def)
  from assms(4) obtain w1 lm w2 tags times w3 where wait: "returns (awaitIstiodConfigReadDelay rt r) w None w1"
    and build: "returns (BuildLastModifiedByRevision k) w1 (Inr lm) w2"
    and fetch: "returns (FetchTagToRevisionAndLastModified k) w2 (Inr (tags, times)) w3"
    and scan: "returns (scanAndAnnotate rt r \<lparr>ic_last_modified_by_revision = lm, ic_tag_to_revision = tags,
         ic_last_modified_by_tag = times\<rparr> limit) w3 (Inr ()) w'"
    unfolding reconcileAll_def client
    by (auto elim!: returns_bindE returns_tryE split: option.splits)
  have "log w3 = log w"
    using preserves_returns [OF await_keeps_log wait] preserves_returns [OF build_keeps_log build]
      preserves_returns [OF fetch_keeps_log fetch] by metis
  moreover have "config_read k \<lparr>ic_last_modified_by_revision = lm, ic_tag_to_revision = tags, ic_last_modified_by_tag = times\<rparr>"
    using build fetch by (auto simp: config_read_def)
  ultimately show ?thesis
    using scanAndAnnotate_attends [OF assms(1-3) scan] by metis
qed

lemma Reconcile_attends:
  assumes "still_cluster k tr" and "\<not> ro_dry_run opts" and "uninterrupted rt (ro_restart_delay opts)"
    and "returns (reconcileAll rt (NewIstioChangeReconciler k rt tr opts) limit) w (Inr ()) w'"
    and "so = scan_options_of (NewIstioChangeReconciler k rt tr opts) limit"
  shows "\<exists>cfg pods v v' es. config_read k cfg \<and> returns (listPods k rt so) v (Inr pods) v' \<and> log w' = log w @ es \<and>
    (\<forall>p \<in> set pods. \<forall>ref. om_namespace (p_meta p) \<notin> set (ro_skip_namespaces opts) \<longrightarrow> single_controller (p_meta p) \<longrightarrow>
       outdated k (CallWebhook k tr) cfg so p ref \<longrightarrow>
       (\<exists>p' \<in> set pods. \<exists>ref'. wr_nn ref' = wr_nn ref \<and> outdated k (CallWebhook k tr) cfg so p' ref' \<and>
          attended k rt (ro_annotation_cooldown opts) es ref'))"
proof -
  have skips: "so_skip_namespaces so = ro_skip_namespaces opts"
    by (simp add: assms(5) scan_options_of_def NewIstioChangeReconciler_def)
  from reconcileAll_attends [OF refl assms(2-4)] obtain cfg refs v v' es where cfg: "config_read k cfg"
    and ret: "returns (ScanOutdatedPods k rt (Some (CallWebhook k tr)) cfg so) v (Inr refs) v'"
    and es: "log w' = log w @ es"
    and att: "(\<forall>ref \<in> set refs. type_of_kind (wr_kind ref) \<noteq> None) \<Longrightarrow>
      \<forall>ref \<in> set refs. attended k rt (ro_annotation_cooldown opts) es ref"
    unfolding assms(5) by blast
  from ret obtain pods v1 where l: "returns (listPods k rt so) v (Inr pods) v1"
    and s: "returns (scan_pods (processPodForOutdatedSidecar k (CallWebhook k tr) cfg so)
           (filter (\<lambda>ns. ns \<noteq> []) (so_skip_namespaces so)) [] [] pods) v1 refs v'"
    by (rule returns_ScanOutdatedPods)
  have found: "\<exists>p \<in> set pods. outdated k (CallWebhook k tr) cfg so p ref" if "ref \<in> set refs" for ref
    using scan_pods_outdated(2) [OF s that] by blast
  then have "\<forall>ref \<in> set refs. type_of_kind (wr_kind ref) \<noteq> None"
    by (fastforce simp: outdated_def dest: owned_by_kind)
  with att have "\<forall>ref \<in> set refs. attended k rt (ro_annotation_cooldown opts) es ref" .
  moreover have "\<exists>ref' \<in> set refs. wr_nn ref' = wr_nn ref"
    if "p \<in> set pods" "om_namespace (p_meta p) \<notin> set (ro_skip_namespaces opts)" "single_controller (p_meta p)"
      "outdated k (CallWebhook k tr) cfg so p ref" for p ref
    using still_cluster.scan_exact [OF assms(1) s that(1) _ that(3,4)] that(2) by (auto simp: skips)
  ultimately show ?thesis using cfg l es found by metis
qed

end

lemma Reconcile_routed:
  assumes "req = configmap_ReconcileRequest \<or> req = periodic_ReconcileRequest \<or>
      (\<exists>ns. req = namespace_ReconcileRequest ns \<and> ns \<noteq> [] \<and> CHR ''_'' \<notin> set ns)"
  shows "Reconcile rt r req = reconcileAll rt r (request_limit req)"
  using assms namespace_not_reserved
  by (auto simp: Reconcile_def request_limit_def configmap_ReconcileRequest_def periodic_ReconcileRequest_def
      namespace_ReconcileRequest_def configmap_ReconcileRequestName_def periodic_ReconcileRequestName_def)

text \<open>
  \<open>all_attended\<close>: with the tables that were read and the pods that were listed, every outdated
  workload outside the skipped namespaces is attended to in \<open>es\<close>, by its name.
\<close>

definition all_attended ::
  "'w kube \<Rightarrow> 'w runtime \<Rightarrow> 'w transport \<Rightarrow> reconciler_options \<Rightarrow> string list \<Rightarrow> patch_entry list \<Rightarrow> bool" where
  "all_attended k rt tr opts limit es \<longleftrightarrow>
     (\<exists>cfg pods v v' so. so = scan_options_of (NewIstioChangeReconciler k rt tr opts) limit \<and>
        config_read k cfg \<and> returns (listPods k rt so) v (Inr pods) v' \<and>
        (\<forall>p \<in> set pods. \<forall>ref. om_namespace (p_meta p) \<notin> set (ro_skip_namespaces opts) \<longrightarrow> single_controller (p_meta p) \<longrightarrow>
           outdated k (CallWebhook k tr) cfg so p ref \<longrightarrow>
           (\<exists>p' \<in> set pods. \<exists>ref'. wr_nn ref' = wr_nn ref \<and> outdated k (CallWebhook k tr) cfg so p' ref' \<and>
              attended k rt (ro_annotation_cooldown opts) es ref')))"

lemma all_attended_mono:
  assumes "all_attended k rt tr opts limit es" and "set es \<subseteq> set fs"
  shows "all_attended k rt tr opts limit fs"
proof -
  have "attended k rt cd fs ref" if "attended k rt cd es ref" for cd ref
    using that assms(2) unfolding attended_def by blast
  with assms(1) show ?thesis unfolding all_attended_def by meson
qed

lemma Reconcile_all_attended:
  assumes "installation k rt log tr" and "still_cluster k tr" and "\<not> ro_dry_run opts" and "uninterrupted rt (ro_restart_delay opts)"
    and "req = configmap_ReconcileRequest \<or> req = periodic_ReconcileRequest \<or>
      (\<exists>ns. req = namespace_ReconcileRequest ns \<and> ns \<noteq> [] \<and> CHR ''_'' \<notin> set ns)"
    and "returns (Reconcile rt (NewIstioChangeReconciler k rt tr opts) req) w (Inr ()) w'"
  shows "\<exists>es. log w' = log w @ es \<and> all_attended k rt tr opts (request_limit req) es"
proof -
  from assms(6) have "returns (reconcileAll rt (NewIstioChangeReconciler k rt tr opts) (request_limit req)) w (Inr ()) w'"
    unfolding Reconcile_routed [OF assms(5)] .
  from installation.Reconcile_attends [OF assms(1-4) this refl] show ?thesis
    unfolding all_attended_def by blast
qed

end
