(* ===== verification/WorkQueue.thy ===== *)
theory WorkQueue
  imports Triggers
begin

text \<open>
  The work queue between the event sources and the reconciler, which the code reaches through
  \<open>workqueue.TypedRateLimitingInterface\<close>: the operations as a record, an argument of the model, and
  their documented laws as the locale \<open>work_queue\<close>. A request is \<open>pending\<close> when it has been added
  and not yet taken, \<open>active\<close> while it is being processed, and \<open>waiting\<close> while a rate-limited add
  of it has not expired. A request that is added while it is active stays pending until it is
  done. The interface is interpreted on the algorithm that client-go documents (a list, a dirty
  set and a processing set).
\<close>

section \<open>The interface\<close>

text \<open>
  \<open>wq_get\<close> gives nothing while \<open>Get\<close> blocks; \<open>wq_expire\<close> is the end of the wait of a rate-limited
  add, and gives nothing when there is no such wait.
\<close>

record 'q work_queue =
  wq_add :: "request \<Rightarrow> 'q \<Rightarrow> 'q"
  wq_add_rate_limited :: "request \<Rightarrow> 'q \<Rightarrow> 'q"
  wq_forget :: "request \<Rightarrow> 'q \<Rightarrow> 'q"
  wq_get :: "'q \<Rightarrow> (request \<times> 'q) option"
  wq_done :: "request \<Rightarrow> 'q \<Rightarrow> 'q"
  wq_expire :: "request \<Rightarrow> 'q \<Rightarrow> 'q option"

record queue_view =
  qv_pending :: "request set"
  qv_active :: "request set"
  qv_waiting :: "request set"

text \<open>What the laws say an operation makes of the three sets.\<close>

locale work_queue =
  fixes Q :: "'q work_queue" and view :: "'q \<Rightarrow> queue_view" and invar :: "'q \<Rightarrow> bool"
  assumes finite_sets: "invar q \<Longrightarrow> finite (qv_pending (view q)) \<and> finite (qv_waiting (view q))"
    and add: "invar q \<Longrightarrow>
      invar (wq_add Q r q) \<and> view (wq_add Q r q) = (view q)\<lparr>qv_pending := insert r (qv_pending (view q))\<rparr>"
    and add_rate_limited: "invar q \<Longrightarrow>
      invar (wq_add_rate_limited Q r q) \<and>
      view (wq_add_rate_limited Q r q) = (view q)\<lparr>qv_waiting := insert r (qv_waiting (view q))\<rparr>"
    and forget: "invar q \<Longrightarrow> invar (wq_forget Q r q) \<and> view (wq_forget Q r q) = view q"
    and get: "invar q \<Longrightarrow> wq_get Q q = Some (r, q') \<Longrightarrow>
      invar q' \<and> r \<in> qv_pending (view q) \<and> r \<notin> qv_active (view q) \<and>
      view q' = (view q)\<lparr>qv_pending := qv_pending (view q) - {r}, qv_active := insert r (qv_active (view q))\<rparr>"
    and get_blocks: "invar q \<Longrightarrow> wq_get Q q = None \<Longrightarrow> qv_pending (view q) \<subseteq> qv_active (view q)"
    and done_with: "invar q \<Longrightarrow>
      invar (wq_done Q r q) \<and> view (wq_done Q r q) = (view q)\<lparr>qv_active := qv_active (view q) - {r}\<rparr>"
    and expire: "invar q \<Longrightarrow> wq_expire Q r q = Some q' \<Longrightarrow>
      invar q' \<and> r \<in> qv_waiting (view q) \<and>
      view q' = (view q)\<lparr>qv_pending := insert r (qv_pending (view q)), qv_waiting := qv_waiting (view q) - {r}\<rparr>"
    and expires: "invar q \<Longrightarrow> r \<in> qv_waiting (view q) \<Longrightarrow> wq_expire Q r q \<noteq> None"
begin

abbreviation pending :: "'q \<Rightarrow> request set" where "pending q \<equiv> qv_pending (view q)"
abbreviation active :: "'q \<Rightarrow> request set" where "active q \<equiv> qv_active (view q)"
abbreviation waiting :: "'q \<Rightarrow> request set" where "waiting q \<equiv> qv_waiting (view q)"

lemma add_all:
  "invar q \<Longrightarrow> invar (fold (wq_add Q) rs q) \<and>
     view (fold (wq_add Q) rs q) = (view q)\<lparr>qv_pending := set rs \<union> pending q\<rparr>"
proof (induction rs arbitrary: q)
  case (Cons r rs)
  from add [OF Cons.prems] Cons.IH [of "wq_add Q r q"] show ?case by simp
qed simp

end


section \<open>The queue of client-go\<close>

record client_go_queue =
  cq_queue :: "request list"
  cq_dirty :: "request list"
  cq_processing :: "request list"
  cq_waiting :: "request list"

definition cq_empty :: client_go_queue where
  "cq_empty = \<lparr>cq_queue = [], cq_dirty = [], cq_processing = [], cq_waiting = []\<rparr>"

definition cq_add :: "request \<Rightarrow> client_go_queue \<Rightarrow> client_go_queue" where
  "cq_add r q =
     (if r \<in> set (cq_dirty q) then q
      else if r \<in> set (cq_processing q) then q\<lparr>cq_dirty := r # cq_dirty q\<rparr>
      else q\<lparr>cq_dirty := r # cq_dirty q, cq_queue := cq_queue q @ [r]\<rparr>)"

definition cq_get :: "client_go_queue \<Rightarrow> (request \<times> client_go_queue) option" where
  "cq_get q =
     (case cq_queue q of
        [] \<Rightarrow> None
      | r # rs \<Rightarrow> Some (r, q\<lparr>cq_queue := rs, cq_processing := r # cq_processing q,
                              cq_dirty := removeAll r (cq_dirty q)\<rparr>))"

definition cq_done :: "request \<Rightarrow> client_go_queue \<Rightarrow> client_go_queue" where
  "cq_done r q =
     (let q' = q\<lparr>cq_processing := removeAll r (cq_processing q)\<rparr>
      in if r \<in> set (cq_dirty q) \<and> r \<notin> set (cq_queue q) then q'\<lparr>cq_queue := cq_queue q @ [r]\<rparr> else q')"

definition client_go :: "client_go_queue work_queue" where
  "client_go =
     \<lparr>wq_add = cq_add,
      wq_add_rate_limited = (\<lambda>r q. q\<lparr>cq_waiting := List.insert r (cq_waiting q)\<rparr>),
      wq_forget = (\<lambda>r q. q),
      wq_get = cq_get,
      wq_done = cq_done,
      wq_expire = (\<lambda>r q. if r \<in> set (cq_waiting q)
                         then Some (cq_add r (q\<lparr>cq_waiting := removeAll r (cq_waiting q)\<rparr>)) else None)\<rparr>"

definition cq_view :: "client_go_queue \<Rightarrow> queue_view" where
  "cq_view q =
     \<lparr>qv_pending = set (cq_dirty q), qv_active = set (cq_processing q), qv_waiting = set (cq_waiting q)\<rparr>"

text \<open>The list holds exactly the dirty requests that are not being processed, each once.\<close>

definition cq_invar :: "client_go_queue \<Rightarrow> bool" where
  "cq_invar q \<longleftrightarrow> distinct (cq_queue q) \<and> set (cq_queue q) = set (cq_dirty q) - set (cq_processing q)"

lemma cq_empty_ok [simp]: "cq_invar cq_empty" "cq_view cq_empty = \<lparr>qv_pending = {}, qv_active = {}, qv_waiting = {}\<rparr>"
  by (simp_all add: cq_invar_def cq_empty_def cq_view_def)

lemma cq_add_ok:
  "cq_invar q \<Longrightarrow> cq_invar (cq_add r q) \<and>
     cq_view (cq_add r q) = (cq_view q)\<lparr>qv_pending := insert r (qv_pending (cq_view q))\<rparr>"
  by (auto simp: cq_invar_def cq_view_def cq_add_def)

lemma cq_waiting_ok:
  "cq_invar q \<Longrightarrow> cq_invar (q\<lparr>cq_waiting := rs\<rparr>) \<and>
     cq_view (q\<lparr>cq_waiting := rs\<rparr>) = (cq_view q)\<lparr>qv_waiting := set rs\<rparr>"
  by (simp add: cq_invar_def cq_view_def)

lemma cq_get_ok:
  assumes "cq_invar q" and "cq_get q = Some (r, q')"
  shows "cq_invar q' \<and> r \<in> qv_pending (cq_view q) \<and> r \<notin> qv_active (cq_view q) \<and>
    cq_view q' = (cq_view q)\<lparr>qv_pending := qv_pending (cq_view q) - {r}, qv_active := insert r (qv_active (cq_view q))\<rparr>"
proof -
  from assms(2) obtain rs where q: "cq_queue q = r # rs"
    and q': "q' = q\<lparr>cq_queue := rs, cq_processing := r # cq_processing q, cq_dirty := removeAll r (cq_dirty q)\<rparr>"
    by (auto simp: cq_get_def split: list.splits)
  from assms(1) q have "r \<notin> set rs" "distinct rs" "insert r (set rs) = set (cq_dirty q) - set (cq_processing q)"
    by (simp_all add: cq_invar_def)
  then have "set rs = set (cq_dirty q) - {r} - insert r (set (cq_processing q))"
    and "r \<in> set (cq_dirty q)" "r \<notin> set (cq_processing q)" by blast+
  with \<open>distinct rs\<close> show ?thesis by (simp add: q' cq_invar_def cq_view_def)
qed

lemma cq_get_None: "cq_invar q \<Longrightarrow> cq_get q = None \<Longrightarrow> qv_pending (cq_view q) \<subseteq> qv_active (cq_view q)"
  by (simp add: cq_get_def cq_invar_def cq_view_def split: list.splits)

lemma cq_done_ok:
  assumes "cq_invar q"
  shows "cq_invar (cq_done r q) \<and> cq_view (cq_done r q) = (cq_view q)\<lparr>qv_active := qv_active (cq_view q) - {r}\<rparr>"
proof -
  have "set (cq_queue (cq_done r q)) = set (cq_dirty q) - (set (cq_processing q) - {r})"
    and "distinct (cq_queue (cq_done r q))"
    using assms by (simp_all add: cq_done_def cq_invar_def Let_def) blast+
  then show ?thesis by (simp add: cq_invar_def cq_view_def cq_done_def Let_def)
qed

interpretation cq: work_queue client_go cq_view cq_invar
proof
  fix q q' :: client_go_queue and r :: request
  assume inv: "cq_invar q"
  show "finite (qv_pending (cq_view q)) \<and> finite (qv_waiting (cq_view q))"
    by (simp add: cq_view_def)
  show "cq_invar (wq_add client_go r q) \<and>
      cq_view (wq_add client_go r q) = (cq_view q)\<lparr>qv_pending := insert r (qv_pending (cq_view q))\<rparr>"
    using cq_add_ok [OF inv] by (simp add: client_go_def)
  show "cq_invar (wq_add_rate_limited client_go r q) \<and>
      cq_view (wq_add_rate_limited client_go r q) = (cq_view q)\<lparr>qv_waiting := insert r (qv_waiting (cq_view q))\<rparr>"
    using cq_waiting_ok [OF inv] by (simp add: client_go_def cq_view_def)
  show "cq_invar (wq_forget client_go r q) \<and> cq_view (wq_forget client_go r q) = cq_view q"
    using inv by (simp add: client_go_def)
  show "cq_invar q' \<and> r \<in> qv_pending (cq_view q) \<and> r \<notin> qv_active (cq_view q) \<and>
      cq_view q' = (cq_view q)\<lparr>qv_pending := qv_pending (cq_view q) - {r}, qv_active := insert r (qv_active (cq_view q))\<rparr>"
    if "wq_get client_go q = Some (r, q')"
    using that cq_get_ok [OF inv] by (simp add: client_go_def)
  show "qv_pending (cq_view q) \<subseteq> qv_active (cq_view q)" if "wq_get client_go q = None"
    using that cq_get_None [OF inv] by (simp add: client_go_def)
  show "cq_invar (wq_done client_go r q) \<and>
      cq_view (wq_done client_go r q) = (cq_view q)\<lparr>qv_active := qv_active (cq_view q) - {r}\<rparr>"
    using cq_done_ok [OF inv] by (simp add: client_go_def)
  show "cq_invar q' \<and> r \<in> qv_waiting (cq_view q) \<and>
      cq_view q' = (cq_view q)\<lparr>qv_pending := insert r (qv_pending (cq_view q)), qv_waiting := qv_waiting (cq_view q) - {r}\<rparr>"
    if "wq_expire client_go r q = Some q'"
    using that cq_waiting_ok [OF inv] cq_add_ok [of "q\<lparr>cq_waiting := removeAll r (cq_waiting q)\<rparr>" r]
    by (auto simp: client_go_def cq_view_def split: if_splits)
  show "wq_expire client_go r q \<noteq> None" if "r \<in> qv_waiting (cq_view q)"
    using that by (simp add: client_go_def cq_view_def)
qed

end
