(* ===== verification/Controller.thy ===== *)
theory Controller
  imports Outcomes WorkQueue
begin

text \<open>
  The controller: \<open>NewReconcileSource\<close> of package \<open>periodic\<close>, \<open>SetupIstioChangeController\<close> with what
  it hands to the builder of controller-runtime, and the controller at work as a step relation.
  Events arrive, the one worker takes requests off the queue and runs \<open>Reconcile\<close>, a request whose
  reconciliation fails or panics is added again after a wait, and other actors change the world.
  Taking, finishing and adding again follow the documentation of controller-runtime (one worker,
  \<open>RecoverPanic\<close>); the queue is a parameter with the laws of \<open>work_queue\<close>.
\<close>

section \<open>The periodic source\<close>

text \<open>
  Which case the \<open>select\<close> of the goroutine takes. The goroutine is a call whose world is the queue:
  it panics when \<open>time.NewTicker\<close> does, and otherwise adds a request for each tick until the
  context is done (\<open>True\<close>) or the list of cases ends (\<open>False\<close>: it waits in \<open>select\<close>).
\<close>

datatype tick_select = CtxDoneCase | TickerCase

definition NewTicker :: "duration \<Rightarrow> ('q, unit) go" where
  "NewTicker d = (if d \<le> 0 then go_panic ''non-positive interval for NewTicker'' else go_ret ())"

fun tick_loop :: "'q work_queue \<Rightarrow> tick_select list \<Rightarrow> ('q, bool) go" where
  "tick_loop Q [] = go_ret False"
| "tick_loop Q (CtxDoneCase # cases) = go_ret True"
| "tick_loop Q (TickerCase # cases) =
     go_bind (go_call (\<lambda>q. ((), wq_add Q periodic_ReconcileRequest q))) (\<lambda>_. tick_loop Q cases)"

type_synonym 'q raw_source = "'q work_queue \<Rightarrow> tick_select list \<Rightarrow> ('q, bool) go"

definition NewReconcileSource :: "duration \<Rightarrow> 'q raw_source" where
  "NewReconcileSource period Q cases = go_bind (NewTicker period) (\<lambda>_. tick_loop Q cases)"


section \<open>Setting up the controller\<close>

datatype watched_kind = ConfigMapKind | MWCKind | NamespaceKind

text \<open>A watch: the kind, the map function and the predicate.\<close>

record watch =
  wt_kind :: watched_kind
  wt_map :: "object_meta \<Rightarrow> request list"
  wt_predicate :: "event \<Rightarrow> bool"

record 'q controller_builder =
  cb_name :: string
  cb_watches :: "watch list"
  cb_raw_sources :: "'q raw_source list"

text \<open>\<open>complete\<close> is \<open>Complete\<close>, which makes the controller and adds it to the manager.\<close>

definition istio_change_builder :: "'w reconciler \<Rightarrow> 'q controller_builder" where
  "istio_change_builder reconciler =
     (let b = \<lparr>cb_name = ''istio_change'',
               cb_watches =
                 [\<lparr>wt_kind = ConfigMapKind, wt_map = (\<lambda>obj. [configmap_ReconcileRequest]),
                   wt_predicate = predicate_funcs configmap_Filter\<rparr>,
                  \<lparr>wt_kind = MWCKind, wt_map = (\<lambda>obj. [mwc_ReconcileRequest]),
                   wt_predicate = predicate_funcs mwc_Filter\<rparr>,
                  \<lparr>wt_kind = NamespaceKind, wt_map = (\<lambda>obj. [namespace_ReconcileRequest (om_name obj)]),
                   wt_predicate = namespace_Filter\<rparr>],
               cb_raw_sources = []\<rparr>
      in if 0 < rc_reconcile_period reconciler
         then b\<lparr>cb_raw_sources := cb_raw_sources b @ [NewReconcileSource (rc_reconcile_period reconciler)]\<rparr>
         else b)"

definition SetupIstioChangeController ::
  "('q controller_builder \<Rightarrow> 'w reconciler \<Rightarrow> 'w \<Rightarrow> goerror option \<times> 'w) \<Rightarrow> 'w reconciler \<Rightarrow>
   ('w, goerror option) go" where
  "SetupIstioChangeController complete reconciler =
     go_call (complete (istio_change_builder reconciler) reconciler)"

text \<open>
  What the sources of a builder put on the queue for an event: a watch of the event's kind passes
  it through its predicate to its map function, and a tick makes each raw source run once more
  around its loop.
\<close>

fun event_of :: "watch_event \<Rightarrow> (watched_kind \<times> event) option" where
  "event_of (ConfigMapEvent e) = Some (ConfigMapKind, e)"
| "event_of (MWCEvent e) = Some (MWCKind, e)"
| "event_of (NamespaceEvent e) = Some (NamespaceKind, e)"
| "event_of TickEvent = None"

definition watch_requests :: "watch \<Rightarrow> watched_kind \<Rightarrow> event \<Rightarrow> request list" where
  "watch_requests wt kind e =
     (if wt_kind wt = kind \<and> wt_predicate wt e then enqueue_from_map (wt_map wt) e else [])"

fun source_ticks :: "'q work_queue \<Rightarrow> 'q raw_source list \<Rightarrow> ('q, unit) go" where
  "source_ticks Q [] = go_ret ()"
| "source_ticks Q (src # srcs) = go_bind (src Q [TickerCase]) (\<lambda>_. source_ticks Q srcs)"

definition deliver :: "'q work_queue \<Rightarrow> 'q controller_builder \<Rightarrow> watch_event \<Rightarrow> ('q, unit) go" where
  "deliver Q b e =
     (case event_of e of
        Some (kind, ev) \<Rightarrow>
          go_call (\<lambda>q. ((), fold (wq_add Q) (concat (map (\<lambda>wt. watch_requests wt kind ev) (cb_watches b))) q))
      | None \<Rightarrow> source_ticks Q (cb_raw_sources b))"

lemma tick_loop_ticks:
  "tick_loop Q (replicate n TickerCase) q = Some (Return False, fold (wq_add Q) (replicate n periodic_ReconcileRequest) q)"
  by (induction n arbitrary: q) (simp_all add: go_bind_def go_call_def go_ret_def)

text \<open>The set-up registers what \<open>requests_for\<close> says, and no source that panics.\<close>

lemma deliver_istio_change:
  "deliver Q (istio_change_builder reconciler) e q =
     Some (Return (), fold (wq_add Q) (requests_for (rc_reconcile_period reconciler) e) q)"
  by (cases e)
    (simp_all add: deliver_def istio_change_builder_def watch_requests_def NewReconcileSource_def
      NewTicker_def go_call_def go_ret_def go_bind_def Let_def)



section \<open>The controller at work\<close>

record ('q, 'w) controller_state =
  ct_queue :: 'q
  ct_worker :: "request option"
  ct_world :: 'w

text \<open>
  \<open>Event\<close>: a source delivers an event. \<open>Take\<close>: the worker gets a request. \<open>Finish\<close>: the
  reconciliation of the request the worker holds comes back, with success or not. \<open>Expire\<close>: the
  wait of a rate-limited add is over. \<open>Others\<close>: the rest of the world moves on.
\<close>

datatype 'w action =
    Event watch_event
  | Take request
  | Finish request bool
  | Expire request
  | Others "'w \<Rightarrow> 'w"

definition succeeded :: "(goerror + unit) outcome \<Rightarrow> bool" where
  "succeeded out \<longleftrightarrow> (case out of Return (Inr _) \<Rightarrow> True | _ \<Rightarrow> False)"

lemma succeeded_simps [simp]:
  "succeeded (Return (Inr u))" "\<not> succeeded (Return (Inl err))" "\<not> succeeded (Panic msg)"
  by (simp_all add: succeeded_def)

text \<open>What the worker does with a request that is processed: \<open>Forget\<close> or add again, then \<open>Done\<close>.\<close>

definition settle :: "'q work_queue \<Rightarrow> request \<Rightarrow> bool \<Rightarrow> 'q \<Rightarrow> 'q" where
  "settle Q r ok q = wq_done Q r (if ok then wq_forget Q r q else wq_add_rate_limited Q r q)"

inductive ctl_step ::
  "'q work_queue \<Rightarrow> 'w runtime \<Rightarrow> 'w reconciler \<Rightarrow>
   ('q, 'w) controller_state \<Rightarrow> 'w action \<Rightarrow> ('q, 'w) controller_state \<Rightarrow> bool"
  for Q rt rec where
  event: "deliver Q (istio_change_builder rec) e (ct_queue s) = Some (Return (), q) \<Longrightarrow>
    ctl_step Q rt rec s (Event e) (s\<lparr>ct_queue := q\<rparr>)"
| take: "ct_worker s = None \<Longrightarrow> wq_get Q (ct_queue s) = Some (r, q) \<Longrightarrow>
    ctl_step Q rt rec s (Take r) (s\<lparr>ct_queue := q, ct_worker := Some r\<rparr>)"
| finish: "ct_worker s = Some r \<Longrightarrow> Reconcile rt rec r (ct_world s) = Some (out, w) \<Longrightarrow> ok = succeeded out \<Longrightarrow>
    ctl_step Q rt rec s (Finish r ok)
      (s\<lparr>ct_queue := settle Q r ok (ct_queue s), ct_worker := None, ct_world := w\<rparr>)"
| expire: "wq_expire Q r (ct_queue s) = Some q \<Longrightarrow>
    ctl_step Q rt rec s (Expire r) (s\<lparr>ct_queue := q\<rparr>)"
| others: "ctl_step Q rt rec s (Others f) (s\<lparr>ct_world := f (ct_world s)\<rparr>)"

inductive ctl_run ::
  "'q work_queue \<Rightarrow> 'w runtime \<Rightarrow> 'w reconciler \<Rightarrow>
   ('q, 'w) controller_state \<Rightarrow> 'w action list \<Rightarrow> ('q, 'w) controller_state \<Rightarrow> bool"
  for Q rt rec s0 where
  start: "ctl_run Q rt rec s0 [] s0"
| more: "ctl_run Q rt rec s0 acts s \<Longrightarrow> ctl_step Q rt rec s act s' \<Longrightarrow> ctl_run Q rt rec s0 (acts @ [act]) s'"

inductive_simps ctl_step_simps:
  "ctl_step Q rt rec s (Event e) s'"
  "ctl_step Q rt rec s (Take r) s'"
  "ctl_step Q rt rec s (Finish r ok) s'"
  "ctl_step Q rt rec s (Expire r) s'"
  "ctl_step Q rt rec s (Others f) s'"

inductive_cases ctl_stepE:
  "ctl_step Q rt rec s (Event e) s'"
  "ctl_step Q rt rec s (Take r) s'"
  "ctl_step Q rt rec s (Finish r ok) s'"
  "ctl_step Q rt rec s (Expire r) s'"
  "ctl_step Q rt rec s (Others f) s'"

lemma ctl_event:
  "ctl_step Q rt rec s (Event e) s' \<longleftrightarrow>
     s' = s\<lparr>ct_queue := fold (wq_add Q) (requests_for (rc_reconcile_period rec) e) (ct_queue s)\<rparr>"
  by (auto simp: ctl_step_simps deliver_istio_change)

lemma ctl_run_append: "ctl_run Q rt rec s1 ys s2 \<Longrightarrow> ctl_run Q rt rec s0 xs s1 \<Longrightarrow> ctl_run Q rt rec s0 (xs @ ys) s2"
proof (induction ys s2 rule: ctl_run.induct)
  case start
  then show ?case by simp
next
  case (more acts s act s')
  then show ?case using ctl_run.more [of Q rt rec s0 "xs @ acts"] by simp
qed

lemma ctl_run_Nil [simp]: "ctl_run Q rt rec s0 [] s \<longleftrightarrow> s = s0"
  by (auto intro: ctl_run.start elim: ctl_run.cases)

lemma ctl_run_snoc: "ctl_run Q rt rec s0 (acts @ [act]) s \<longleftrightarrow>
    (\<exists>s1. ctl_run Q rt rec s0 acts s1 \<and> ctl_step Q rt rec s1 act s)"
  by (auto intro: ctl_run.more elim: ctl_run.cases)

lemma ctl_run_split: "ctl_run Q rt rec s0 (xs @ ys) s \<Longrightarrow>
    \<exists>s1. ctl_run Q rt rec s0 xs s1 \<and> ctl_run Q rt rec s1 ys s"
proof (induction ys arbitrary: s rule: rev_induct)
  case (snoc y ys)
  then show ?case by (metis append_assoc ctl_run_snoc)
qed simp

text \<open>A property of the world that reconciliations and others keep is kept over a run.\<close>

lemma ctl_run_preserves:
  assumes "ctl_run Q rt rec s0 acts s" and "\<And>r. preserves P (Reconcile rt rec r)"
    and "\<forall>f. Others f \<in> set acts \<longrightarrow> (\<forall>w. P w \<longrightarrow> P (f w))" and "P (ct_world s0)"
  shows "P (ct_world s)"
  using assms
proof (induction rule: ctl_run.induct)
  case (more acts s act s')
  then have "P (ct_world s)" by auto
  with more(2,4,5) show ?case
    by cases (auto simp: preserves_def)
qed



section \<open>What the traces of the controller may hold\<close>

text \<open>
  \<open>served r acts\<close>: in \<open>acts\<close> the worker takes \<open>r\<close> and finishes it with success; \<open>in_service\<close>: it has
  taken \<open>r\<close> and not yet finished it.
\<close>

fun quiet :: "'w action \<Rightarrow> bool" where
  "quiet (Take r) = False"
| "quiet (Finish r ok) = False"
| "quiet act = True"

definition served :: "request \<Rightarrow> 'w action list \<Rightarrow> bool" where
  "served r acts \<longleftrightarrow> (\<exists>xs ys zs. acts = xs @ Take r # ys @ Finish r True # zs \<and> list_all quiet ys)"

definition in_service :: "request \<Rightarrow> 'w action list \<Rightarrow> bool" where
  "in_service r acts \<longleftrightarrow> (\<exists>xs ys. acts = xs @ Take r # ys \<and> list_all quiet ys)"

fun asks_for :: "duration \<Rightarrow> request \<Rightarrow> 'w action \<Rightarrow> bool" where
  "asks_for period r (Event e) = (r \<in> set (requests_for period e))"
| "asks_for period r (Finish r' ok) = (r' = r \<and> \<not> ok)"
| "asks_for period r act = False"

lemma served_snoc: "served r acts \<Longrightarrow> served r (acts @ [act])"
  unfolding served_def by fastforce

lemma in_service_Take: "in_service r (acts @ [Take r])"
  unfolding in_service_def by fastforce

lemma in_service_snoc: "in_service r acts \<Longrightarrow> quiet act \<Longrightarrow> in_service r (acts @ [act])"
  unfolding in_service_def by fastforce

lemma served_Finish: "in_service r acts \<Longrightarrow> served r (acts @ [Finish r True])"
  unfolding in_service_def served_def by fastforce

text \<open>The requests that the events of a trace ask for.\<close>

definition asked :: "duration \<Rightarrow> 'w action list \<Rightarrow> request set" where
  "asked period acts = {r. \<exists>e. Event e \<in> set acts \<and> r \<in> set (requests_for period e)}"

lemma asked_append: "asked period (xs @ ys) = asked period xs \<union> asked period ys"
  by (auto simp: asked_def)

text \<open>The queue is sound and knows what the worker holds.\<close>

definition ctl_ok :: "('q \<Rightarrow> queue_view) \<Rightarrow> ('q \<Rightarrow> bool) \<Rightarrow> ('q, 'w) controller_state \<Rightarrow> bool" where
  "ctl_ok view invar s \<longleftrightarrow>
     invar (ct_queue s) \<and> qv_active (view (ct_queue s)) = set_option (ct_worker s)"

text \<open>The requests that the controller still owes a reconciliation.\<close>

definition owed :: "('q \<Rightarrow> queue_view) \<Rightarrow> ('q, 'w) controller_state \<Rightarrow> request set" where
  "owed view s = qv_pending (view (ct_queue s)) \<union> qv_waiting (view (ct_queue s))"

text \<open>A bound for the actions the controller can still do by itself.\<close>

definition ctl_load :: "('q \<Rightarrow> queue_view) \<Rightarrow> ('q, 'w) controller_state \<Rightarrow> nat" where
  "ctl_load view s =
     2 * card (qv_pending (view (ct_queue s))) + 3 * card (qv_waiting (view (ct_queue s)))
       + (if ct_worker s = None then 0 else 1)"

context work_queue begin

lemmas after_expiry = expire

lemma settle_ok:
  assumes "invar q"
  shows "invar (settle Q r ok q)"
    and "view (settle Q r ok q) =
      (view q)\<lparr>qv_active := active q - {r}, qv_waiting := (if ok then waiting q else insert r (waiting q))\<rparr>"
  using assms forget [OF assms, of r] add_rate_limited [OF assms, of r]
    done_with [of "wq_forget Q r q" r] done_with [of "wq_add_rate_limited Q r q" r]
  by (simp_all add: settle_def)

lemma step_ok:
  assumes "ctl_step Q rt rec s act s'" and "ctl_ok view invar s"
  shows "ctl_ok view invar s'"
  using assms
proof cases
  case (event e q)
  with assms(2) add_all [of "ct_queue s"] show ?thesis
    by (auto simp: ctl_ok_def deliver_istio_change)
next
  case (take r q)
  with assms(2) get [of "ct_queue s" r q] show ?thesis by (simp add: ctl_ok_def)
next
  case (finish r out w ok)
  with assms(2) settle_ok [of "ct_queue s" r ok] show ?thesis by (simp add: ctl_ok_def)
next
  case (expire r q)
  with assms(2) after_expiry [of "ct_queue s" r q] show ?thesis by (simp add: ctl_ok_def)
next
  case (others f)
  with assms(2) show ?thesis by (simp add: ctl_ok_def)
qed

lemma run_ok: "ctl_run Q rt rec s0 acts s \<Longrightarrow> ctl_ok view invar s0 \<Longrightarrow> ctl_ok view invar s"
  by (induction rule: ctl_run.induct) (auto intro: step_ok)

text \<open>What is owed stays owed until the worker takes it.\<close>

lemma owed_step:
  assumes "ctl_step Q rt rec s act s'" and "ctl_ok view invar s" and "r \<in> owed view s" and "act \<noteq> Take r"
  shows "r \<in> owed view s'"
  using assms
proof cases
  case (event e q)
  with assms add_all [of "ct_queue s"] show ?thesis
    by (auto simp: ctl_ok_def owed_def deliver_istio_change)
next
  case (take r q)
  with assms get [of "ct_queue s" r q] show ?thesis by (auto simp: ctl_ok_def owed_def)
next
  case (finish r out w ok)
  with assms settle_ok [of "ct_queue s" r ok] show ?thesis by (auto simp: ctl_ok_def owed_def)
next
  case (expire r q)
  with assms after_expiry [of "ct_queue s" r q] show ?thesis by (auto simp: ctl_ok_def owed_def)
next
  case (others f)
  with assms show ?thesis by (simp add: owed_def)
qed

lemma not_lost:
  assumes "ctl_run Q rt rec s0 acts s" and "ctl_ok view invar s0" and "r \<in> owed view s0"
  shows "served r acts \<or> in_service r acts \<and> ct_worker s = Some r \<or> r \<in> owed view s"
  using assms
proof (induction rule: ctl_run.induct)
  case (more acts s act s')
  then have ok: "ctl_ok view invar s" by (blast intro: run_ok)
  consider "served r acts" | "in_service r acts" "ct_worker s = Some r" | "r \<in> owed view s"
    using more by blast
  then show ?case
  proof cases
    case 1
    then show ?thesis by (blast intro: served_snoc)
  next
    case 2
    from more(2) show ?thesis
    proof cases
      case (finish r' out w ok')
      with 2 ok settle_ok(2) [of "ct_queue s" r ok'] show ?thesis
        by (cases ok') (auto simp: served_Finish owed_def ctl_ok_def)
    qed (use 2 in \<open>auto intro: in_service_snoc\<close>)
  next
    case 3
    show ?thesis
    proof (cases "act = Take r")
      case True
      with more(2) show ?thesis by (auto simp: ctl_step_simps in_service_Take)
    next
      case False
      with more(2) ok 3 show ?thesis by (blast intro: owed_step)
    qed
  qed
qed simp

text \<open>Nothing is taken that no event asked for, and nothing more often than asked for.\<close>

lemma step_owed_from:
  assumes "ctl_step Q rt rec s act s'" and "ctl_ok view invar s"
  shows "owed view s' \<union> set_option (ct_worker s') \<subseteq>
    owed view s \<union> set_option (ct_worker s) \<union> asked (rc_reconcile_period rec) [act]"
  using assms
proof cases
  case (event e q)
  with assms add_all [of "ct_queue s"] show ?thesis
    by (auto simp: ctl_ok_def owed_def asked_def deliver_istio_change)
next
  case (take r q)
  with assms get [of "ct_queue s" r q] show ?thesis by (auto simp: ctl_ok_def owed_def asked_def)
next
  case (finish r out w ok)
  with assms settle_ok [of "ct_queue s" r ok] show ?thesis by (auto simp: ctl_ok_def owed_def asked_def split: if_splits)
next
  case (expire r q)
  with assms after_expiry [of "ct_queue s" r q] show ?thesis by (auto simp: ctl_ok_def owed_def asked_def)
next
  case (others f)
  with assms show ?thesis by (simp add: owed_def asked_def)
qed

lemma run_owed_from:
  assumes "ctl_run Q rt rec s0 acts s" and "ctl_ok view invar s0" and "owed view s0 = {}" and "ct_worker s0 = None"
  shows "owed view s \<union> set_option (ct_worker s) \<subseteq> asked (rc_reconcile_period rec) acts"
  using assms
proof (induction rule: ctl_run.induct)
  case (more acts s act s')
  show ?case
    unfolding asked_append
    using step_owed_from [OF more(2) run_ok [OF more(1,4)]] Un_mono [OF more(3) [OF more(4-6)] subset_refl]
    by (rule subset_trans)
qed simp

lemma step_takes:
  assumes "ctl_step Q rt rec s act s'" and "ctl_ok view invar s"
  shows "of_bool (act = Take r) + (of_bool (r \<in> qv_pending (view (ct_queue s'))) + of_bool (r \<in> qv_waiting (view (ct_queue s')))) \<le>
    of_bool (asks_for (rc_reconcile_period rec) r act)
      + (of_bool (r \<in> qv_pending (view (ct_queue s))) + of_bool (r \<in> qv_waiting (view (ct_queue s))) :: nat)"
  using assms
proof cases
  case (event e q)
  with assms add_all [of "ct_queue s"] show ?thesis
    by (auto simp: ctl_ok_def deliver_istio_change)
next
  case (take r' q)
  with assms get [of "ct_queue s" r' q] show ?thesis by (auto simp: ctl_ok_def)
next
  case (finish r' out w ok)
  with assms settle_ok [of "ct_queue s" r' ok] show ?thesis by (auto simp: ctl_ok_def)
next
  case (expire r' q)
  with assms after_expiry [of "ct_queue s" r' q] show ?thesis by (auto simp: ctl_ok_def)
next
  case (others f)
  with assms show ?thesis by simp
qed

lemma run_takes:
  assumes "ctl_run Q rt rec s0 acts s" and "ctl_ok view invar s0" and "owed view s0 = {}"
  shows "length (filter (\<lambda>act. act = Take r) acts)
      + (of_bool (r \<in> qv_pending (view (ct_queue s))) + of_bool (r \<in> qv_waiting (view (ct_queue s)))) \<le>
    length (filter (asks_for (rc_reconcile_period rec) r) acts)"
  using assms
proof (induction rule: ctl_run.induct)
  case start
  then show ?case by (simp add: owed_def)
next
  case (more acts s act s')
  from step_takes [OF more(2) run_ok [OF more(1,4)], of r] more(3) [OF more(4,5)]
  show ?case by (auto split: if_splits)
qed


end


section \<open>Progress\<close>

text \<open>
  The actions that the controller does by itself when its reconciliations succeed. Each lowers the
  load, and one of them is possible as long as there is a load.
\<close>

fun own_action :: "'w action \<Rightarrow> bool" where
  "own_action (Take r) = True"
| "own_action (Finish r ok) = ok"
| "own_action (Expire r) = True"
| "own_action act = False"

text \<open>
  Nothing is failing: no wait is cut short and the listings answer. Then a reconciliation, which
  always comes back (\<open>Reconcile_total\<close>), succeeds.
\<close>

definition healthy :: "'w kube \<Rightarrow> 'w runtime \<Rightarrow> 'w \<Rightarrow> bool" where
  "healthy k rt v \<longleftrightarrow>
     (\<forall>d. fst (rtSelect rt d v) = TimerFired) \<and>
     (\<forall>ns. \<not> isl (fst (kListConfigMaps k ns v))) \<and> \<not> isl (fst (kListMWCs k v)) \<and>
     (\<forall>nso. \<not> isl (fst (kListPods k nso v)))"

lemma healthy_no_failure: "healthy k rt v \<Longrightarrow> \<not> failure_at k rt delay v e"
  unfolding healthy_def by (elim conjE, rule no_failure_at) simp_all

definition reconciles :: "('w \<Rightarrow> bool) \<Rightarrow> 'w runtime \<Rightarrow> 'w reconciler \<Rightarrow> bool" where
  "reconciles P rt rec \<longleftrightarrow>
     (\<forall>w r. P w \<longrightarrow> (\<exists>w'. returns (Reconcile rt rec r) w (Inr ()) w' \<and> P w'))"

context work_queue begin

lemma step_load:
  assumes "ctl_step Q rt rec s act s'" and "ctl_ok view invar s" and "own_action act"
  shows "ctl_load view s' < ctl_load view s"
  using assms
proof cases
  case (take r q)
  with assms get [of "ct_queue s" r q] finite_sets [of "ct_queue s"]
  have "card (pending (ct_queue s)) = Suc (card (pending q))" "waiting q = waiting (ct_queue s)"
    by (simp_all add: ctl_ok_def card.remove [symmetric] del: card_Diff_singleton card_Diff_insert)
  with take show ?thesis by (simp add: ctl_load_def)
next
  case (finish r out w ok)
  with assms settle_ok [of "ct_queue s" r ok] show ?thesis by (simp add: ctl_ok_def ctl_load_def)
next
  case (expire r q)
  with assms after_expiry [of "ct_queue s" r q] finite_sets [of "ct_queue s"]
  have "card (waiting (ct_queue s)) = Suc (card (waiting q))"
    and "card (pending q) \<le> Suc (card (pending (ct_queue s)))"
    by (simp_all add: ctl_ok_def card.remove [symmetric] card_insert_if del: card_Diff_singleton card_Diff_insert)
  with expire show ?thesis by (simp add: ctl_load_def)
qed (use assms in simp_all)

lemma run_load:
  "ctl_run Q rt rec s0 acts s \<Longrightarrow> ctl_ok view invar s0 \<Longrightarrow> list_all own_action acts \<Longrightarrow>
     length acts + ctl_load view s \<le> ctl_load view s0"
proof (induction rule: ctl_run.induct)
  case (more acts s act s')
  then show ?case using step_load [OF more(2) run_ok [OF more(1)]] by fastforce
qed simp

lemma step_keeps_world:
  assumes "ctl_step Q rt rec s act s'" and "own_action act" and "P (ct_world s)" and "reconciles P rt rec"
  shows "P (ct_world s')"
  using assms
proof cases
  case (finish r out w ok)
  moreover obtain w' where "returns (Reconcile rt rec r) (ct_world s) (Inr ()) w'" "P w'"
    using assms(3,4) by (auto simp: reconciles_def)
  ultimately show ?thesis by (simp add: returns_def)
qed (use assms in simp_all)

lemma run_keeps_world:
  "ctl_run Q rt rec s0 acts s \<Longrightarrow> list_all own_action acts \<Longrightarrow> P (ct_world s0) \<Longrightarrow> reconciles P rt rec \<Longrightarrow>
     P (ct_world s)"
  by (induction rule: ctl_run.induct) (auto intro: step_keeps_world)

lemma step_possible:
  assumes "ctl_ok view invar s" and "P (ct_world s)" and "reconciles P rt rec"
    and "owed view s \<noteq> {} \<or> ct_worker s \<noteq> None"
  obtains act s' where "own_action act" and "ctl_step Q rt rec s act s'"
proof (cases "ct_worker s")
  case (Some r)
  moreover obtain w' where "returns (Reconcile rt rec r) (ct_world s) (Inr ()) w'"
    using assms(2,3) by (auto simp: reconciles_def)
  ultimately have "ctl_step Q rt rec s (Finish r True)
      (s\<lparr>ct_queue := settle Q r True (ct_queue s), ct_worker := None, ct_world := w'\<rparr>)"
    using succeeded_simps(1) by (intro ctl_step.finish [where out = "Return (Inr ())"]) (simp_all only: returns_def)
  then show thesis by (rule that [rotated]) simp
next
  case None
  with assms(1) have inv: "invar (ct_queue s)" and idle: "active (ct_queue s) = {}" by (simp_all add: ctl_ok_def)
  show thesis
  proof (cases "wq_get Q (ct_queue s)")
    case (Some rq)
    then obtain r q where "wq_get Q (ct_queue s) = Some (r, q)" by force
    from ctl_step.take [OF None this] show thesis by (rule that [rotated]) simp
  next
    case none: None
    with get_blocks [OF inv] idle assms(4) None obtain r where "r \<in> waiting (ct_queue s)"
      by (auto simp: owed_def)
    with expires [OF inv] obtain q where "wq_expire Q r (ct_queue s) = Some q" by blast
    from ctl_step.expire [OF this] show thesis by (rule that [rotated]) simp
  qed
qed

text \<open>By itself the controller comes to rest, and at rest nothing is owed.\<close>

lemma comes_to_rest:
  assumes "ctl_ok view invar s" and "P (ct_world s)" and "reconciles P rt rec"
  shows "\<exists>acts s'. ctl_run Q rt rec s acts s' \<and> list_all own_action acts \<and> owed view s' = {} \<and> ct_worker s' = None"
  using assms
proof (induction "ctl_load view s" arbitrary: s rule: less_induct)
  case less
  show ?case
  proof (cases "owed view s = {} \<and> ct_worker s = None")
    case True
    then show ?thesis by (intro exI [of _ "[]"] exI [of _ s]) simp
  next
    case False
    then obtain act s1 where act: "own_action act" and step: "ctl_step Q rt rec s act s1"
      using step_possible [OF less(2-4)] by blast
    from less(1) [OF step_load [OF step less(2) act] step_ok [OF step less(2)] step_keeps_world [OF step act less(3,4)] less(4)]
    obtain acts s' where rest: "ctl_run Q rt rec s1 acts s'" "list_all own_action acts" "owed view s' = {}" "ct_worker s' = None"
      by blast
    have "ctl_run Q rt rec s [act] s1"
      using ctl_run.more [OF ctl_run.start step] by simp
    with rest act show ?thesis by (intro exI [of _ "[act] @ acts"] exI [of _ s']) (simp add: ctl_run_append del: append_Cons append.simps)
  qed
qed

text \<open>An event's request is served by the time the controller comes to rest.\<close>

lemma served_at_rest:
  assumes run: "ctl_run Q rt rec s0 (earlier @ Event e # acts) s" and "ctl_ok view invar s0"
    and "r \<in> set (requests_for (rc_reconcile_period rec) e)"
    and "owed view s = {}" and "ct_worker s = None"
  shows "served r acts"
proof -
  from run have "ctl_run Q rt rec s0 ((earlier @ [Event e]) @ acts) s" by simp
  then obtain s1 where s1: "ctl_run Q rt rec s0 (earlier @ [Event e]) s1" and rest: "ctl_run Q rt rec s1 acts s"
    using ctl_run_split by blast
  from s1 obtain s2 where s2: "ctl_run Q rt rec s0 earlier s2" and ev: "ctl_step Q rt rec s2 (Event e) s1"
    by (auto simp: ctl_run_snoc)
  from run_ok [OF s2 assms(2)] ev add_all [of "ct_queue s2"] assms(3)
  have "r \<in> owed view s1" by (auto simp: ctl_event owed_def ctl_ok_def)
  from not_lost [OF rest run_ok [OF s1 assms(2)] this] assms(4,5) show ?thesis by simp
qed

end

lemma reconciles_when_healthy:
  assumes "reconciling k tr rt P" and "answering_webhook tr" and "wfp (\<lambda>nxt obj. next_object k obj nxt)"
    and "\<And>v. P v \<Longrightarrow> healthy k rt v"
  shows "reconciles P rt (NewIstioChangeReconciler k rt tr opts)"
  unfolding reconciles_def
proof (intro allI impI)
  fix w r
  assume "P w"
  obtain res w' where run: "returns (Reconcile rt (NewIstioChangeReconciler k rt tr opts) r) w res w'"
    using Reconcile_total [OF assms(2,3)] by (rule go_totalE)
  have "P w'" using preserves_returns [OF reconciling.Reconcile_keeps [OF assms(1)] run \<open>P w\<close>] .
  moreover have "res = Inr ()"
  proof (cases res)
    case (Inl e)
    from reading.Reconcile_fails_at [OF reconciling.axioms(1) [OF assms(1)] run [unfolded Inl] \<open>P w\<close>]
    obtain v where "P v" and fails: "failure_at k rt (ro_istiod_config_read_delay opts) v e" by blast
    from healthy_no_failure [OF assms(4) [OF \<open>P v\<close>]] fails have False by (rule notE)
    then show ?thesis ..
  qed simp
  ultimately show "\<exists>w'. returns (Reconcile rt (NewIstioChangeReconciler k rt tr opts) r) w (Inr ()) w' \<and> P w'"
    using run by blast
qed


section \<open>What the controller writes\<close>

context installation begin

lemma run_patches:
  assumes "ctl_run Q rt (NewIstioChangeReconciler k rt tr opts) s0 acts s"
    and "\<forall>f. Others f \<in> set acts \<longrightarrow> (\<forall>w. log (f w) = log w)"
  shows "\<exists>ess. log (ct_world s) = log (ct_world s0) @ concat ess \<and>
    (\<forall>es \<in> set ess. \<exists>r ok. Finish r ok \<in> set acts \<and> reconciled k rt tr opts (request_limit r) es)"
  using assms
proof (induction rule: ctl_run.induct)
  case start
  then show ?case by (intro exI [of _ "[]"]) simp
next
  case (more acts s act s')
  then obtain ess where ess: "log (ct_world s) = log (ct_world s0) @ concat ess"
    "\<forall>es \<in> set ess. \<exists>r ok. Finish r ok \<in> set acts \<and> reconciled k rt tr opts (request_limit r) es" by auto
  from more(2) have "log (ct_world s') = log (ct_world s) \<or>
      (\<exists>r ok es. act = Finish r ok \<and> log (ct_world s') = log (ct_world s) @ es \<and>
         reconciled k rt tr opts (request_limit r) es)"
  proof cases
    case (finish r out w ok)
    from emitsE [OF Reconcile_reconciled finish(4)] finish show ?thesis by auto
  qed (use more(4) in auto)
  then show ?case
  proof (elim disjE exE conjE)
    assume "log (ct_world s') = log (ct_world s)"
    with ess show ?thesis by (intro exI [of _ ess]) (simp, blast)
  next
    fix r ok es
    assume "act = Finish r ok" "log (ct_world s') = log (ct_world s) @ es" "reconciled k rt tr opts (request_limit r) es"
    with ess show ?thesis by (intro exI [of _ "ess @ [es]"]) (simp, blast)
  qed
qed

end

text \<open>What is finished was taken, and what is taken was asked for.\<close>

context work_queue begin

lemma finished_asked:
  assumes "ctl_run Q rt rec s0 acts s" and "ctl_ok view invar s0" and "owed view s0 = {}" and "ct_worker s0 = None"
    and "act \<in> set acts" and "act = Take r \<or> act = Finish r ok"
  shows "r \<in> asked (rc_reconcile_period rec) acts"
  using assms
proof (induction rule: ctl_run.induct)
  case (more acts s act' s')
  show ?case
  proof (cases "act \<in> set acts")
    case True
    with more show ?thesis by (simp add: asked_append)
  next
    case False
    with more have "act' = Take r \<or> act' = Finish r ok" by auto
    with more(2) run_ok [OF more(1,4)] get [of "ct_queue s" r] have "r \<in> owed view s \<union> set_option (ct_worker s)"
      by (auto simp: ctl_step_simps owed_def ctl_ok_def)
    with run_owed_from [OF more(1,4,5,6)] show ?thesis by (auto simp: asked_append)
  qed
qed simp

end

end
