(* ===== verification/Paths.thy ===== *)
theory Paths
  imports Prelude
begin

text \<open>
  The functions of \<open>path/filepath\<close> and \<open>strings\<close> that the start-up and the test helpers call, on
  Unix, and what cleaning makes of a path.
\<close>

section \<open>Substrings\<close>

text \<open>\<open>strings.Contains\<close>, \<open>strings.Index\<close>, \<open>strings.TrimPrefix\<close> and, for a non-empty \<open>old\<close>,
  \<open>strings.ReplaceAll\<close>.\<close>

fun str_index :: "string \<Rightarrow> string \<Rightarrow> nat option" where
  "str_index [] sub = (if sub = [] then Some 0 else None)"
| "str_index (c # s) sub = (if has_prefix (c # s) sub then Some 0 else map_option Suc (str_index s sub))"

definition contains :: "string \<Rightarrow> string \<Rightarrow> bool" where
  "contains s sub \<longleftrightarrow> str_index s sub \<noteq> None"

definition trim_prefix :: "string \<Rightarrow> string \<Rightarrow> string" where
  "trim_prefix s p = (if has_prefix s p then drop (length p) s else s)"

function replace_all :: "string \<Rightarrow> string \<Rightarrow> string \<Rightarrow> string" where
  "replace_all s old new =
     (case s of
        [] \<Rightarrow> []
      | c # cs \<Rightarrow> if old \<noteq> [] \<and> has_prefix s old then new @ replace_all (drop (length old) s) old new
                  else c # replace_all cs old new)"
  by pat_completeness auto
termination
  by (relation "measure (\<lambda>(s, old, new). length s)") auto

declare replace_all.simps [simp del]


section \<open>Paths\<close>

text \<open>
  \<open>filepath.Clean\<close> and \<open>filepath.Join\<close>: the elements are taken one by one, with those kept so far
  in reverse.
\<close>

fun join_path :: "string list \<Rightarrow> string" where
  "join_path [] = []"
| "join_path [s] = s"
| "join_path (s # t # ss) = s @ ''/'' @ join_path (t # ss)"

fun clean_elements :: "bool \<Rightarrow> string list \<Rightarrow> string list \<Rightarrow> string list" where
  "clean_elements rooted kept [] = rev kept"
| "clean_elements rooted kept (el # els) =
     (if el = [] \<or> el = ''.'' then clean_elements rooted kept els
      else if el = ''..'' then
        (case kept of
           [] \<Rightarrow> if rooted then clean_elements rooted [] els else clean_elements rooted [''..''] els
         | prev # rest \<Rightarrow>
             if prev = ''..'' then clean_elements rooted (''..'' # kept) els else clean_elements rooted rest els)
      else clean_elements rooted (el # kept) els)"

definition clean_path :: "string \<Rightarrow> string" where
  "clean_path path =
     (let rooted = has_prefix path ''/'';
          body = join_path (clean_elements rooted [] (split_on (CHR ''/'') path))
      in if path = [] then ''.''
         else if rooted then ''/'' @ body
         else if body = [] then ''.'' else body)"

definition filepath_Join :: "string list \<Rightarrow> string" where
  "filepath_Join els =
     (case dropWhile (\<lambda>el. el = []) els of
        [] \<Rightarrow> []
      | els' \<Rightarrow> clean_path (join_path els'))"

text \<open>
  \<open>filepath.IsAbs\<close>, \<open>filepath.IsLocal\<close> (which cleans only a path with dots) and \<open>filepath.Dir\<close>.
\<close>

definition is_abs :: "string \<Rightarrow> bool" where
  "is_abs path \<longleftrightarrow> has_prefix path ''/''"

definition is_local :: "string \<Rightarrow> bool" where
  "is_local path \<longleftrightarrow>
     \<not> is_abs path \<and> path \<noteq> [] \<and>
     (let p = (if ''.'' \<in> set (split_on (CHR ''/'') path) \<or> ''..'' \<in> set (split_on (CHR ''/'') path)
               then clean_path path else path)
      in p \<noteq> ''..'' \<and> \<not> has_prefix p ''../'')"

definition filepath_Dir :: "string \<Rightarrow> string" where
  "filepath_Dir path =
     clean_path (case last_index_of (CHR ''/'') path of None \<Rightarrow> [] | Some i \<Rightarrow> take (Suc i) path)"


section \<open>What is in a clean path\<close>

text \<open>A path that stays below where it starts: some elements, none of them empty or made of dots.\<close>

definition below :: "string \<Rightarrow> bool" where
  "below path \<longleftrightarrow> (\<forall>el \<in> set (split_on (CHR ''/'') path). el \<noteq> [] \<and> el \<noteq> ''.'' \<and> el \<noteq> ''..'')"

lemma split_on_join_path:
  "els \<noteq> [] \<Longrightarrow> \<forall>el \<in> set els. CHR ''/'' \<notin> set el \<Longrightarrow> split_on (CHR ''/'') (join_path els) = els"
  by (induction els rule: join_path.induct) (simp_all add: split_on_absent split_on_append)

text \<open>Without \<open>..\<close> cleaning only drops elements.\<close>

lemma clean_elements_filter:
  "''..'' \<notin> set els \<Longrightarrow> clean_elements rooted kept els = rev kept @ filter (\<lambda>el. el \<noteq> [] \<and> el \<noteq> ''.'') els"
  by (induction rooted kept els rule: clean_elements.induct) auto

lemma below_not_abs: "below path \<Longrightarrow> \<not> is_abs path \<and> path \<noteq> []"
proof (cases path)
  case (Cons c cs)
  assume "below path"
  with Cons have "c \<noteq> CHR ''/''" by (cases "c = CHR ''/''") (simp_all add: below_def)
  with Cons show ?thesis by (simp add: is_abs_def has_prefix_def)
qed (simp add: below_def)

lemma below_join:
  assumes "els \<noteq> []" and "\<forall>el \<in> set els. el \<noteq> [] \<and> el \<noteq> ''.'' \<and> el \<noteq> ''..'' \<and> CHR ''/'' \<notin> set el"
  shows "below (join_path els)"
  using assms split_on_join_path [of els] by (simp add: below_def)

lemma join_path_Nil: "join_path els = [] \<Longrightarrow> \<forall>el \<in> set els. el \<noteq> [] \<Longrightarrow> els = []"
  by (cases els rule: join_path.cases) auto

lemma clean_path_below:
  assumes "\<not> is_abs path" and "''..'' \<notin> set (split_on (CHR ''/'') path)"
  shows "clean_path path = ''.'' \<or> below (clean_path path)"
proof -
  let ?els = "filter (\<lambda>el. el \<noteq> [] \<and> el \<noteq> ''.'') (split_on (CHR ''/'') path)"
  have els: "\<forall>el \<in> set ?els. el \<noteq> [] \<and> el \<noteq> ''.'' \<and> el \<noteq> ''..'' \<and> CHR ''/'' \<notin> set el"
    using assms(2) split_on_no_sep by fastforce
  have "clean_path path = (if path = [] \<or> join_path ?els = [] then ''.'' else join_path ?els)"
    using assms clean_elements_filter [of "split_on (CHR ''/'') path" False "[]"]
    by (simp add: clean_path_def is_abs_def Let_def)
  with below_join [OF _ els] show ?thesis by (cases "?els = []") auto
qed

lemma split_on_append_any: "split_on c (a @ c # b) = split_on c a @ split_on c b"
  by (induction a) (auto split: list.splits)

lemma filepath_Dir_below:
  assumes "below path"
  shows "filepath_Dir path = ''.'' \<or> below (filepath_Dir path)"
proof (cases "last_index_of (CHR ''/'') path")
  case None
  then have "filepath_Dir path = clean_path []" unfolding filepath_Dir_def by (simp only: option.case)
  then show ?thesis by (simp add: clean_path_def)
next
  case (Some i)
  from last_index_of_SomeD [OF this] have path: "path = take i path @ CHR ''/'' # drop (Suc i) path"
    and cut: "take (Suc i) path = take i path @ [CHR ''/'']"
    by (simp_all add: take_Suc_conv_app_nth) (metis nth_append_length length_take min.absorb2 less_imp_le)
  have "''..'' \<notin> set (split_on (CHR ''/'') path)" using assms by (auto simp: below_def)
  then have "''..'' \<notin> set (split_on (CHR ''/'') (take (Suc i) path))"
    by (subst (asm) path) (simp add: cut split_on_append_any)
  moreover have "\<not> is_abs (take (Suc i) path)"
    using below_not_abs [OF assms] by (cases path) (auto simp: is_abs_def has_prefix_def)
  ultimately show ?thesis using clean_path_below Some by (simp add: filepath_Dir_def)
qed


section \<open>Joining plain elements\<close>

text \<open>Path elements that cleaning leaves alone.\<close>

definition plain_element :: "string \<Rightarrow> bool" where
  "plain_element el \<longleftrightarrow> el \<noteq> [] \<and> el \<noteq> ''.'' \<and> el \<noteq> ''..'' \<and> CHR ''/'' \<notin> set el"

lemma clean_plain: "list_all plain_element els \<Longrightarrow> clean_elements rooted kept els = rev kept @ els"
  by (induction els arbitrary: kept) (simp_all add: plain_element_def)

lemma join_path_snoc: "els \<noteq> [] \<Longrightarrow> join_path (els @ [el]) = join_path els @ ''/'' @ el"
  by (induction els rule: join_path.induct) simp_all

lemma clean_path_plain:
  assumes "els \<noteq> []" and "list_all plain_element els"
  shows "clean_path (''/'' @ join_path els) = ''/'' @ join_path els"
proof -
  have "split_on (CHR ''/'') (''/'' @ join_path els) = [] # els"
    using assms split_on_join_path [of els] by (simp add: list_all_iff plain_element_def)
  then show ?thesis
    using clean_plain [OF assms(2), of True "[]"] by (simp add: clean_path_def has_prefix_def)
qed

lemma filepath_Join_plain:
  assumes "els \<noteq> []" and "list_all plain_element els" and "plain_element name"
  shows "filepath_Join [''/'' @ join_path els, name] = ''/'' @ join_path els @ ''/'' @ name"
proof -
  have "filepath_Join [''/'' @ join_path els, name] = clean_path (''/'' @ join_path (els @ [name]))"
    by (simp add: filepath_Join_def join_path_snoc [OF assms(1)])
  also have "\<dots> = ''/'' @ join_path (els @ [name])"
    using assms by (intro clean_path_plain) simp_all
  finally show ?thesis by (simp add: join_path_snoc [OF assms(1)])
qed


section \<open>Finding substrings\<close>

lemma str_index_SomeD: "str_index s sub = Some i \<Longrightarrow> i + length sub \<le> length s \<and> s = take i s @ sub @ drop (i + length sub) s"
proof (induction s sub arbitrary: i rule: str_index.induct)
  case (2 c s sub)
  show ?case
  proof (cases "has_prefix (c # s) sub")
    case True
    with 2(2) obtain r where "c # s = sub @ r" "i = 0" by (auto simp: has_prefix_iff prefix_def)
    then show ?thesis by simp
  next
    case False
    with 2 show ?thesis by auto
  qed
qed (auto split: if_splits)

lemma str_index_None: "str_index s sub = None \<Longrightarrow> s \<noteq> a @ sub @ b"
proof (induction s sub arbitrary: a rule: str_index.induct)
  case (2 c s sub)
  then have "\<not> has_prefix (c # s) sub" "str_index s sub = None" by (auto split: if_splits)
  with 2(1) show ?case by (cases a) (auto simp: has_prefix_iff prefix_def)
qed (auto split: if_splits)

lemma contains_iff: "contains s sub \<longleftrightarrow> (\<exists>a b. s = a @ sub @ b)"
  unfolding contains_def using str_index_SomeD str_index_None by (metis not_None_eq)

lemma split_on_part: "p \<in> set (split_on c s) \<Longrightarrow> \<exists>a b. s = a @ p @ b"
proof (induction s arbitrary: p)
  case (Cons x xs)
  obtain y ys where xs: "split_on c xs = y # ys" using split_on_not_Nil [of c xs] by (cases "split_on c xs") auto
  have first: "\<exists>b. s' = y' @ b" if "split_on c s' = y' # ys'" for s' y' ys'
    using that by (induction s' arbitrary: y' ys') (auto split: if_splits list.splits)
  show ?case
  proof (cases "p \<in> set (split_on c xs)")
    case True
    from Cons.IH [OF this] obtain a b where "xs = a @ p @ b" by blast
    then have "x # xs = (x # a) @ p @ b" by simp
    then show ?thesis by blast
  next
    case False
    with Cons.prems xs have "p = [] \<or> p = x # y" by (auto split: if_splits)
    with first [OF xs] show ?thesis by (metis append_Cons append_Nil)
  qed
qed simp

lemma not_contains_part: "\<not> contains s p \<Longrightarrow> p \<notin> set (split_on c s)"
  using split_on_part by (metis contains_iff)

end
