(* ===== verification/CommandLine.thy ===== *)
theory CommandLine
  imports Controller Paths
begin

text \<open>
  \<open>cmd/main.go\<close>: the flags with their types and defaults, the options of the servers, the manager
  and the reconciler made from them, and the start-up of the process with its exit codes. The
  getters of viper are a record (\<open>settings\<close>), what they answer once the command line has been
  parsed (\<open>given_by\<close>: from it, else from the environment); certwatcher, the manager and the process's output are a record of operations of the
  world (\<open>manager_lib\<close>). Logging and zap's flags are left out. \<open>parseSkipNamespaces\<close> is in
  \<open>Reconciler\<close>.
\<close>

section \<open>Flags\<close>

datatype flag_value = BoolFlag bool | StringFlag string | DurationFlag duration

definition flags :: "(string \<times> flag_value) list" where
  "flags =
     [(''version'', BoolFlag False),
      (''metrics-bind-address'', StringFlag '':8080''),
      (''health-probe-bind-address'', StringFlag '':8081''),
      (''leader-elect'', BoolFlag True),
      (''metrics-secure'', BoolFlag True),
      (''webhook-cert-path'', StringFlag ''''),
      (''webhook-cert-name'', StringFlag ''tls.crt''),
      (''webhook-cert-key'', StringFlag ''tls.key''),
      (''metrics-cert-path'', StringFlag ''''),
      (''metrics-cert-name'', StringFlag ''tls.crt''),
      (''metrics-cert-key'', StringFlag ''tls.key''),
      (''enable-http2'', BoolFlag False),
      (''dry-run'', BoolFlag False),
      (''compare-hub'', BoolFlag False),
      (''restart-delay'', DurationFlag 0),
      (''istiod-config-read-delay'', DurationFlag (10 * second)),
      (''reconcile-period'', DurationFlag 0),
      (''annotation-cooldown'', DurationFlag (5 * (60 * second))),
      (''skip-namespaces'', StringFlag ''kube-system,istio-system'')]"

record settings =
  vp_GetBool :: "string \<Rightarrow> bool"
  vp_GetString :: "string \<Rightarrow> string"
  vp_GetDuration :: "string \<Rightarrow> duration"

text \<open>The getters answer as declared: each flag, asked for with the getter of its type.\<close>

fun getter_agrees :: "settings \<Rightarrow> settings \<Rightarrow> string \<times> flag_value \<Rightarrow> bool" where
  "getter_agrees v v' (name, BoolFlag _) = (vp_GetBool v name = vp_GetBool v' name)"
| "getter_agrees v v' (name, StringFlag _) = (vp_GetString v name = vp_GetString v' name)"
| "getter_agrees v v' (name, DurationFlag _) = (vp_GetDuration v name = vp_GetDuration v' name)"

definition same_flags :: "settings \<Rightarrow> settings \<Rightarrow> bool" where
  "same_flags v v' \<longleftrightarrow> list_all (getter_agrees v v') flags"

text \<open>
  What viper documents: a value that was given, by flag or environment, comes before the default
  of the flag, and a key without either reads as the zero value.
\<close>

definition given_or_default :: "(string \<rightharpoonup> flag_value) \<Rightarrow> string \<Rightarrow> flag_value option" where
  "given_or_default given name = (case given name of Some x \<Rightarrow> Some x | None \<Rightarrow> map_of flags name)"

text \<open>
  The environment variable of a key: the prefix, an underscore and the key in upper case, with
  underscores in the place of dashes. A flag on the command line comes before its variable, and
  an empty variable counts as none; \<open>cast\<close> is viper's conversion of a variable's text to the type
  of a flag.
\<close>

definition upper :: "char \<Rightarrow> char" where
  "upper c =
     (case map_of (zip ''abcdefghijklmnopqrstuvwxyz'' ''ABCDEFGHIJKLMNOPQRSTUVWXYZ'') c of Some u \<Rightarrow> u | None \<Rightarrow> c)"

definition env_char :: "char \<Rightarrow> char" where
  "env_char c = (if upper c = CHR ''-'' then CHR ''_'' else upper c)"

definition env_key :: "string \<Rightarrow> string" where
  "env_key name = map env_char (''FORTSA'' @ ''_'' @ name)"

definition given_by ::
  "(flag_value \<Rightarrow> string \<Rightarrow> flag_value) \<Rightarrow> (string \<rightharpoonup> flag_value) \<Rightarrow> (string \<rightharpoonup> string) \<Rightarrow> (string \<rightharpoonup> flag_value)" where
  "given_by cast cmdline env name =
     (case cmdline name of
        Some x \<Rightarrow> Some x
      | None \<Rightarrow>
          (case env (env_key name) of
             Some raw \<Rightarrow> if raw = [] then None else map_option (\<lambda>dflt. cast dflt raw) (map_of flags name)
           | None \<Rightarrow> None))"

definition viper_of :: "(string \<rightharpoonup> flag_value) \<Rightarrow> settings" where
  "viper_of given =
     \<lparr>vp_GetBool = (\<lambda>name. case given_or_default given name of Some (BoolFlag b) \<Rightarrow> b | _ \<Rightarrow> False),
      vp_GetString = (\<lambda>name. case given_or_default given name of Some (StringFlag s) \<Rightarrow> s | _ \<Rightarrow> []),
      vp_GetDuration = (\<lambda>name. case given_or_default given name of Some (DurationFlag d) \<Rightarrow> d | _ \<Rightarrow> 0)\<rparr>"


section \<open>Version\<close>

record build_info =
  bi_Version :: string
  bi_Commit :: string
  bi_BuildTime :: string

definition newline :: string where
  "newline = [CHR 0x0A]"

definition version_text :: "build_info \<Rightarrow> string" where
  "version_text info =
     (let v = (if bi_Version info = [] then ''dev'' else bi_Version info)
      in ''fortsa version '' @ v @ newline
         @ (if bi_Commit info \<noteq> [] then ''  commit: '' @ bi_Commit info @ newline else [])
         @ (if bi_BuildTime info \<noteq> [] then ''  build time: '' @ bi_BuildTime info @ newline else []))"


section \<open>The servers' options\<close>

text \<open>A TLS configuration as far as the options touch it; a watcher is the handle of its files.\<close>

record 'cw tls_config =
  tc_NextProtos :: "string list"
  tc_GetCertificate :: "'cw option"

type_synonym 'cw tls_opt = "'cw tls_config \<Rightarrow> 'cw tls_config"

definition disableHTTP2 :: "'cw tls_opt" where
  "disableHTTP2 c = c\<lparr>tc_NextProtos := [''http/1.1'']\<rparr>"

definition tlsOpts :: "settings \<Rightarrow> 'cw tls_opt list" where
  "tlsOpts v = (if \<not> vp_GetBool v ''enable-http2'' then [disableHTTP2] else [])"

text \<open>The option that is appended when a certificate watcher was made.\<close>

definition with_certificate :: "'cw tls_opt list \<Rightarrow> 'cw option \<Rightarrow> 'cw tls_opt list" where
  "with_certificate opts watcher =
     (case watcher of
        Some cw \<Rightarrow> opts @ [\<lambda>config. config\<lparr>tc_GetCertificate := Some cw\<rparr>]
      | None \<Rightarrow> opts)"

text \<open>The servers apply the options in order.\<close>

definition apply_tls_opts :: "'cw tls_opt list \<Rightarrow> 'cw tls_config \<Rightarrow> 'cw tls_config" where
  "apply_tls_opts opts c = fold (\<lambda>opt c. opt c) opts c"

record 'cw metrics_options =
  mt_BindAddress :: string
  mt_SecureServing :: bool
  mt_TLSOpts :: "'cw tls_opt list"
  mt_FilterProvider :: bool

definition metricsServerOptions :: "settings \<Rightarrow> 'cw option \<Rightarrow> 'cw metrics_options" where
  "metricsServerOptions v metricsCertWatcher =
     \<lparr>mt_BindAddress = vp_GetString v ''metrics-bind-address'',
      mt_SecureServing = vp_GetBool v ''metrics-secure'',
      mt_TLSOpts = with_certificate (tlsOpts v) metricsCertWatcher,
      mt_FilterProvider = vp_GetBool v ''metrics-secure''\<rparr>"

record 'cw manager_options =
  mo_Metrics :: "'cw metrics_options"
  mo_WebhookTLSOpts :: "'cw tls_opt list"
  mo_HealthProbeBindAddress :: string
  mo_LeaderElection :: bool
  mo_LeaderElectionID :: string

definition manager_options_of :: "settings \<Rightarrow> 'cw option \<Rightarrow> 'cw option \<Rightarrow> 'cw manager_options" where
  "manager_options_of v webhookCertWatcher metricsCertWatcher =
     \<lparr>mo_Metrics = metricsServerOptions v metricsCertWatcher,
      mo_WebhookTLSOpts = with_certificate (tlsOpts v) webhookCertWatcher,
      mo_HealthProbeBindAddress = vp_GetString v ''health-probe-bind-address'',
      mo_LeaderElection = vp_GetBool v ''leader-elect'',
      mo_LeaderElectionID = ''71f32f9d.fortsa.scaffidi.net''\<rparr>"

definition reconciler_options_of :: "settings \<Rightarrow> reconciler_options" where
  "reconciler_options_of v =
     \<lparr>ro_dry_run = vp_GetBool v ''dry-run'',
      ro_compare_hub = vp_GetBool v ''compare-hub'',
      ro_restart_delay = vp_GetDuration v ''restart-delay'',
      ro_istiod_config_read_delay = vp_GetDuration v ''istiod-config-read-delay'',
      ro_annotation_cooldown = vp_GetDuration v ''annotation-cooldown'',
      ro_skip_namespaces = parseSkipNamespaces (vp_GetString v ''skip-namespaces''),
      ro_reconcile_period = vp_GetDuration v ''reconcile-period''\<rparr>"


section \<open>The process\<close>

text \<open>
  What the process calls. \<open>pflag.Parse\<close> and \<open>ctrl.GetConfigOrDie\<close> may end the process themselves,
  with an exit code.
\<close>

record ('w, 'm, 'cw, 'q) manager_lib =
  ml_AddClientGoScheme :: "'w \<Rightarrow> goerror option \<times> 'w"
  ml_AddCoreScheme :: "'w \<Rightarrow> goerror option \<times> 'w"
  ml_BindPFlags :: "(string \<times> flag_value) list \<Rightarrow> 'w \<Rightarrow> goerror option \<times> 'w"
  ml_Parse :: "(string \<times> flag_value) list \<Rightarrow> 'w \<Rightarrow> int option \<times> 'w"
  ml_Print :: "string \<Rightarrow> 'w \<Rightarrow> unit \<times> 'w"
  ml_NewCertWatcher :: "string \<Rightarrow> string \<Rightarrow> 'w \<Rightarrow> (goerror + 'cw) \<times> 'w"
  ml_GetConfigOrDie :: "'w \<Rightarrow> int option \<times> 'w"
  ml_NewManager :: "'cw manager_options \<Rightarrow> 'w \<Rightarrow> (goerror + 'm) \<times> 'w"
  ml_GetClient :: "'m \<Rightarrow> 'w kube"
  ml_Complete :: "'m \<Rightarrow> 'q controller_builder \<Rightarrow> 'w reconciler \<Rightarrow> 'w \<Rightarrow> goerror option \<times> 'w"
  ml_Add :: "'m \<Rightarrow> 'cw \<Rightarrow> 'w \<Rightarrow> goerror option \<times> 'w"
  ml_AddHealthzCheck :: "'m \<Rightarrow> string \<Rightarrow> 'w \<Rightarrow> goerror option \<times> 'w"
  ml_AddReadyzCheck :: "'m \<Rightarrow> string \<Rightarrow> 'w \<Rightarrow> goerror option \<times> 'w"
  ml_Start :: "'m \<Rightarrow> 'w \<Rightarrow> goerror option \<times> 'w"

text \<open>How \<open>main\<close> ends: by \<open>os.Exit\<close> with a code, or by returning, which is code 0.\<close>

datatype main_exit = Exits int | MainReturns

text \<open>The idioms \<open>if err := m(); err != nil { ...; os.Exit(1) }\<close> and the same with a value.\<close>

definition exit_on_error ::
  "('w, goerror option) go \<Rightarrow> ('w, main_exit) go \<Rightarrow> ('w, main_exit) go" where
  "exit_on_error m continue = go_bind m (\<lambda>e. case e of Some _ \<Rightarrow> go_ret (Exits 1) | None \<Rightarrow> continue)"

definition exit_or ::
  "('w, goerror + 'a) go \<Rightarrow> ('a \<Rightarrow> ('w, main_exit) go) \<Rightarrow> ('w, main_exit) go" where
  "exit_or m continue = go_bind m (\<lambda>r. case r of Inl _ \<Rightarrow> go_ret (Exits 1) | Inr x \<Rightarrow> continue x)"

definition or_dies :: "('w, int option) go \<Rightarrow> ('w, main_exit) go \<Rightarrow> ('w, main_exit) go" where
  "or_dies m continue = go_bind m (\<lambda>c. case c of Some code \<Rightarrow> go_ret (Exits code) | None \<Rightarrow> continue)"

definition Must :: "('w, goerror option) go \<Rightarrow> ('w, unit) go" where
  "Must m = go_bind m (\<lambda>e. case e of Some _ \<Rightarrow> go_panic ''utilruntime.Must'' | None \<Rightarrow> go_ret ())"

definition init_main :: "('w, 'm, 'cw, 'q) manager_lib \<Rightarrow> ('w, unit) go" where
  "init_main lib =
     go_bind (Must (go_call (ml_AddClientGoScheme lib)))
       (\<lambda>_. Must (go_call (ml_AddCoreScheme lib)))"

definition new_cert_watcher ::
  "('w, 'm, 'cw, 'q) manager_lib \<Rightarrow> string \<Rightarrow> string \<Rightarrow> string \<Rightarrow> ('w, goerror + 'cw option) go" where
  "new_cert_watcher lib certPath certName certKey =
     (if 0 < length certPath then
        go_try (\<lambda>err. err)
          (go_call (ml_NewCertWatcher lib (filepath_Join [certPath, certName]) (filepath_Join [certPath, certKey])))
          (\<lambda>watcher. go_ret (Inr (Some watcher)))
      else go_ret (Inr None))"

definition webhook_cert_watcher ::
  "('w, 'm, 'cw, 'q) manager_lib \<Rightarrow> settings \<Rightarrow> ('w, goerror + 'cw option) go" where
  "webhook_cert_watcher lib v =
     new_cert_watcher lib (vp_GetString v ''webhook-cert-path'') (vp_GetString v ''webhook-cert-name'')
       (vp_GetString v ''webhook-cert-key'')"

definition metrics_cert_watcher ::
  "('w, 'm, 'cw, 'q) manager_lib \<Rightarrow> settings \<Rightarrow> ('w, goerror + 'cw option) go" where
  "metrics_cert_watcher lib v =
     new_cert_watcher lib (vp_GetString v ''metrics-cert-path'') (vp_GetString v ''metrics-cert-name'')
       (vp_GetString v ''metrics-cert-key'')"

definition add_watcher :: "('w, 'm, 'cw, 'q) manager_lib \<Rightarrow> 'm \<Rightarrow> 'cw option \<Rightarrow> ('w, goerror option) go" where
  "add_watcher lib mgr watcher =
     (case watcher of Some cw \<Rightarrow> go_call (ml_Add lib mgr cw) | None \<Rightarrow> go_ret None)"

text \<open>From the manager on: the controller, the watchers, the checks, and the start.\<close>

definition run_manager ::
  "('w, 'm, 'cw, 'q) manager_lib \<Rightarrow> 'w runtime \<Rightarrow> 'w transport \<Rightarrow> settings \<Rightarrow> 'cw option \<Rightarrow> 'cw option \<Rightarrow> 'm \<Rightarrow>
   ('w, main_exit) go" where
  "run_manager lib rt tr v webhookCertWatcher metricsCertWatcher mgr =
     (let reconciler = NewIstioChangeReconciler (ml_GetClient lib mgr) rt tr (reconciler_options_of v)
      in exit_on_error (SetupIstioChangeController (ml_Complete lib mgr) reconciler)
           (exit_on_error (add_watcher lib mgr metricsCertWatcher)
           (exit_on_error (add_watcher lib mgr webhookCertWatcher)
           (exit_on_error (go_call (ml_AddHealthzCheck lib mgr ''healthz''))
           (exit_on_error (go_call (ml_AddReadyzCheck lib mgr ''readyz''))
           (exit_on_error (go_call (ml_Start lib mgr))
             (go_ret MainReturns)))))))"

definition main_program ::
  "('w, 'm, 'cw, 'q) manager_lib \<Rightarrow> 'w runtime \<Rightarrow> 'w transport \<Rightarrow> build_info \<Rightarrow> settings \<Rightarrow> ('w, main_exit) go" where
  "main_program lib rt tr info v =
     exit_on_error (go_call (ml_BindPFlags lib flags))
       (or_dies (go_call (ml_Parse lib flags))
       (if vp_GetBool v ''version'' then
          go_bind (go_call (ml_Print lib (version_text info))) (\<lambda>_. go_ret (Exits 0))
        else
          exit_or (webhook_cert_watcher lib v) (\<lambda>webhookCertWatcher.
          exit_or (metrics_cert_watcher lib v) (\<lambda>metricsCertWatcher.
          or_dies (go_call (ml_GetConfigOrDie lib))
          (exit_or (go_call (ml_NewManager lib (manager_options_of v webhookCertWatcher metricsCertWatcher)))
             (run_manager lib rt tr v webhookCertWatcher metricsCertWatcher))))))"

text \<open>The process: \<open>init\<close>, then \<open>main\<close>.\<close>

definition fortsa_process ::
  "('w, 'm, 'cw, 'q) manager_lib \<Rightarrow> 'w runtime \<Rightarrow> 'w transport \<Rightarrow> build_info \<Rightarrow> settings \<Rightarrow> ('w, main_exit) go" where
  "fortsa_process lib rt tr info v = go_bind (init_main lib) (\<lambda>_. main_program lib rt tr info v)"


section \<open>Reading the flags\<close>

lemma same_flags_simps:
  assumes "same_flags v v'"
  shows "vp_GetBool v ''version'' = vp_GetBool v' ''version''"
    and "vp_GetBool v ''leader-elect'' = vp_GetBool v' ''leader-elect''"
    and "vp_GetBool v ''metrics-secure'' = vp_GetBool v' ''metrics-secure''"
    and "vp_GetBool v ''enable-http2'' = vp_GetBool v' ''enable-http2''"
    and "vp_GetBool v ''dry-run'' = vp_GetBool v' ''dry-run''"
    and "vp_GetBool v ''compare-hub'' = vp_GetBool v' ''compare-hub''"
    and "vp_GetString v ''metrics-bind-address'' = vp_GetString v' ''metrics-bind-address''"
    and "vp_GetString v ''health-probe-bind-address'' = vp_GetString v' ''health-probe-bind-address''"
    and "vp_GetString v ''webhook-cert-path'' = vp_GetString v' ''webhook-cert-path''"
    and "vp_GetString v ''webhook-cert-name'' = vp_GetString v' ''webhook-cert-name''"
    and "vp_GetString v ''webhook-cert-key'' = vp_GetString v' ''webhook-cert-key''"
    and "vp_GetString v ''metrics-cert-path'' = vp_GetString v' ''metrics-cert-path''"
    and "vp_GetString v ''metrics-cert-name'' = vp_GetString v' ''metrics-cert-name''"
    and "vp_GetString v ''metrics-cert-key'' = vp_GetString v' ''metrics-cert-key''"
    and "vp_GetString v ''skip-namespaces'' = vp_GetString v' ''skip-namespaces''"
    and "vp_GetDuration v ''restart-delay'' = vp_GetDuration v' ''restart-delay''"
    and "vp_GetDuration v ''istiod-config-read-delay'' = vp_GetDuration v' ''istiod-config-read-delay''"
    and "vp_GetDuration v ''reconcile-period'' = vp_GetDuration v' ''reconcile-period''"
    and "vp_GetDuration v ''annotation-cooldown'' = vp_GetDuration v' ''annotation-cooldown''"
  using assms by (simp_all add: same_flags_def flags_def)

lemma tlsOpts_same: "same_flags v v' \<Longrightarrow> tlsOpts v = tlsOpts v'"
  by (simp add: tlsOpts_def same_flags_simps(4))

lemma manager_options_same: "same_flags v v' \<Longrightarrow> manager_options_of v = manager_options_of v'"
  by (rule ext)+ (simp add: manager_options_of_def metricsServerOptions_def tlsOpts_same same_flags_simps [of v v'])

lemma reconciler_options_same: "same_flags v v' \<Longrightarrow> reconciler_options_of v = reconciler_options_of v'"
  by (simp add: reconciler_options_of_def same_flags_simps [of v v'])

lemma cert_watchers_same:
  "same_flags v v' \<Longrightarrow> webhook_cert_watcher lib v = webhook_cert_watcher lib v'"
  "same_flags v v' \<Longrightarrow> metrics_cert_watcher lib v = metrics_cert_watcher lib v'"
  by (simp_all add: webhook_cert_watcher_def metrics_cert_watcher_def same_flags_simps [of v v'])

lemma run_manager_same: "same_flags v v' \<Longrightarrow> run_manager lib rt tr v = run_manager lib rt tr v'"
  by (rule ext)+ (simp add: run_manager_def reconciler_options_same [of v v'])


section \<open>The order of the start-up\<close>

lemma exit_on_errorE [go_elims]:
  assumes "returns (exit_on_error m continue) w x w'"
  obtains (fail) e where "returns m w (Some e) w'" and "x = Exits 1"
    | (ok) w1 where "returns m w None w1" and "returns continue w1 x w'"
  using assms by (auto simp: exit_on_error_def elim!: returns_bindE split: option.splits)

lemma exit_orE [go_elims]:
  assumes "returns (exit_or m continue) w x w'"
  obtains (fail) e where "returns m w (Inl e) w'" and "x = Exits 1"
    | (ok) y w1 where "returns m w (Inr y) w1" and "returns (continue y) w1 x w'"
  using assms by (auto simp: exit_or_def elim!: returns_bindE split: sum.splits)

lemma or_diesE [go_elims]:
  assumes "returns (or_dies m continue) w x w'"
  obtains (dies) c where "returns m w (Some c) w'" and "x = Exits c"
    | (ok) w1 where "returns m w None w1" and "returns continue w1 x w'"
  using assms by (auto simp: or_dies_def elim!: returns_bindE split: option.splits)

text \<open>\<open>P\<close> is kept by everything that is called before \<open>Start\<close>.\<close>

locale startup =
  fixes lib :: "('w, 'm, 'cw, 'q) manager_lib" and P :: "'w \<Rightarrow> bool"
  assumes bind_flags: "preserves P (go_call (ml_BindPFlags lib fs))"
    and parse: "preserves P (go_call (ml_Parse lib fs))"
    and print: "preserves P (go_call (ml_Print lib s))"
    and new_watcher: "preserves P (go_call (ml_NewCertWatcher lib cert key))"
    and get_config: "preserves P (go_call (ml_GetConfigOrDie lib))"
    and new_manager: "preserves P (go_call (ml_NewManager lib opts))"
    and complete: "preserves P (go_call (ml_Complete lib mgr b reconciler))"
    and add_runnable: "preserves P (go_call (ml_Add lib mgr cw))"
    and add_healthz: "preserves P (go_call (ml_AddHealthzCheck lib mgr name))"
    and add_readyz: "preserves P (go_call (ml_AddReadyzCheck lib mgr name))"
begin

text \<open>The end of a start-up: before \<open>Start\<close>, without success; or with what \<open>Start\<close> gave.\<close>

definition ends :: "main_exit \<Rightarrow> 'w \<Rightarrow> bool" where
  "ends x w' \<longleftrightarrow>
     (P w' \<and> x \<noteq> MainReturns) \<or>
     (\<exists>mgr w1 e. P w1 \<and> ml_Start lib mgr w1 = (e, w') \<and> x = (if e = None then MainReturns else Exits 1))"

lemma ends_exit: "P w \<Longrightarrow> ends (Exits c) w"
  by (simp add: ends_def)

lemma ends_exit_on_error:
  assumes "returns (exit_on_error m continue) w x w'" and "P w" and "preserves P m"
    and "\<And>w1. P w1 \<Longrightarrow> returns continue w1 x w' \<Longrightarrow> ends x w'"
  shows "ends x w'"
  using assms(1)
proof (cases rule: exit_on_errorE)
  case fail
  with preserves_returns [OF assms(3) fail(1) assms(2)] show ?thesis by (simp add: ends_exit)
next
  case (ok w1)
  from preserves_returns [OF assms(3) ok(1) assms(2)] ok(2) show ?thesis by (rule assms(4))
qed

lemma ends_exit_or:
  assumes "returns (exit_or m continue) w x w'" and "P w" and "preserves P m"
    and "\<And>y w1. P w1 \<Longrightarrow> returns (continue y) w1 x w' \<Longrightarrow> ends x w'"
  shows "ends x w'"
  using assms(1)
proof (cases rule: exit_orE)
  case fail
  with preserves_returns [OF assms(3) fail(1) assms(2)] show ?thesis by (simp add: ends_exit)
next
  case (ok y w1)
  from preserves_returns [OF assms(3) ok(1) assms(2)] ok(2) show ?thesis by (rule assms(4))
qed

lemma ends_or_dies:
  assumes "returns (or_dies m continue) w x w'" and "P w" and "preserves P m"
    and "\<And>w1. P w1 \<Longrightarrow> returns continue w1 x w' \<Longrightarrow> ends x w'"
  shows "ends x w'"
  using assms(1)
proof (cases rule: or_diesE)
  case (dies c)
  with preserves_returns [OF assms(3) dies(1) assms(2)] show ?thesis by (simp add: ends_exit)
next
  case (ok w1)
  from preserves_returns [OF assms(3) ok(1) assms(2)] ok(2) show ?thesis by (rule assms(4))
qed

lemma watcher_keeps: "preserves P (new_cert_watcher lib certPath certName certKey)"
  unfolding new_cert_watcher_def by (intro preserves_intros new_watcher)

lemma setup_keeps: "preserves P (SetupIstioChangeController (ml_Complete lib mgr) reconciler)"
  unfolding SetupIstioChangeController_def by (rule complete)

lemma add_watcher_keeps: "preserves P (add_watcher lib mgr watcher)"
  unfolding add_watcher_def by (intro preserves_intros add_runnable)

lemma start_ends:
  assumes "returns (exit_on_error (go_call (ml_Start lib mgr)) (go_ret MainReturns)) w x w'" and "P w"
  shows "ends x w'"
  using assms(1)
proof (cases rule: exit_on_errorE)
  case (fail e)
  with assms(2) show ?thesis
    unfolding ends_def by (intro disjI2 exI [of _ mgr] exI [of _ w] exI [of _ "Some e"]) simp
next
  case (ok w1)
  with assms(2) show ?thesis
    unfolding ends_def by (intro disjI2 exI [of _ mgr] exI [of _ w] exI [of _ None]) simp
qed

lemma run_manager_ends:
  assumes "returns (run_manager lib rt tr v wcw mcw mgr) w x w'" and "P w"
  shows "ends x w'"
  using assms(1) unfolding run_manager_def Let_def
  by (elim ends_exit_on_error start_ends)
    (assumption | rule assms(2) setup_keeps add_watcher_keeps add_healthz add_readyz)+

lemma version_ends:
  assumes "returns (go_bind (go_call (ml_Print lib s)) (\<lambda>_. go_ret (Exits 0))) w x w'" and "P w"
  shows "ends x w'"
  using assms(1)
proof (rule returns_bindE)
  fix y w1
  assume y: "returns (go_call (ml_Print lib s)) w y w1" and "returns (go_ret (Exits 0)) w1 x w'"
  with preserves_returns [OF print y assms(2)] show ?thesis by (simp add: ends_exit)
qed

lemma serving_ends:
  assumes "returns (exit_or (webhook_cert_watcher lib v) (\<lambda>wcw. exit_or (metrics_cert_watcher lib v) (\<lambda>mcw.
      or_dies (go_call (ml_GetConfigOrDie lib))
        (exit_or (go_call (ml_NewManager lib (manager_options_of v wcw mcw))) (run_manager lib rt tr v wcw mcw))))) w x w'"
    and "P w"
  shows "ends x w'"
  using assms(1) unfolding webhook_cert_watcher_def metrics_cert_watcher_def
  by (elim ends_exit_or ends_or_dies run_manager_ends)
    (assumption | rule assms(2) watcher_keeps get_config new_manager)+

lemma main_ends:
  assumes "returns (main_program lib rt tr info v) w x w'" and "P w"
  shows "ends x w'"
proof -
  have rest: "ends x w'" if "P w1" and
    "returns (if vp_GetBool v ''version'' then
          go_bind (go_call (ml_Print lib (version_text info))) (\<lambda>_. go_ret (Exits 0))
        else exit_or (webhook_cert_watcher lib v) (\<lambda>wcw. exit_or (metrics_cert_watcher lib v) (\<lambda>mcw.
          or_dies (go_call (ml_GetConfigOrDie lib))
            (exit_or (go_call (ml_NewManager lib (manager_options_of v wcw mcw)))
               (run_manager lib rt tr v wcw mcw))))) w1 x w'" for w1
    using that by (auto split: if_splits intro: version_ends serving_ends)
  show ?thesis
    using assms(1) unfolding main_program_def
    by (rule ends_exit_on_error [OF _ assms(2) bind_flags]) (erule (1) ends_or_dies [OF _ _ parse rest, rotated])
qed

end

end
