(* ===== verification/Spacing.thy ===== *)
theory Spacing
  imports Controller
begin

text \<open>
  How often a workload can be restarted. \<open>restart_observer\<close> looks at the calls of the API client: it
  notes for every patch that is sent the restart annotation that the last read of the workload
  has shown, whatever that was. The annotator reads a workload before it restarts it, so every
  restart of a run comes a cooldown after the one that was shown. Reads may be stale and others may
  write the annotation too: what is noted is what was shown.
\<close>

section \<open>Patches with what was shown before them\<close>

type_synonym observed_patch = "wtype \<times> namespaced_name \<times> json \<times> string option"

text \<open>
  \<open>cooled lo d e\<close>: the patch is a restart at a time from \<open>lo\<close> on, and a restart that was shown before
  it is \<open>d\<close> earlier.
\<close>

definition cooled :: "gotime \<Rightarrow> duration \<Rightarrow> observed_patch \<Rightarrow> bool" where
  "cooled lo d e \<longleftrightarrow>
     (case e of (ty, nn, doc, seen) \<Rightarrow>
        \<exists>now. lo \<le> now \<and> doc = restart_patch (format_rfc3339 now) \<and> 0 \<le> year_of now \<and> year_of now \<le> 9999 \<and>
          (\<forall>v t. seen = Some v \<longrightarrow> parse_rfc3339 v = Some t \<longrightarrow> t \<noteq> zero_time \<longrightarrow> t + d \<le> now))"

text \<open>
  \<open>restart_gap d v v'\<close>: the times of the two values are \<open>d\<close> apart, but for the second to which the
  values are cut. \<open>spaced d e e'\<close>: the two patches are so far apart when the second one was sent
  after a read that showed the first.
\<close>

definition restart_gap :: "duration \<Rightarrow> string \<Rightarrow> string \<Rightarrow> bool" where
  "restart_gap d v v' \<longleftrightarrow>
     (\<exists>t t'. parse_rfc3339 v = Some t \<and> parse_rfc3339 v' = Some t' \<and> t + d < t' + second)"

definition spaced :: "duration \<Rightarrow> observed_patch \<Rightarrow> observed_patch \<Rightarrow> bool" where
  "spaced d e e' \<longleftrightarrow>
     (case e of (ty, nn, doc, seen) \<Rightarrow> case e' of (ty', nn', doc', seen') \<Rightarrow>
        \<forall>v v'. doc = restart_patch v \<longrightarrow> doc' = restart_patch v' \<longrightarrow> ty' = ty \<longrightarrow> nn' = nn \<longrightarrow> seen' = Some v \<longrightarrow>
          restart_gap d v v')"

lemma restart_patch_inject [simp]: "restart_patch v = restart_patch v' \<longleftrightarrow> v = v'"
  by (simp add: restart_patch_def)

lemma parse_rfc3339_Nil: "parse_rfc3339 [] = None"
  by (simp add: parse_rfc3339_def get_year_def)

lemma cooled_spaced:
  assumes "cooled lo d e" and "cooled lo d e'" and "second < lo"
  shows "spaced d e e'"
proof -
  obtain ty nn doc seen ty' nn' doc' seen' where e: "e = (ty, nn, doc, seen)" and e': "e' = (ty', nn', doc', seen')"
    by (metis surj_pair)
  from assms(1) obtain now where now: "lo \<le> now" "doc = restart_patch (format_rfc3339 now)" "0 \<le> year_of now" "year_of now \<le> 9999"
    by (auto simp: e cooled_def)
  from assms(2) obtain now' where now': "doc' = restart_patch (format_rfc3339 now')" "0 \<le> year_of now'" "year_of now' \<le> 9999"
    and after: "\<And>v t. seen' = Some v \<Longrightarrow> parse_rfc3339 v = Some t \<Longrightarrow> t \<noteq> zero_time \<Longrightarrow> t + d \<le> now'"
    by (auto simp: e' cooled_def)
  have parse: "parse_rfc3339 (format_rfc3339 now) = Some (now - now mod second)"
    "parse_rfc3339 (format_rfc3339 now') = Some (now' - now' mod second)"
    by (rule parse_format [OF now(3,4)], rule parse_format [OF now'(2,3)])
  have cut: "now mod second < second" "now' mod second < second" by simp_all
  with now(1) assms(3) have "now - now mod second \<noteq> zero_time" by (simp add: zero_time_def)
  with after parse(1) have "now - now mod second + d \<le> now'" if "seen' = Some (format_rfc3339 now)"
    using that by blast
  with cut parse show ?thesis
    by (fastforce simp: e e' spaced_def restart_gap_def now(2) now'(1))
qed


text \<open>\<open>grown lo d l0 l\<close>: from \<open>l0\<close> to \<open>l\<close> only such patches were added.\<close>

definition grown :: "gotime \<Rightarrow> duration \<Rightarrow> observed_patch list \<Rightarrow> observed_patch list \<Rightarrow> bool" where
  "grown lo d l0 l \<longleftrightarrow> (\<exists>es. l = l0 @ es \<and> list_all (cooled lo d) es)"


section \<open>The observer\<close>

text \<open>
  \<open>shown w ty nn\<close> is the annotation that the reads of a workload have shown up to the world \<open>w\<close>: a
  read that finds the workload sets it to what it shows, and neither the clock nor a wait nor a
  patch that meets a conflict changes it. \<open>sent\<close> is the list of the patches, each with what was
  shown before it. Any client and runtime can be observed so; the one demand on the outside is that
  the clock does not run backwards.
\<close>

locale restart_observer =
  fixes k :: "'w kube" and rt :: "'w runtime" and tr :: "'w transport"
    and shown :: "'w \<Rightarrow> wtype \<Rightarrow> namespaced_name \<Rightarrow> string option" and sent :: "'w \<Rightarrow> observed_patch list"
    and clock :: "'w \<Rightarrow> gotime"
  assumes reads: "reading k tr rt (\<lambda>w. sent w = l \<and> c \<le> clock w)"
    and now: "rtNow rt w = (t, w') \<Longrightarrow> clock w \<le> t \<and> t \<le> clock w' \<and> shown w' = shown w"
    and select: "rtSelect rt d w = (s, w') \<Longrightarrow> shown w' = shown w"
    and read: "kGetWorkload k ty nn w = (Inr wl, w') \<Longrightarrow> shown w' ty nn = pt_annotations (wl_template wl) RestartedAtAnnotation"
    and patch: "kMergePatch k ty nn doc w = (r, w') \<Longrightarrow> sent w' = sent w @ [(ty, nn, doc, shown w ty nn)]"
    and conflict: "kMergePatch k ty nn doc w = (Some e, w') \<Longrightarrow> isConflict e \<Longrightarrow> shown w' = shown w"

sublocale restart_observer \<subseteq> quiet: reading k tr rt "\<lambda>w. sent w = l \<and> c \<le> clock w" for l c
  by (rule reads)

context restart_observer begin

lemma keeps_sent: "(\<And>l c. preserves (\<lambda>w. sent w = l \<and> c \<le> clock w) m) \<Longrightarrow> preserves (\<lambda>w. F (sent w)) m"
  unfolding preserves_def by (metis order_refl)

lemma reads_keep_sent: "reading k tr rt (\<lambda>w. F (sent w))"
  by unfold_locales (rule keeps_sent, intro quiet.reads quiet.now quiet.select quiet.range quiet.do)+

lemma in_cooldown_reads: "preserves (\<lambda>w. sent w = l \<and> c \<le> clock w) (in_cooldown k rt cooldown ref)"
  unfolding in_cooldown_def getRestartedAt_def by (intro preserves_intros quiet.reads quiet.now)

text \<open>A cooldown check that lets a restart pass was shown none within the cooldown.\<close>

lemma in_cooldown_passes:
  assumes "returns (in_cooldown k rt cooldown ref) w (Inr False) w'" and "type_of_kind (wr_kind ref) = Some ty"
    and "0 < cooldown" and "is_duration cooldown"
    and "shown w' ty (wr_nn ref) = Some v" and "parse_rfc3339 v = Some t" and "t \<noteq> zero_time"
  shows "t + cooldown \<le> clock w'"
proof -
  from assms(1-3) obtain wl w1 where get: "kGetWorkload k ty (wr_nn ref) w = (Inr wl, w1)"
    and rest: "returns (if \<not> is_zero (restarted_at (wl_template wl))
       then go_bind (go_call (rtNow rt)) (\<lambda>now. go_ret (Inr (time_sub now (restarted_at (wl_template wl)) < cooldown)))
       else go_ret (Inr False)) w1 (Inr False :: goerror + bool) w'"
    by (auto simp: in_cooldown_def getRestartedAt_def elim!: returns_tryE)
  have "shown w' = shown w1" using rest now by (auto elim!: returns_bindE split: if_splits)
  with read [OF get] assms(5) have "pt_annotations (wl_template wl) RestartedAtAnnotation = Some v" by simp
  moreover have "v \<noteq> []" using assms(6) by (auto simp: parse_rfc3339_Nil)
  ultimately have "restarted_at (wl_template wl) = t" using assms(6) by (simp add: restarted_at_def)
  with rest assms(7) obtain n where n: "rtNow rt w1 = (n, w')" and "\<not> time_sub n t < cooldown"
    by (auto simp: is_zero_def elim!: returns_bindE)
  then have "t + cooldown \<le> n"
    using time_sub_less_iff [OF assms(4), of n t] assms(3) by (simp add: min_duration_def)
  with now [OF n] show ?thesis by simp
qed

text \<open>The retries of one patch are sent after the same read.\<close>

lemma retry_sends:
  assumes "returns (retry_after rt (go_call (kMergePatch k ty nn doc)) again) w r w'"
    and "\<And>v r v'. returns again v r v' \<Longrightarrow> G (sent v) \<Longrightarrow> shown v = shown w \<Longrightarrow> G (sent v')"
    and more: "\<And>l. G l \<Longrightarrow> G (l @ [(ty, nn, doc, shown w ty nn)])" and "G (sent w)"
  shows "G (sent w')"
proof -
  from assms(1) obtain s w1 where p: "kMergePatch k ty nn doc w = (s, w1)"
    and rest: "returns (if (case s of None \<Rightarrow> False | Some err \<Rightarrow> isConflict err)
            then go_bind (go_call (rtSelect rt patchConflictBackoff))
                   (\<lambda>s. case s of CtxDone e \<Rightarrow> go_ret (Some e) | TimerFired \<Rightarrow> again)
            else go_ret s) w1 r w'"
    unfolding retry_after_def by (auto elim!: returns_bindE)
  have one: "G (sent w1)" using patch [OF p] more [OF assms(4)] by simp
  show ?thesis
  proof (cases "case s of None \<Rightarrow> False | Some err \<Rightarrow> isConflict err")
    case True
    with p conflict [of ty nn doc w _ w1] have sh: "shown w1 = shown w" by (cases s) auto
    from True rest obtain sel w2 where sel: "rtSelect rt patchConflictBackoff w1 = (sel, w2)"
      and go: "returns (case sel of CtxDone e \<Rightarrow> go_ret (Some e) | TimerFired \<Rightarrow> again) w2 r w'"
      by (auto elim!: returns_bindE)
    have "G (sent w2)"
      using preserves_returns [OF quiet.select [of "sent w1" "clock w1" patchConflictBackoff], of w1 sel w2] sel one by simp
    with go assms(2) [of w2 r w'] select [OF sel] sh show ?thesis by (cases sel) simp_all
  qed (use rest one in simp)
qed

lemma patchWithRetry_sends:
  assumes "returns (patchWithRetry rt (go_call (kMergePatch k ty nn doc))) w r w'"
    and more: "\<And>l. G l \<Longrightarrow> G (l @ [(ty, nn, doc, shown w ty nn)])" and "G (sent w)"
  shows "G (sent w')"
  using assms(1) unfolding patchWithRetry_three
proof (rule retry_sends [OF _ _ more assms(3)])
  fix v s v'
  assume again: "returns (retry_after rt (go_call (kMergePatch k ty nn doc)) (go_call (kMergePatch k ty nn doc))) v s v'"
    and v: "G (sent v)" "shown v = shown w"
  have more': "G (l @ [(ty, nn, doc, shown v ty nn)])" if "G l" for l using more [OF that] v(2) by simp
  from again show "G (sent v')"
  proof (rule retry_sends [OF _ _ more' v(1)])
    show "G (sent u')" if "returns (go_call (kMergePatch k ty nn doc)) u x u'" "G (sent u)" "shown u = shown v" for u x u'
      using that patch [of ty nn doc u x u'] more' by simp
  qed
qed

text \<open>Every patch of the annotator comes a cooldown after the restart it was shown.\<close>

lemma Annotate_cooled:
  assumes "clock_within rt lo hi" and "0 < cooldown" and "is_duration cooldown"
  shows "preserves (\<lambda>w. grown lo cooldown l0 (sent w)) (Annotate k rt cooldown ref)"
  unfolding preserves_def
proof (intro allI impI)
  fix w out w'
  let ?G = "grown lo cooldown l0"
  assume G: "?G (sent w)" and run: "Annotate k rt cooldown ref w = Some (out, w')"
  with Annotate_total obtain x where "returns (Annotate k rt cooldown ref) w x w'"
    by (metis go_totalE returns_def option.inject prod.inject)
  then show "?G (sent w')"
    unfolding Annotate_def
  proof (cases rule: returns_tryE)
    case (fail e)
    then show ?thesis using G preserves_returns [OF in_cooldown_reads [of "sent w" "clock w"]] by simp
  next
    case (ok skip v)
    from preserves_returns [OF in_cooldown_reads [of "sent w" "clock w"] ok(1)] have v: "sent v = sent w" by simp
    show ?thesis
    proof (cases "skip \<or> type_of_kind (wr_kind ref) = None")
      case True
      have still: "sent u = sent v" if "rtNow rt v = (n, u)" for n u
        using preserves_returns [OF quiet.now [of "sent v" "clock v"], of v n u] that by simp
      from True ok(2) have "sent w' = sent v" by (cases skip) (auto simp: Let_def elim!: returns_bindE dest: still)
      with v G show ?thesis by simp
    next
      case False
      with ok(2) obtain ty n u err where ty: "type_of_kind (wr_kind ref) = Some ty" and n: "rtNow rt v = (n, u)"
        and p: "returns (patchWithRetry rt (go_call (kMergePatch k ty (wr_nn ref) (restart_patch (format_rfc3339 n))))) u err w'"
        by (auto simp: Let_def elim!: returns_bindE)
      have u: "sent u = sent v" using preserves_returns [OF quiet.now [of "sent v" "clock v"], of v n u] n by simp
      from assms(1) n have "lo \<le> n" "0 \<le> year_of n" "year_of n \<le> 9999" unfolding clock_within_def by blast+
      moreover have "t + cooldown \<le> n" if "shown u ty (wr_nn ref) = Some s" "parse_rfc3339 s = Some t" "t \<noteq> zero_time" for s t
      proof -
        from ok(1) False have pass: "returns (in_cooldown k rt cooldown ref) w (Inr False) v" by simp
        from now [OF n] that(1) have "shown v ty (wr_nn ref) = Some s" by simp
        from in_cooldown_passes [OF pass ty assms(2,3) this that(2,3)] now [OF n] show ?thesis by linarith
      qed
      ultimately have "cooled lo cooldown (ty, wr_nn ref, restart_patch (format_rfc3339 n), shown u ty (wr_nn ref))"
        by (auto simp: cooled_def)
      then have more: "?G (l @ [(ty, wr_nn ref, restart_patch (format_rfc3339 n), shown u ty (wr_nn ref))])" if "?G l" for l
        using that by (auto simp: grown_def)
      show ?thesis by (rule patchWithRetry_sends [where G = ?G, OF p]) (use more G u v in simp_all)
    qed
  qed
qed

lemma run_cooled:
  assumes "clock_within rt lo hi" and "0 < ro_annotation_cooldown opts" and "is_duration (ro_annotation_cooldown opts)"
    and "ctl_run Q rt (NewIstioChangeReconciler k rt tr opts) s0 acts s" and "\<forall>f. Others f \<in> set acts \<longrightarrow> (\<forall>w. sent (f w) = sent w)"
  shows "grown lo (ro_annotation_cooldown opts) (sent (ct_world s0)) (sent (ct_world s))"
proof -
  have "preserves (\<lambda>w. grown lo (ro_annotation_cooldown opts) l0 (sent w)) (Reconcile rt (NewIstioChangeReconciler k rt tr opts) r)" for l0 r
    by (intro annotating.Reconcile_keeps [where cooldown = "ro_annotation_cooldown opts"] annotating.intro annotating_axioms.intro
        reads_keep_sent Annotate_cooled [OF assms(1-3)] refl)
  from ctl_run_preserves [OF assms(4) this] assms(5) show ?thesis by (simp add: grown_def)
qed

end

end
