(* ===== verification/Cluster.thy ===== *)
theory Cluster
  imports ReconcilerSpec ScanExact Cooldown
begin

text \<open>
  A cluster in memory: an API server, a runtime and a webhook that satisfy the interfaces. It is
  the reference against which the locales are interpreted and on which the properties are run;
  it stands for no code of the program. The server stores only objects that pass its validation:
  the namespace and name of the key, and at most one controller.
\<close>

section \<open>The state\<close>

record cluster =
  cl_workloads :: "wtype \<Rightarrow> namespaced_name \<Rightarrow> workload option"
  cl_replicasets :: "namespaced_name \<Rightarrow> object_meta option"
  cl_revisions :: "namespaced_name \<Rightarrow> object_meta option"
  cl_namespaces :: "string \<Rightarrow> object_meta option"
  cl_mwcs :: "mutating_webhook_configuration list"
  cl_configmaps :: "config_map list"
  cl_pods :: "pod list"
  cl_proxy_image :: string
  cl_now :: gotime
  cl_cancelled :: bool
  cl_conflicts :: nat
  cl_log :: "patch_entry list"

definition answer :: "string \<Rightarrow> 'a option \<Rightarrow> goerror + 'a" where
  "answer name x = (case x of Some v \<Rightarrow> Inr v | None \<Rightarrow> Inl (NotFound name))"

lemma answer_Inr [simp]: "answer name x = Inr v \<longleftrightarrow> x = Some v"
  by (simp add: answer_def split: option.split)

definition stored_as :: "namespaced_name \<Rightarrow> object_meta \<Rightarrow> bool" where
  "stored_as nn m \<longleftrightarrow> om_namespace m = nn_namespace nn \<and> om_name m = nn_name nn \<and> single_controller m"

definition validated :: "(namespaced_name \<Rightarrow> object_meta option) \<Rightarrow> namespaced_name \<Rightarrow> object_meta option" where
  "validated store nn =
     (case store nn of Some m \<Rightarrow> if stored_as nn m then Some m else None | None \<Rightarrow> None)"

lemma validated_SomeD: "validated store nn = Some m \<Longrightarrow> stored_as nn m"
  by (auto simp: validated_def split: option.splits if_splits)

definition in_namespace :: "string option \<Rightarrow> object_meta \<Rightarrow> bool" where
  "in_namespace nso m \<longleftrightarrow> (case nso of Some ns \<Rightarrow> ns = [] \<or> om_namespace m = ns | None \<Rightarrow> True)"


section \<open>Merge patches\<close>

text \<open>RFC 7386 on the annotations of the pod template, the part of the object the patches touch.\<close>

fun merge_value :: "json option \<Rightarrow> string option \<Rightarrow> string option" where
  "merge_value (Some (JStr v)) old = Some v"
| "merge_value (Some JNull) old = None"
| "merge_value _ old = old"

definition template_annotations :: "json \<Rightarrow> (string \<rightharpoonup> json) option" where
  "template_annotations doc =
     Option.bind (as_object (Some doc)) (\<lambda>top.
     Option.bind (as_object (top ''spec'')) (\<lambda>spec.
     Option.bind (as_object (spec ''template'')) (\<lambda>template.
     Option.bind (as_object (template ''metadata'')) (\<lambda>meta.
     as_object (meta ''annotations'')))))"

definition merge_annotations :: "json \<Rightarrow> labels \<Rightarrow> labels" where
  "merge_annotations doc annotations =
     (case template_annotations doc of
        None \<Rightarrow> annotations
      | Some m \<Rightarrow> (\<lambda>key. merge_value (m key) (annotations key)))"

lemma template_annotations_restart:
  "template_annotations (restart_patch v) = Some [RestartedAtAnnotation \<mapsto> JStr v]"
  by (simp add: template_annotations_def restart_patch_def jmembers_def)

lemma merge_annotations_restart:
  "merge_annotations (restart_patch v) annotations = annotations(RestartedAtAnnotation \<mapsto> v)"
  by (rule ext) (simp add: merge_annotations_def template_annotations_restart)

definition merge_workload :: "json \<Rightarrow> workload \<Rightarrow> workload" where
  "merge_workload doc wl =
     wl\<lparr>wl_template := (wl_template wl)\<lparr>pt_annotations := merge_annotations doc (pt_annotations (wl_template wl))\<rparr>\<rparr>"

definition store_workload :: "wtype \<Rightarrow> namespaced_name \<Rightarrow> workload \<Rightarrow> cluster \<Rightarrow> cluster" where
  "store_workload ty nn wl c =
     c\<lparr>cl_workloads := (\<lambda>ty' nn'. if ty' = ty \<and> nn' = nn then Some wl else cl_workloads c ty' nn')\<rparr>"

text \<open>A patch is logged, then meets a conflict, a missing object, or goes through.\<close>

definition mem_patch :: "wtype \<Rightarrow> namespaced_name \<Rightarrow> json \<Rightarrow> cluster \<Rightarrow> goerror option \<times> cluster" where
  "mem_patch ty nn doc c0 =
     (let c = c0\<lparr>cl_log := cl_log c0 @ [(ty, nn, doc)]\<rparr>
      in if 0 < cl_conflicts c
         then (Some (Conflict (nn_name nn)), c\<lparr>cl_conflicts := cl_conflicts c - 1\<rparr>)
         else case cl_workloads c ty nn of
           None \<Rightarrow> (Some (NotFound (nn_name nn)), c)
         | Some wl \<Rightarrow> (None, store_workload ty nn (merge_workload doc wl) c))"


section \<open>The operations\<close>

definition mem_kube :: "cluster kube" where
  "mem_kube =
     \<lparr>kGetWorkload = (\<lambda>ty nn c. (answer (nn_name nn) (cl_workloads c ty nn), c)),
      kGetReplicaSet = (\<lambda>nn c. (answer (nn_name nn) (validated (cl_replicasets c) nn), c)),
      kGetControllerRevision = (\<lambda>nn c. (answer (nn_name nn) (validated (cl_revisions c) nn), c)),
      kGetNamespace = (\<lambda>ns c. (answer ns (cl_namespaces c ns), c)),
      kGetMWC = (\<lambda>name c. (answer name (List.find (\<lambda>m. om_name (mwc_meta m) = name) (cl_mwcs c)), c)),
      kListPods = (\<lambda>nso c. (Inr (filter (\<lambda>p. in_namespace nso (p_meta p)) (cl_pods c)), c)),
      kListConfigMaps = (\<lambda>nso c. (Inr (filter (\<lambda>m. in_namespace nso (cm_meta m)) (cl_configmaps c)), c)),
      kListMWCs = (\<lambda>c. (Inr (cl_mwcs c), c)),
      kMergePatch = mem_patch\<rparr>"

text \<open>The clock stands still but for the waits.\<close>

definition mem_runtime :: "cluster runtime" where
  "mem_runtime =
     \<lparr>rtNow = (\<lambda>c. (cl_now c, c)),
      rtSelect = (\<lambda>d c. if cl_cancelled c then (CtxDone (CtxErr ''context canceled''), c)
                        else (TimerFired, c\<lparr>cl_now := cl_now c + d\<rparr>)),
      rtRange = (\<lambda>keys c. (keys, c))\<rparr>"

definition proxy_pod :: "string \<Rightarrow> pod" where
  "proxy_pod img =
     \<lparr>p_meta = \<lparr>om_namespace = [], om_name = [], om_labels = Map.empty, om_annotations = Map.empty,
                om_creation = zero_time, om_managed = [], om_owners = []\<rparr>,
      p_spec = \<lparr>ps_containers = [\<lparr>c_name = istioProxyContainerName, c_image = img\<rparr>],
                ps_init_containers = [], ps_rest = []\<rparr>\<rparr>"

text \<open>
  A webhook that injects the image \<open>cl_proxy_image\<close>: the body of the answer is the image's name
  (nothing for a denial), the patch puts it in the place of the pod.
\<close>

definition mem_transport :: "cluster transport" where
  "mem_transport =
     \<lparr>trParsesPEM = (\<lambda>ca. ca \<noteq> []),
      trMarshalPod = (\<lambda>podp. Inr []),
      trMarshalReview = (\<lambda>review. Inr (rv_uid review)),
      trNewRequest = (\<lambda>url. if url = [] then Some (Failure ''empty url'') else None),
      trDo = (\<lambda>client url body c. (Inr (200, cl_proxy_image c), c)),
      trDecodeReview = (\<lambda>body. Inr (Some \<lparr>ar_allowed = body \<noteq> [], ar_result_message = Some ''denied'', ar_patch = body\<rparr>)),
      trDecodePatch = (\<lambda>patch. Inr (JStr patch)),
      trApplyPatch = (\<lambda>patch original. case patch of JStr s \<Rightarrow> Inr s | _ \<Rightarrow> Inl (Failure ''patch'')),
      trUnmarshalPod = (\<lambda>raw. Inr (proxy_pod raw))\<rparr>"

lemmas mem_defs = mem_kube_def mem_runtime_def mem_transport_def


section \<open>Interpretations\<close>

text \<open>Reads leave every cluster as it is.\<close>

interpretation mem_same: reading mem_kube mem_transport mem_runtime "\<lambda>c. cl_workloads c = s" for s
  by unfold_locales (auto simp: mem_defs intro!: preserves_call split: if_splits)

text \<open>The log grows by the patches alone.\<close>

lemma mem_log_reads: "api_reads mem_kube (\<lambda>c. cl_log c = l)"
  by unfold_locales (auto simp: mem_defs intro!: preserves_call)

lemma mem_log_runtime: "runtime_keeps mem_runtime (\<lambda>c. cl_log c = l)"
  by unfold_locales (auto simp: mem_defs intro!: preserves_call split: if_splits)

lemma mem_log_exchange: "exchange mem_transport (\<lambda>c. cl_log c = l)"
  by unfold_locales (auto simp: mem_defs intro!: preserves_call)

lemma mem_log_patch: "kMergePatch mem_kube ty nn p c = (r, c') \<Longrightarrow> cl_log c' = cl_log c @ [(ty, nn, p)]"
  by (auto simp: mem_kube_def mem_patch_def store_workload_def Let_def split: if_splits option.splits)

lemma mem_patch_log: "patch_log mem_kube mem_runtime cl_log"
  by (rule patch_log.intro [OF mem_log_reads mem_log_runtime mem_log_patch])

interpretation mem: installation mem_kube mem_runtime cl_log mem_transport
  by (rule installation.intro [OF mem_patch_log installation_axioms.intro [OF mem_log_exchange]])

interpretation mem_ns: namespaced_api mem_kube mem_runtime
  by unfold_locales (auto simp: mem_defs stored_as_def in_namespace_def dest!: validated_SomeD)

interpretation mem_answers: answering_webhook mem_transport
  by unfold_locales (auto simp: mem_defs)

interpretation mem_merge: merge_patch_api mem_kube
proof
  fix ty nn v c c1 wl c2
  assume "kMergePatch mem_kube ty nn (restart_patch v) c = (None, c1)"
    and "kGetWorkload mem_kube ty nn c1 = (Inr wl, c2)"
  then show "pt_annotations (wl_template wl) RestartedAtAnnotation = Some v"
    by (auto simp: mem_kube_def mem_patch_def store_workload_def merge_workload_def
        merge_annotations_restart Let_def split: if_splits option.splits)
qed

text \<open>The cluster seen as it was at one moment \<open>c\<close>, as through a cache that is not updated.\<close>

definition freeze :: "cluster \<Rightarrow> (cluster \<Rightarrow> 'a \<times> cluster) \<Rightarrow> cluster \<Rightarrow> 'a \<times> cluster" where
  "freeze c f w = (fst (f c), w)"

definition frozen_kube :: "cluster \<Rightarrow> cluster kube" where
  "frozen_kube c =
     \<lparr>kGetWorkload = (\<lambda>ty nn. freeze c (kGetWorkload mem_kube ty nn)),
      kGetReplicaSet = (\<lambda>nn. freeze c (kGetReplicaSet mem_kube nn)),
      kGetControllerRevision = (\<lambda>nn. freeze c (kGetControllerRevision mem_kube nn)),
      kGetNamespace = (\<lambda>ns. freeze c (kGetNamespace mem_kube ns)),
      kGetMWC = (\<lambda>name. freeze c (kGetMWC mem_kube name)),
      kListPods = (\<lambda>nso. freeze c (kListPods mem_kube nso)),
      kListConfigMaps = (\<lambda>nso. freeze c (kListConfigMaps mem_kube nso)),
      kListMWCs = freeze c (kListMWCs mem_kube),
      kMergePatch = mem_patch\<rparr>"

definition frozen_transport :: "cluster \<Rightarrow> cluster transport" where
  "frozen_transport c =
     mem_transport\<lparr>trDo := (\<lambda>client url body. freeze c (trDo mem_transport client url body))\<rparr>"

lemma steady_freeze: "steady (go_call (freeze c f))"
  by (simp add: steady_def go_call_def freeze_def)

interpretation frozen: still_cluster "frozen_kube c" "frozen_transport c" for c
proof
  fix obj :: object_meta and owner nxt
  assume "fetched (frozen_kube c) obj owner nxt"
  then show "single_controller nxt"
    by (auto simp: fetched_def frozen_kube_def freeze_def mem_kube_def stored_as_def dest!: validated_SomeD)
qed (simp_all add: frozen_kube_def frozen_transport_def steady_freeze)

end
