(* ===== verification/Demo.thy ===== *)
theory Demo
  imports Cluster Outcomes
begin

text \<open>
  An example cluster for the witnesses: in the namespace \<open>shop\<close>, labelled for injection, a
  Deployment \<open>web\<close> with a ReplicaSet and a pod whose proxy image is one minor version behind what
  the webhook injects today. The API server answers the first patch with a conflict.
\<close>

definition meta :: "string \<Rightarrow> string \<Rightarrow> labels \<Rightarrow> owner_reference list \<Rightarrow> object_meta" where
  "meta ns name lbls owners =
     \<lparr>om_namespace = ns, om_name = name, om_labels = lbls, om_annotations = Map.empty,
      om_creation = 0, om_managed = [], om_owners = owners\<rparr>"

definition controller :: "string \<Rightarrow> string \<Rightarrow> owner_reference" where
  "controller kind name = \<lparr>or_kind = kind, or_name = name, or_controller = Some True\<rparr>"

definition web_template :: pod_template where
  "web_template =
     \<lparr>pt_labels = Map.empty, pt_annotations = Map.empty,
      pt_spec = \<lparr>ps_containers = [\<lparr>c_name = ''web'', c_image = ''nginx:1''\<rparr>],
                 ps_init_containers = [], ps_rest = []\<rparr>\<rparr>"

definition web_nn :: namespaced_name where
  "web_nn = \<lparr>nn_namespace = ''shop'', nn_name = ''web''\<rparr>"

definition web_ref :: workload_ref where
  "web_ref = \<lparr>wr_nn = web_nn, wr_kind = ''Deployment''\<rparr>"

definition web :: workload where
  "web = \<lparr>wl_meta = meta ''shop'' ''web'' Map.empty [], wl_template = web_template\<rparr>"

definition web_rs :: object_meta where
  "web_rs = meta ''shop'' ''web-1'' Map.empty [controller ''Deployment'' ''web'']"

definition web_pod :: pod where
  "web_pod =
     \<lparr>p_meta = meta ''shop'' ''web-1-x'' Map.empty [controller ''ReplicaSet'' ''web-1''],
      p_spec = \<lparr>ps_containers = [\<lparr>c_name = ''web'', c_image = ''nginx:1''\<rparr>,
                                   \<lparr>c_name = ''istio-proxy'', c_image = ''istio/proxyv2:1.19''\<rparr>],
                ps_init_containers = [], ps_rest = []\<rparr>\<rparr>"

definition injector :: mutating_webhook_configuration where
  "injector =
     \<lparr>mwc_meta = meta [] ''istio-sidecar-injector'' Map.empty [],
      mwc_webhooks = [\<lparr>wc_url = None, wc_service = None, wc_ca_bundle = ''CA''\<rparr>]\<rparr>"

definition demo_at :: "gotime \<Rightarrow> cluster" where
  "demo_at now =
     \<lparr>cl_workloads = (\<lambda>ty nn. if ty = DeploymentT \<and> nn = web_nn then Some web else None),
      cl_replicasets = [\<lparr>nn_namespace = ''shop'', nn_name = ''web-1''\<rparr> \<mapsto> web_rs],
      cl_revisions = Map.empty,
      cl_namespaces = [''shop'' \<mapsto> meta [] ''shop'' [LabelIstioInjection \<mapsto> ''enabled''] []],
      cl_mwcs = [injector],
      cl_configmaps = [],
      cl_pods = [web_pod],
      cl_proxy_image = ''istio/proxyv2:1.20'',
      cl_now = now,
      cl_cancelled = False,
      cl_conflicts = 1,
      cl_log = []\<rparr>"

definition demo :: cluster where
  "demo = demo_at (63835596800 * second)"

definition demo_options :: reconciler_options where
  "demo_options =
     \<lparr>ro_dry_run = False, ro_compare_hub = False, ro_restart_delay = 0,
      ro_istiod_config_read_delay = 10 * second, ro_annotation_cooldown = 300 * second,
      ro_skip_namespaces = [''kube-system''], ro_reconcile_period = 0\<rparr>"

definition shop_request :: request where
  "shop_request = namespace_ReconcileRequest ''shop''"


section \<open>The run, step by step\<close>

text \<open>
  What the steps need of an API server and a transport: that in the world \<open>c\<close> they answer
  as the cluster in memory does, with \<open>wl\<close> as the Deployment. Its frozen view does too.
\<close>

lemmas demo_objects =
  meta_def controller_def web_template_def web_nn_def web_ref_def web_def web_rs_def web_pod_def
  injector_def demo_at_def

definition demo_like :: "cluster kube \<Rightarrow> cluster transport \<Rightarrow> workload \<Rightarrow> cluster \<Rightarrow> bool" where
  "demo_like k tr wl c \<longleftrightarrow>
     kGetWorkload k DeploymentT web_nn c = (Inr wl, c) \<and> pt_labels (wl_template wl) = Map.empty \<and>
     kGetReplicaSet k \<lparr>nn_namespace = ''shop'', nn_name = ''web-1''\<rparr> c = (Inr web_rs, c) \<and>
     kGetNamespace k ''shop'' c =
       (Inr (meta [] ''shop'' [LabelIstioInjection \<mapsto> ''enabled''] []), c) \<and>
     kGetMWC k defaultTagWebhookConfigName c = (Inl (NotFound defaultTagWebhookConfigName), c) \<and>
     kGetMWC k ConfigMapNamePrefix c = (Inr injector, c) \<and>
     kListPods k (Some ''shop'') c = (Inr [web_pod], c) \<and>
     (\<exists>D. tr = mem_transport\<lparr>trDo := D\<rparr> \<and>
        (\<forall>client url body. D client url body c = (Inr (200, ''istio/proxyv2:1.20''), c)))"

lemma demo_like_mem: "demo_like mem_kube mem_transport web (demo_at t)"
  unfolding demo_like_def
  by (intro conjI exI [of _ "trDo mem_transport"])
    (simp_all add: demo_objects mem_kube_def mem_transport_def answer_def validated_def stored_as_def
      single_controller_def controls_def in_namespace_def constant_defs defaultTagWebhookConfigName_def)

lemma demo_like_frozen: "demo_like (frozen_kube (demo_at t)) (frozen_transport (demo_at t)) web c"
proof -
  have "trDo mem_transport client url body (demo_at t) = (Inr (200, ''istio/proxyv2:1.20''), demo_at t)"
    for client url body
    by (simp add: mem_transport_def demo_at_def)
  then show ?thesis
    using demo_like_mem [of t] unfolding demo_like_def
    by (auto simp: frozen_kube_def frozen_transport_def freeze_def intro!: exI)
qed

lemma demo_owner_rs:
  assumes "demo_like k tr wl c"
  shows "findWorkloadOwner k web_rs c = Some (Return (Inr (Some web_ref)), c)"
proof -
  have "kGetWorkload k DeploymentT \<lparr>nn_namespace = ''shop'', nn_name = ''web''\<rparr> c = (Inr wl, c)"
    using assms by (simp add: demo_like_def web_nn_def)
  then show ?thesis
    by (subst findWorkloadOwner_unfold)
      (simp add: meta_def controller_def web_rs_def web_ref_def web_nn_def resolveOwner_def
        getWorkloadRef_def go_bind_def go_call_def go_ret_def Let_def)
qed

lemma demo_owner:
  assumes "demo_like k tr wl c"
  shows "findWorkloadOwner k (p_meta web_pod) c = Some (Return (Inr (Some web_ref)), c)"
  using demo_owner_rs [OF assms] assms
  by (subst findWorkloadOwner_unfold)
    (simp add: demo_like_def meta_def controller_def web_pod_def resolveOwner_def fetchIntermediateOwner_def
      getIntermediateObject_def go_bind_def go_call_def go_ret_def Let_def)

lemma demo_rev:
  assumes "demo_like k tr wl c"
  shows "getIstioRevFromWorkloadOrNamespace k web_ref c = Some (Return (Inr ''default''), c)"
  using assms
  by (simp add: demo_like_def web_ref_def web_def web_template_def meta_def web_nn_def go_try_def go_bind_def
      go_call_def go_ret_def getIstioRevFromWorkloadOrNamespace_def map_get_def namespace_rev_def constant_defs)

lemma demo_url:
  assumes "demo_like k tr wl c"
  shows "getWebhookURLAndCABundle k ''default'' True c =
    Some (Return (Inr (getWebhookURL ''default'', ''CA'')), c)"
  using assms
  by (simp add: demo_like_def getWebhookURLAndCABundle_def getCABundleForRevision_def injectorConfigName_def
      go_try_def go_bind_def go_call_def go_ret_def Let_def injector_def)

lemma demo_webhook:
  assumes "demo_like k tr wl c"
  shows "CallWebhook k tr (Some p) ''default'' True c =
     Some (Return (Inr (proxy_pod ''istio/proxyv2:1.20'')), c)"
proof -
  from assms obtain D where "tr = mem_transport\<lparr>trDo := D\<rparr>"
    and "\<And>client url body. D client url body c = (Inr (200, ''istio/proxyv2:1.20''), c)"
    by (auto simp: demo_like_def)
  with demo_url [OF assms] show ?thesis
    by (simp add: CallWebhook_def go_try_def go_bind_def go_call_def go_ret_def mem_transport_def
        transportForCABundle_def send_review_def handle_response_def applyJSONPatch_def
        getWebhookURL_def service_url_def make_review_def)
qed

lemma demo_mismatch:
  "compare_pods web_ref web_pod (proxy_pod ''istio/proxyv2:1.20'') opts = Some web_ref"
  unfolding compare_pods_Some
  by (simp add: web_pod_def proxy_pod_def getIstioProxyImage_def istioProxyContainerName_def
      imagesMatch_def ParseImage_def)

lemma demo_build:
  assumes "demo_like k tr wl c"
  shows "buildPodFromWorkload k web_ref c =
     Some (Return (Inr (Some (pod_of_template web_nn (wl_template wl)))), c)"
  using assms
  by (simp add: demo_like_def web_ref_def web_def go_try_def go_bind_def go_call_def go_ret_def
      buildPodFromWorkload_def)

definition no_config :: istio_config where
  "no_config =
     \<lparr>ic_last_modified_by_revision = Map.empty, ic_tag_to_revision = Map.empty,
      ic_last_modified_by_tag = Map.empty\<rparr>"

lemma demo_process:
  assumes "demo_like k tr wl c"
  shows "processPodForOutdatedSidecar k (CallWebhook k tr) no_config opts web_pod c
     = Some (Return (Some web_ref), c)"
  by (simp add: processPodForOutdatedSidecar_def check_with_webhook_def go_bind_def demo_owner [OF assms]
      demo_rev [OF assms] demo_build [OF assms] demo_webhook [OF assms] demo_mismatch
      shouldSkipPodForLastModified_def effective_last_modified_def no_config_def resolve_tag_def
      is_zero_def go_ret_def)

definition shop_scan :: scan_options where
  "shop_scan =
     \<lparr>so_compare_hub = False, so_istiod_config_read_delay = 10 * second,
      so_skip_namespaces = [''kube-system''], so_limit_to_namespaces = [''shop'']\<rparr>"

lemma demo_list:
  assumes "demo_like k tr wl c"
  shows "listPods k rt shop_scan c = Some (Return (Inr [web_pod]), c)"
  using assms
  by (simp add: demo_like_def listPods_def shop_scan_def go_try_def go_bind_def go_call_def go_ret_def)

lemma demo_scan:
  assumes "demo_like k tr wl c"
  shows "returns (ScanOutdatedPods k rt (Some (CallWebhook k tr)) no_config shop_scan) c
    (Inr [web_ref]) c"
proof -
  have "om_namespace (p_meta web_pod) = ''shop''" by (simp add: web_pod_def meta_def)
  with demo_list [OF assms] demo_process [OF assms, of shop_scan] show ?thesis
    by (simp add: ScanOutdatedPods_def go_try_def go_bind_def go_ret_def shop_scan_def returns_def)
qed

text \<open>The restart: a conflict, a wait, and a patch that goes through.\<close>

definition web_patch :: "gotime \<Rightarrow> patch_entry" where
  "web_patch t = (DeploymentT, web_nn, restart_patch (format_rfc3339 t))"

definition demo_after :: "gotime \<Rightarrow> cluster" where
  "demo_after t =
     store_workload DeploymentT web_nn (merge_workload (restart_patch (format_rfc3339 t)) web)
       ((demo_at (t + patchConflictBackoff))\<lparr>cl_conflicts := 0, cl_log := [web_patch t, web_patch t]\<rparr>)"

lemma demo_try_1:
  "mem_patch DeploymentT web_nn (restart_patch (format_rfc3339 t)) (demo_at t) =
     (Some (Conflict ''web''), (demo_at t)\<lparr>cl_conflicts := 0, cl_log := [web_patch t]\<rparr>)"
  by (simp add: mem_patch_def demo_at_def web_patch_def web_nn_def)

lemma demo_wait:
  "rtSelect mem_runtime patchConflictBackoff ((demo_at t)\<lparr>cl_conflicts := 0, cl_log := l\<rparr>) =
     (TimerFired, (demo_at (t + patchConflictBackoff))\<lparr>cl_conflicts := 0, cl_log := l\<rparr>)"
  by (simp add: mem_runtime_def demo_at_def)

lemma demo_try_2:
  "mem_patch DeploymentT web_nn (restart_patch (format_rfc3339 t))
       ((demo_at (t + patchConflictBackoff))\<lparr>cl_conflicts := 0, cl_log := [web_patch t]\<rparr>) =
     (None, demo_after t)"
  by (simp add: mem_patch_def demo_at_def web_patch_def web_nn_def demo_after_def)

lemma demo_patch:
  "returns (patchWithRetry mem_runtime (go_call (kMergePatch mem_kube DeploymentT web_nn
     (restart_patch (format_rfc3339 t))))) (demo_at t) None (demo_after t)"
proof -
  have "kMergePatch mem_kube = mem_patch" by (simp add: mem_kube_def)
  then show ?thesis
    unfolding patchWithRetry_three retry_after_def
    by (simp add: returns_bind demo_try_1 demo_try_2 demo_wait)
qed

lemma demo_annotate:
  "returns (Annotate mem_kube mem_runtime cooldown web_ref) (demo_at t) (Inr True) (demo_after t)"
proof -
  have get: "kGetWorkload mem_kube DeploymentT web_nn (demo_at t) = (Inr web, demo_at t)"
    by (simp add: mem_kube_def demo_at_def answer_def)
  have "restarted_at (wl_template web) = zero_time"
    by (simp add: restarted_at_def web_def web_template_def)
  then have "returns (in_cooldown mem_kube mem_runtime cooldown web_ref) (demo_at t) (Inr False) (demo_at t)"
    using get by (auto simp: in_cooldown_def getRestartedAt_def web_ref_def is_zero_def intro!: returns_tryI)
  moreover have "rtNow mem_runtime (demo_at t) = (t, demo_at t)"
    by (simp add: mem_runtime_def demo_at_def)
  ultimately show ?thesis
    using demo_patch [of t] unfolding Annotate_def Let_def
    by (auto simp: web_ref_def intro!: returns_tryI returns_bindI)
qed

text \<open>A whole reconciliation of the namespace.\<close>

lemma demo_config:
  "returns (BuildLastModifiedByRevision mem_kube) (demo_at t) (Inr Map.empty) (demo_at t)"
  "returns (FetchTagToRevisionAndLastModified mem_kube) (demo_at t) (Inr (Map.empty, Map.empty)) (demo_at t)"
  by (auto simp: BuildLastModifiedByRevision_def FetchTagToRevisionAndLastModified_def mem_kube_def
      demo_at_def injector_def tag_step_def has_prefix_def istioRevisionTagPrefix_def meta_def
      intro!: returns_tryI)

definition demo_reconciler :: "cluster reconciler" where
  "demo_reconciler = NewIstioChangeReconciler mem_kube mem_runtime mem_transport demo_options"

lemma demo_await:
  "returns (awaitIstiodConfigReadDelay mem_runtime demo_reconciler) (demo_at t) None (demo_at (t + 10 * second))"
  by (auto simp: awaitIstiodConfigReadDelay_def demo_reconciler_def NewIstioChangeReconciler_def
      demo_options_def waitOrContextDone_def mem_runtime_def demo_at_def intro!: returns_bindI)

lemma demo_scan_and_annotate:
  "returns (scanAndAnnotate mem_runtime demo_reconciler no_config [''shop'']) (demo_at t) (Inr ()) (demo_after t)"
proof -
  have opts: "scan_options_of demo_reconciler [''shop''] = shop_scan"
    "sc_client (rc_scanner demo_reconciler) = mem_kube"
    "sc_webhook_caller (rc_scanner demo_reconciler) = Some (CallWebhook mem_kube mem_transport)"
    "rc_annotator demo_reconciler = Annotate mem_kube mem_runtime (300 * second)"
    "rc_dry_run demo_reconciler = False"
    by (simp_all add: scan_options_of_def demo_reconciler_def NewIstioChangeReconciler_def
        demo_options_def shop_scan_def)
  have "returns (annotateWorkloadsWithDelay mem_runtime demo_reconciler [web_ref]) (demo_at t) () (demo_after t)"
    using demo_annotate [of "300 * second" t]
    by (auto simp: annotateWorkloadsWithDelay_def opts intro!: returns_bindI)
  with demo_scan [OF demo_like_mem] show ?thesis
    unfolding scanAndAnnotate_def opts by (auto intro!: returns_tryI returns_bindI)
qed

lemma demo_reconcile:
  "returns (Reconcile mem_runtime demo_reconciler shop_request) (demo_at t) (Inr ()) (demo_after (t + 10 * second))"
proof -
  have client: "rc_client demo_reconciler = mem_kube"
    by (simp add: demo_reconciler_def NewIstioChangeReconciler_def)
  have "returns (reconcileAll mem_runtime demo_reconciler [''shop'']) (demo_at t) (Inr ())
      (demo_after (t + 10 * second))"
    using demo_await [of t] demo_config [of "t + 10 * second"] demo_scan_and_annotate [of "t + 10 * second"]
    unfolding reconcileAll_def client no_config_def by (auto intro!: returns_tryI returns_bindI)
  then show ?thesis
    by (simp add: Reconcile_def shop_request_def namespace_ReconcileRequest_def
        periodic_ReconcileRequestName_def configmap_ReconcileRequestName_def reconcileTriggerName_def
        ReconcileTriggerNameIstioChange_def)
qed

lemma demo_log: "cl_log (demo_after t) = [web_patch t, web_patch t]"
  by (simp add: demo_after_def store_workload_def)

text \<open>Seen as a snapshot, the cluster has no endless chain of controllers.\<close>

lemma frozen_fetched:
  assumes "fetched (frozen_kube (demo_at t)) obj owner nxt"
  shows "nxt = web_rs" and "or_kind owner = ''ReplicaSet''" and "or_name owner = ''web-1''"
  using assms
  by (auto simp: fetched_def frozen_kube_def freeze_def mem_kube_def validated_def demo_at_def owner_key_def
      split: if_splits option.splits)

lemma web_rs_final: "\<not> next_object (frozen_kube (demo_at t)) web_rs nxt"
  by (auto simp: next_object_def web_rs_def meta_def controller_def dest!: frozen_fetched(2))

lemma frozen_demo_wfp: "wfp (\<lambda>nxt obj. next_object (frozen_kube demo) obj nxt)"
proof (rule wfp_if_convertible_to_nat)
  fix nxt obj
  assume step: "next_object (frozen_kube demo) obj nxt"
  then have "nxt = web_rs" by (auto simp: next_object_def demo_def dest: frozen_fetched(1))
  moreover from step have "obj \<noteq> web_rs" using web_rs_final by (auto simp: demo_def)
  ultimately show "(if nxt = web_rs then 0 else 1) < (if obj = web_rs then 0 else (1 :: nat))" by simp
qed

text \<open>A ReplicaSet that is its own controller.\<close>

definition loop_rs :: object_meta where
  "loop_rs = meta ''shop'' ''loop'' Map.empty [controller ''ReplicaSet'' ''loop'']"

definition loop_cluster :: cluster where
  "loop_cluster = demo\<lparr>cl_replicasets := [\<lparr>nn_namespace = ''shop'', nn_name = ''loop''\<rparr> \<mapsto> loop_rs]\<rparr>"

lemma loop_rs_step:
  "\<exists>owner owners. om_owners loop_rs = owner # owners \<and> controls owner \<and> or_kind owner = ''ReplicaSet'' \<and>
     (\<forall>w. \<exists>nxt w'. kGetReplicaSet (frozen_kube loop_cluster) (owner_key loop_rs owner) w = (Inr nxt, w') \<and>
        nxt = loop_rs)"
  by (simp add: loop_rs_def loop_cluster_def meta_def controller_def controls_def owner_key_def
      frozen_kube_def freeze_def mem_kube_def validated_def stored_as_def single_controller_def)

text \<open>A webhook that denies every request and gives no status.\<close>

definition denying_transport :: "cluster transport" where
  "denying_transport =
     mem_transport\<lparr>trDecodeReview :=
       (\<lambda>body. Inr (Some \<lparr>ar_allowed = False, ar_result_message = None, ar_patch = []\<rparr>))\<rparr>"

text \<open>A clock that stands still, and a cluster without conflicts.\<close>

definition stopped_runtime :: "cluster runtime" where
  "stopped_runtime = mem_runtime\<lparr>rtNow := (\<lambda>c. (63835596810 * second, c))\<rparr>"

abbreviation "stopped_result \<equiv>
  snd (mem_patch DeploymentT web_nn (restart_patch (format_rfc3339 (63835596810 * second))) (demo\<lparr>cl_conflicts := 0\<rparr>))"

lemma demo_year: "year_of (63835596810 * second) = 2023"
  by code_simp

lemma stopped_clock: "clock_within stopped_runtime (63835596810 * second) (63835596810 * second)"
  using demo_year by (simp add: clock_within_def stopped_runtime_def)

lemma stopped_kind: "type_of_kind (wr_kind web_ref) = Some DeploymentT"
  by (simp add: web_ref_def)

lemma stopped_get:
  "kGetWorkload mem_kube DeploymentT (wr_nn web_ref) stopped_result =
     (Inr (merge_workload (restart_patch (format_rfc3339 (63835596810 * second))) web), stopped_result)"
  by (simp add: mem_kube_def mem_patch_def demo_def demo_at_def web_ref_def web_nn_def store_workload_def answer_def Let_def)

lemma stopped_annotate:
  "returns (Annotate mem_kube stopped_runtime (300 * second) web_ref) (demo\<lparr>cl_conflicts := 0\<rparr>) (Inr True) stopped_result"
proof -
  let ?c = "demo\<lparr>cl_conflicts := 0\<rparr>" and ?p = "restart_patch (format_rfc3339 (63835596810 * second))"
  have get: "kGetWorkload mem_kube DeploymentT web_nn ?c = (Inr web, ?c)"
    by (simp add: mem_kube_def demo_def demo_at_def answer_def)
  have "restarted_at (wl_template web) = zero_time"
    by (simp add: restarted_at_def web_def web_template_def)
  then have cd: "returns (in_cooldown mem_kube stopped_runtime (300 * second) web_ref) ?c (Inr False) ?c"
    using get by (auto simp: in_cooldown_def getRestartedAt_def web_ref_def is_zero_def intro!: returns_tryI)
  have "kMergePatch mem_kube DeploymentT web_nn ?p ?c = (None, stopped_result)"
    by (simp add: mem_kube_def mem_patch_def demo_def demo_at_def web_nn_def Let_def)
  then have "returns (patchWithRetry stopped_runtime (go_call (kMergePatch mem_kube DeploymentT web_nn ?p))) ?c None stopped_result"
    unfolding patchWithRetry_three retry_after_def by (auto intro!: returns_bindI)
  moreover have "rtNow stopped_runtime ?c = (63835596810 * second, ?c)" by (simp add: stopped_runtime_def)
  ultimately show ?thesis
    using cd unfolding Annotate_def Let_def
    by (auto simp: web_ref_def simp del: snd_conv intro!: returns_tryI returns_bindI)
qed

lemma demo_installation: "installation mem_kube mem_runtime cl_log mem_transport"
  by (rule mem.installation_axioms)

text \<open>The frozen view: its installation, and what a scan of it finds.\<close>

interpretation mem_frozen: installation "frozen_kube c" mem_runtime cl_log "frozen_transport c" for c
  by unfold_locales
    (auto simp: frozen_kube_def frozen_transport_def freeze_def mem_runtime_def mem_patch_def store_workload_def Let_def
      intro!: preserves_call split: if_splits option.splits)

interpretation frozen_running: reconciling "frozen_kube c" "frozen_transport c" mem_runtime "\<lambda>c. \<not> cl_cancelled c" for c
  by unfold_locales
    (auto simp: frozen_kube_def frozen_transport_def freeze_def mem_runtime_def mem_patch_def store_workload_def Let_def
      intro!: preserves_call split: if_splits option.splits)

interpretation frozen_answers: answering_webhook "frozen_transport c" for c
  by unfold_locales (auto simp: frozen_transport_def mem_transport_def)

lemma frozen_config: "config_read (frozen_kube demo) cfg \<Longrightarrow> cfg = no_config"
  by (auto simp: config_read_def BuildLastModifiedByRevision_def FetchTagToRevisionAndLastModified_def frozen_kube_def
      freeze_def mem_kube_def demo_def demo_at_def injector_def tag_step_def has_prefix_def istioRevisionTagPrefix_def
      meta_def no_config_def elim!: returns_tryE)

lemma frozen_list: "returns (listPods (frozen_kube demo) rt shop_scan) v (Inr pods) v' \<Longrightarrow> pods = [web_pod]"
  by (auto simp: listPods_def shop_scan_def frozen_kube_def freeze_def mem_kube_def demo_def demo_at_def
      web_pod_def meta_def in_namespace_def elim!: returns_tryE)

lemma frozen_no_failure:
  "\<not> cl_cancelled v \<Longrightarrow> \<not> failure_at (frozen_kube demo) mem_runtime delay v e"
  by (rule no_failure_at) (simp_all add: frozen_kube_def freeze_def mem_kube_def mem_runtime_def)

lemma frozen_reconcile:
  "\<exists>w'. returns (Reconcile mem_runtime (NewIstioChangeReconciler (frozen_kube demo) mem_runtime (frozen_transport demo)
     demo_options) shop_request) demo (Inr ()) w'"
proof -
  obtain r w' where run: "returns (Reconcile mem_runtime (NewIstioChangeReconciler (frozen_kube demo) mem_runtime
      (frozen_transport demo) demo_options) shop_request) demo r w'"
    using Reconcile_total [OF frozen_answers.answering_webhook_axioms frozen_demo_wfp] by (rule go_totalE)
  have "\<not> cl_cancelled demo" by (simp add: demo_def demo_at_def)
  then have "r = Inr ()"
    using frozen_running.Reconcile_fails_at [of demo demo_options shop_request demo _ w'] run frozen_no_failure
    by (cases r) auto
  with run show ?thesis by blast
qed

lemma frozen_scan_finds:
  "outdated (frozen_kube demo) (CallWebhook (frozen_kube demo) (frozen_transport demo)) no_config shop_scan web_pod web_ref"
proof -
  have "returns (ScanOutdatedPods (frozen_kube demo) mem_runtime
      (Some (CallWebhook (frozen_kube demo) (frozen_transport demo))) no_config shop_scan) demo (Inr [web_ref]) demo"
    unfolding demo_def by (rule demo_scan [OF demo_like_frozen])
  from scan_finds(2) [OF this, of web_ref] show ?thesis
    by (auto simp: scan_finding_def dest: frozen_list)
qed

lemma demo_options_act: "\<not> ro_dry_run demo_options" "uninterrupted rt (ro_restart_delay demo_options)"
  by (simp_all add: demo_options_def uninterrupted_def)

lemma shop_request_routed:
  "shop_request = configmap_ReconcileRequest \<or> shop_request = periodic_ReconcileRequest \<or>
     (\<exists>ns. shop_request = namespace_ReconcileRequest ns \<and> ns \<noteq> [] \<and> CHR ''_'' \<notin> set ns)"
  by (intro disjI2 exI [of _ "''shop''"]) (simp add: shop_request_def)

text \<open>A process that is not shut down: its waits are never cut short, not even a pause between restarts.\<close>

definition live_runtime :: "cluster runtime" where
  "live_runtime = stopped_runtime\<lparr>rtSelect := (\<lambda>d c. (TimerFired, c\<lparr>cl_now := cl_now c + d\<rparr>))\<rparr>"

definition paced_options :: reconciler_options where
  "paced_options = demo_options\<lparr>ro_restart_delay := 5 * second\<rparr>"

lemma paced_options_act: "\<not> ro_dry_run paced_options" "uninterrupted live_runtime (ro_restart_delay paced_options)"
  by (simp_all add: demo_options_def paced_options_def live_runtime_def uninterrupted_def)

interpretation live_frozen: installation "frozen_kube c" live_runtime cl_log "frozen_transport c" for c
  by unfold_locales
    (auto simp: frozen_kube_def frozen_transport_def freeze_def live_runtime_def stopped_runtime_def mem_runtime_def mem_patch_def
      store_workload_def Let_def intro!: preserves_call split: if_splits option.splits)

interpretation live_running: reconciling "frozen_kube c" "frozen_transport c" live_runtime "\<lambda>c. True" for c
  by unfold_locales (simp_all add: preserves_def)

lemma live_clock: "clock_within live_runtime (63835596810 * second) (63835596810 * second)"
  using stopped_clock by (simp add: live_runtime_def clock_within_def)

lemma paced_reconcile:
  "\<exists>w'. returns (Reconcile live_runtime (NewIstioChangeReconciler (frozen_kube demo) live_runtime (frozen_transport demo)
     paced_options) shop_request) demo (Inr ()) w'"
proof -
  obtain r w' where run: "returns (Reconcile live_runtime (NewIstioChangeReconciler (frozen_kube demo) live_runtime
      (frozen_transport demo) paced_options) shop_request) demo r w'"
    using Reconcile_total [OF frozen_answers.answering_webhook_axioms frozen_demo_wfp] by (rule go_totalE)
  have "\<not> failure_at (frozen_kube demo) live_runtime delay v e" for delay v e
    by (rule no_failure_at) (simp_all add: frozen_kube_def freeze_def mem_kube_def live_runtime_def stopped_runtime_def)
  then have "r = Inr ()"
    using live_running.Reconcile_fails_at [of demo paced_options shop_request demo _ w'] run by (cases r) auto
  with run show ?thesis by blast
qed

lemma frozen_attended:
  assumes "all_attended (frozen_kube demo) rt (frozen_transport demo) (demo_options\<lparr>ro_restart_delay := d\<rparr>) (request_limit shop_request) es"
  shows "\<exists>ref. wr_nn ref = web_nn \<and> attended (frozen_kube demo) rt (300 * second) es ref"
proof -
  let ?k = "frozen_kube demo" and ?t = "frozen_transport demo" and ?o = "demo_options\<lparr>ro_restart_delay := d\<rparr>"
  have so: "scan_options_of (NewIstioChangeReconciler ?k rt ?t ?o) (request_limit shop_request) = shop_scan"
    by (simp add: scan_options_of_def NewIstioChangeReconciler_def demo_options_def shop_scan_def shop_request_def
        request_limit_namespace)
  from assms obtain cfg pods v v' where "config_read ?k cfg" "returns (listPods ?k rt shop_scan) v (Inr pods) v'"
    and all: "\<forall>p \<in> set pods. \<forall>ref. om_namespace (p_meta p) \<notin> set (ro_skip_namespaces ?o) \<longrightarrow> single_controller (p_meta p) \<longrightarrow>
       outdated ?k (CallWebhook ?k ?t) cfg shop_scan p ref \<longrightarrow>
       (\<exists>p' \<in> set pods. \<exists>ref'. wr_nn ref' = wr_nn ref \<and> outdated ?k (CallWebhook ?k ?t) cfg shop_scan p' ref' \<and>
          attended ?k rt (ro_annotation_cooldown ?o) es ref')"
    unfolding all_attended_def so by blast
  then have "pods = [web_pod]" "cfg = no_config" by (simp_all add: frozen_list frozen_config)
  moreover have "om_namespace (p_meta web_pod) \<notin> set (ro_skip_namespaces ?o)" "single_controller (p_meta web_pod)"
    by (simp_all add: web_pod_def meta_def controller_def single_controller_def demo_options_def)
  ultimately obtain ref where "wr_nn ref = wr_nn web_ref"
    "attended ?k rt (ro_annotation_cooldown ?o) es ref"
    using all frozen_scan_finds by fastforce
  then have "wr_nn ref = web_nn" "attended ?k rt (300 * second) es ref"
    by (simp_all add: web_ref_def demo_options_def)
  then show ?thesis by blast
qed

end
