(* ===== verification/ControllerSpec.thy ===== *)
theory ControllerSpec
  imports Controller Demo
begin

text \<open>
  The properties of the controller as a whole: what it does over a run with any sequence of
  events, and that every change is served. The runs of the witnesses are on the example cluster
  with the queue of client-go.
\<close>

section \<open>The example cluster and queue\<close>

definition shop_event :: watch_event where
  "shop_event =
     NamespaceEvent (UpdateEvent (meta [] ''shop'' Map.empty []) (meta [] ''shop'' [LabelIstioInjection \<mapsto> ''enabled''] []))"

lemma shop_event_requests: "requests_for period shop_event = [shop_request]"
  by (simp add: shop_event_def hasIstioLabels_def meta_def constant_defs shop_request_def)

definition demo_start :: "(client_go_queue, cluster) controller_state" where
  "demo_start = \<lparr>ct_queue = cq_empty, ct_worker = None, ct_world = demo\<rparr>"

definition demo_end :: "(client_go_queue, cluster) controller_state" where
  "demo_end = \<lparr>ct_queue = cq_empty, ct_worker = None, ct_world = demo_after (63835596810 * second)\<rparr>"

lemma demo_start_ok: "ctl_ok cq_view cq_invar demo_start" "owed cq_view demo_start = {}" "ct_worker demo_start = None"
  by (simp_all add: ctl_ok_def owed_def demo_start_def)

definition idle_at :: "cluster \<Rightarrow> (client_go_queue, cluster) controller_state" where
  "idle_at c = \<lparr>ct_queue = cq_empty, ct_worker = None, ct_world = c\<rparr>"

lemma idle_at_ok: "ctl_ok cq_view cq_invar (idle_at c)" "owed cq_view (idle_at c) = {}" "ct_worker (idle_at c) = None"
  by (simp_all add: ctl_ok_def owed_def idle_at_def)

text \<open>A change of the namespace \<open>shop\<close>, from an idle controller to the end of its reconciliation.\<close>

lemma shop_served:
  assumes "returns (Reconcile rt rec shop_request) c (Inr ()) c'"
  shows "ctl_run client_go rt rec (idle_at c) [Event shop_event, Take shop_request, Finish shop_request True] (idle_at c')"
proof -
  let ?q1 = "cq_add shop_request cq_empty"
  let ?q2 = "cq_empty\<lparr>cq_processing := [shop_request]\<rparr>"
  have q: "cq_get ?q1 = Some (shop_request, ?q2)" "settle client_go shop_request True ?q2 = cq_empty"
    by (simp_all add: cq_get_def cq_add_def cq_empty_def settle_def client_go_def cq_done_def Let_def)
  have "ctl_step client_go rt rec (idle_at c) (Event shop_event) ((idle_at c)\<lparr>ct_queue := ?q1\<rparr>)"
    by (simp add: ctl_event shop_event_requests idle_at_def client_go_def)
  moreover have "ctl_step client_go rt rec ((idle_at c)\<lparr>ct_queue := ?q1\<rparr>) (Take shop_request)
      ((idle_at c)\<lparr>ct_queue := ?q2, ct_worker := Some shop_request\<rparr>)"
    using q by (simp add: ctl_step_simps idle_at_def client_go_def)
  moreover have "ctl_step client_go rt rec ((idle_at c)\<lparr>ct_queue := ?q2, ct_worker := Some shop_request\<rparr>)
      (Finish shop_request True) (idle_at c')"
    using q assms by (simp add: ctl_step_simps idle_at_def returns_def)
  ultimately have "ctl_run client_go rt rec (idle_at c) ((([] @ [Event shop_event]) @ [Take shop_request]) @ [Finish shop_request True]) (idle_at c')"
    by (blast intro: ctl_run.intros)
  then show ?thesis by simp
qed

lemma demo_controller_run:
  "ctl_run client_go mem_runtime demo_reconciler demo_start
     [Event shop_event, Take shop_request, Finish shop_request True] demo_end"
proof -
  have "demo_start = idle_at demo" "demo_end = idle_at (demo_after (63835596810 * second))"
    by (simp_all add: demo_start_def demo_end_def idle_at_def)
  with shop_served [OF demo_reconcile [of "63835596800 * second"]] show ?thesis by (simp add: demo_def)
qed


section \<open>Every change is served\<close>

text \<open>
  C6. Every change is served. Take any run of the controller from an idle start that ends in a world
  in which, from now on, nothing fails. The request of every event of the run has been served
  after the event, or will be: the controller can go on by itself to a state in which the worker
  has taken the request and finished it with success; it cannot go on by itself for more steps than
  its load; and wherever it cannot go on at all, the request has been served. Changes that arrive
  while the same request is being processed, failed reconciliations and earlier outages are covered.
  The hypotheses are the laws of the work queue, that reads and restarts keep the worlds healthy,
  and those under which a reconciliation comes back.
\<close>

theorem changes_served:
  assumes "work_queue Q view invar" and "reconciling k tr rt P" and "\<And>v. P v \<Longrightarrow> healthy k rt v"
    and "answering_webhook tr" and "wfp (\<lambda>nxt obj. next_object k obj nxt)"
    and "rec = NewIstioChangeReconciler k rt tr opts" and "ctl_ok view invar s0"
    and run: "ctl_run Q rt rec s0 (earlier @ Event e # acts) s" and "P (ct_world s)"
    and req: "r \<in> set (requests_for (ro_reconcile_period opts) e)"
  shows "(\<exists>next s'. ctl_run Q rt rec s next s' \<and> list_all own_action next \<and> served r (acts @ next)) \<and>
    (\<forall>next s'. ctl_run Q rt rec s next s' \<longrightarrow> list_all own_action next \<longrightarrow>
       length next \<le> ctl_load view s \<and>
       ((\<forall>act s''. own_action act \<longrightarrow> \<not> ctl_step Q rt rec s' act s'') \<longrightarrow> served r (acts @ next)))"
proof -
  have good: "reconciles P rt rec"
    unfolding assms(6) by (rule reconciles_when_healthy [OF assms(2,4,5,3)])
  have ok: "ctl_ok view invar s" by (rule work_queue.run_ok [OF assms(1) run assms(7)])
  have period: "rc_reconcile_period rec = ro_reconcile_period opts"
    by (simp add: assms(6) NewIstioChangeReconciler_def)
  have at_rest: "served r (acts @ next)"
    if "ctl_run Q rt rec s next s'" "owed view s' = {}" "ct_worker s' = None" for "next" s'
  proof -
    have "ctl_run Q rt rec s0 (earlier @ Event e # acts @ next) s'"
      using ctl_run_append [OF that(1) run] by simp
    from work_queue.served_at_rest [OF assms(1) this assms(7)] req that show ?thesis by (simp add: period)
  qed
  from work_queue.comes_to_rest [OF assms(1) ok \<open>P (ct_world s)\<close> good] at_rest
  have "\<exists>next s'. ctl_run Q rt rec s next s' \<and> list_all own_action next \<and> served r (acts @ next)" by blast
  moreover have "length next \<le> ctl_load view s \<and>
       ((\<forall>act s''. own_action act \<longrightarrow> \<not> ctl_step Q rt rec s' act s'') \<longrightarrow> served r (acts @ next))"
    if next_run: "ctl_run Q rt rec s next s'" and own: "list_all own_action next" for "next" s'
  proof -
    have "length next \<le> ctl_load view s"
      using work_queue.run_load [OF assms(1) next_run ok own] by simp
    moreover have "owed view s' = {} \<and> ct_worker s' = None"
      if "\<forall>act s''. own_action act \<longrightarrow> \<not> ctl_step Q rt rec s' act s''"
      using work_queue.step_possible [OF assms(1) work_queue.run_ok [OF assms(1) next_run ok]
          work_queue.run_keeps_world [OF assms(1) next_run own \<open>P (ct_world s)\<close> good] good] that by blast
    ultimately show ?thesis using at_rest [OF next_run] by blast
  qed
  ultimately show ?thesis by blast
qed

interpretation mem_running: reconciling "frozen_kube demo" mem_transport mem_runtime "\<lambda>c. \<not> cl_cancelled c"
  by unfold_locales
    (auto simp: frozen_kube_def freeze_def mem_runtime_def mem_transport_def mem_patch_def store_workload_def Let_def
      intro!: preserves_call split: if_splits option.splits)

lemma mem_healthy: "\<not> cl_cancelled c \<Longrightarrow> healthy (frozen_kube demo) mem_runtime c"
  by (simp add: healthy_def frozen_kube_def freeze_def mem_kube_def mem_runtime_def)

theorem changes_served_witness:
  "\<exists>next s'. ctl_run client_go mem_runtime (NewIstioChangeReconciler (frozen_kube demo) mem_runtime mem_transport demo_options)
       (demo_start\<lparr>ct_queue := cq_add shop_request cq_empty\<rparr>) next s' \<and>
     list_all own_action next \<and> served shop_request next"
proof -
  let ?rec = "NewIstioChangeReconciler (frozen_kube demo) mem_runtime mem_transport demo_options"
  have "ctl_step client_go mem_runtime ?rec demo_start (Event shop_event) (demo_start\<lparr>ct_queue := cq_add shop_request cq_empty\<rparr>)"
    by (simp add: ctl_event shop_event_requests demo_start_def client_go_def)
  from ctl_run.more [OF ctl_run.start this]
  have run: "ctl_run client_go mem_runtime ?rec demo_start ([] @ Event shop_event # [])
      (demo_start\<lparr>ct_queue := cq_add shop_request cq_empty\<rparr>)" by simp
  show ?thesis
    using changes_served [OF cq.work_queue_axioms mem_running.reconciling_axioms mem_healthy
        mem_answers.answering_webhook_axioms frozen_demo_wfp refl demo_start_ok(1) run]
    by (simp add: shop_event_requests demo_start_def demo_def demo_at_def)
qed


section \<open>From a change to the restarts\<close>

text \<open>Where the log stands when a served request was reconciled.\<close>

lemma run_log_grows:
  assumes "installation k rt log tr" and "rec = NewIstioChangeReconciler k rt tr opts"
    and "ctl_run Q rt rec s acts s'" and "\<forall>f. Others f \<in> set acts \<longrightarrow> (\<forall>w. log (f w) = log w)"
  shows "\<exists>es. log (ct_world s') = log (ct_world s) @ es"
  using installation.run_patches [OF assms(1) assms(3) [unfolded assms(2)] assms(4)] by blast

lemma served_reconciles:
  assumes "installation k rt log tr" and "rec = NewIstioChangeReconciler k rt tr opts"
    and run: "ctl_run Q rt rec s acts s'" and others: "\<forall>f. Others f \<in> set acts \<longrightarrow> (\<forall>w. log (f w) = log w)"
    and "served r acts"
  shows "\<exists>v v' xs ys. returns (Reconcile rt rec r) v (Inr ()) v' \<and>
    log v = log (ct_world s) @ xs \<and> log (ct_world s') = log v' @ ys"
proof -
  from assms(5) obtain xs ys zs where acts: "acts = (xs @ Take r # ys) @ [Finish r True] @ zs"
    unfolding served_def by auto
  from run obtain s1 s3 where r1: "ctl_run Q rt rec s (xs @ Take r # ys) s1" and r2: "ctl_run Q rt rec s1 [Finish r True] s3"
    and r3: "ctl_run Q rt rec s3 zs s'"
    unfolding acts by (meson ctl_run_split)
  from r2 have "ctl_step Q rt rec s1 (Finish r True) s3"
    using ctl_run_snoc [of Q rt rec s1 "[]"] by simp
  then obtain out w where rec: "Reconcile rt rec r (ct_world s1) = Some (out, w)" and "succeeded out" and "ct_world s3 = w"
    by (auto simp: ctl_step_simps)
  then have "returns (Reconcile rt rec r) (ct_world s1) (Inr ()) (ct_world s3)"
    by (auto simp: returns_def succeeded_def split: outcome.splits sum.splits)
  moreover obtain es where "log (ct_world s1) = log (ct_world s) @ es"
    using run_log_grows [OF assms(1,2) r1] others acts by auto
  moreover obtain fs where "log (ct_world s') = log (ct_world s3) @ fs"
    using run_log_grows [OF assms(1,2) r3] others acts by auto
  ultimately show ?thesis by blast
qed

lemma requests_routed:
  assumes "r \<in> set (requests_for period e)"
    and "\<And>ns. r = namespace_ReconcileRequest ns \<Longrightarrow> ns \<noteq> [] \<and> CHR ''_'' \<notin> set ns"
  shows "r = configmap_ReconcileRequest \<or> r = periodic_ReconcileRequest \<or>
      (\<exists>ns. r = namespace_ReconcileRequest ns \<and> ns \<noteq> [] \<and> CHR ''_'' \<notin> set ns)"
  using assms
  by (cases e)
    (auto simp: enqueue_from_map_set configmap_ReconcileRequest_def mwc_ReconcileRequest_def split: if_splits)

text \<open>Every request of an event that has been served has been reconciled after it.\<close>

lemma change_attends:
  assumes "work_queue Q view invar" and "reconciling k tr rt P" and "\<And>v. P v \<Longrightarrow> healthy k rt v"
    and "answering_webhook tr" and "wfp (\<lambda>nxt obj. next_object k obj nxt)"
    and "installation k rt log tr" and "still_cluster k tr"
    and "rec = NewIstioChangeReconciler k rt tr opts" and "\<not> ro_dry_run opts" and "uninterrupted rt (ro_restart_delay opts)"
    and "ctl_ok view invar s0" and "ctl_run Q rt rec s0 earlier s1" and run: "ctl_run Q rt rec s1 (Event e # acts) s"
    and "P (ct_world s)" and others: "\<forall>f. Others f \<in> set acts \<longrightarrow> (\<forall>w. log (f w) = log w)"
    and "r \<in> set (requests_for (ro_reconcile_period opts) e)"
    and "\<And>ns. r = namespace_ReconcileRequest ns \<Longrightarrow> ns \<noteq> [] \<and> CHR ''_'' \<notin> set ns"
  shows "(\<exists>next s' es. ctl_run Q rt rec s next s' \<and> list_all own_action next \<and>
       log (ct_world s') = log (ct_world s1) @ es \<and> all_attended k rt tr opts (request_limit r) es) \<and>
    (\<forall>next s'. ctl_run Q rt rec s next s' \<longrightarrow> list_all own_action next \<longrightarrow>
       (\<forall>act s''. own_action act \<longrightarrow> \<not> ctl_step Q rt rec s' act s'') \<longrightarrow>
       (\<exists>es. log (ct_world s') = log (ct_world s1) @ es \<and> all_attended k rt tr opts (request_limit r) es))"
proof -
  have good: "reconciles P rt rec"
    unfolding assms(8) by (rule reconciles_when_healthy [OF assms(2,4,5,3)])
  have all: "ctl_run Q rt rec s0 (earlier @ Event e # acts) s" by (rule ctl_run_append [OF run assms(12)])
  have ok: "ctl_ok view invar s" by (rule work_queue.run_ok [OF assms(1) all assms(11)])
  have period: "rc_reconcile_period rec = ro_reconcile_period opts"
    by (simp add: assms(8) NewIstioChangeReconciler_def)
  have at_rest: "\<exists>es. log (ct_world s') = log (ct_world s1) @ es \<and> all_attended k rt tr opts (request_limit r) es"
    if next_run: "ctl_run Q rt rec s next s'" and own: "list_all own_action next"
      and rest: "owed view s' = {}" "ct_worker s' = None" for "next" s'
  proof -
    have "ctl_run Q rt rec s0 (earlier @ Event e # acts @ next) s'"
      using ctl_run_append [OF next_run all] by simp
    from work_queue.served_at_rest [OF assms(1) this assms(11)] assms(16) rest
    have "served r (acts @ next)" by (simp add: period)
    moreover obtain s2 where "ctl_run Q rt rec s1 [Event e] s2" and s2: "ctl_run Q rt rec s2 (acts @ next) s'"
      using ctl_run_split [of Q rt rec s1 "[Event e]" "acts @ next" s'] ctl_run_append [OF next_run run] by auto
    then have "ct_world s2 = ct_world s1"
      using ctl_run_snoc [of Q rt rec s1 "[]" "Event e" s2] by (auto simp: ctl_event)
    moreover have "\<forall>f. Others f \<in> set (acts @ next) \<longrightarrow> (\<forall>w. log (f w) = log w)"
      using others own by (auto simp: list_all_iff)
    ultimately obtain v v' xs ys where rec: "returns (Reconcile rt rec r) v (Inr ()) v'"
      and logs: "log v = log (ct_world s1) @ xs" "log (ct_world s') = log v' @ ys"
      using served_reconciles [OF assms(6,8) s2] by metis
    from Reconcile_all_attended [OF assms(6,7,9,10) requests_routed [OF assms(16,17)] rec [unfolded assms(8)]]
    obtain es where "log v' = log v @ es" "all_attended k rt tr opts (request_limit r) es" by blast
    with logs all_attended_mono [of k rt tr opts "request_limit r" es "xs @ es @ ys"] show ?thesis by auto
  qed
  have "\<exists>next s' es. ctl_run Q rt rec s next s' \<and> list_all own_action next \<and>
       log (ct_world s') = log (ct_world s1) @ es \<and> all_attended k rt tr opts (request_limit r) es"
    using work_queue.comes_to_rest [OF assms(1) ok \<open>P (ct_world s)\<close> good] at_rest by blast
  moreover have "\<exists>es. log (ct_world s') = log (ct_world s1) @ es \<and> all_attended k rt tr opts (request_limit r) es"
    if next_run: "ctl_run Q rt rec s next s'" and own: "list_all own_action next"
      and stuck: "\<forall>act s''. own_action act \<longrightarrow> \<not> ctl_step Q rt rec s' act s''" for "next" s'
    using work_queue.step_possible [OF assms(1) work_queue.run_ok [OF assms(1) next_run ok]
        work_queue.run_keeps_world [OF assms(1) next_run own \<open>P (ct_world s)\<close> good] good] stuck
      at_rest [OF next_run own] by blast
  ultimately show ?thesis by blast
qed

text \<open>
  C3. From a change to the restarts. The reads of the cluster stand still and nothing fails from now
  on; then after any event, whatever else is in the queue or being processed, the controller can
  go on by itself to a state where the patches sent since the event attend to every outdated
  workload in the range of the event's request; and wherever it cannot go on at all, they do. The
  reconciler is not dry and no pause between restarts is cut short; the request of a namespace event carries
  a Kubernetes name.
\<close>

theorem change_restarts:
  assumes "work_queue Q view invar" and "reconciling k tr rt P" and "\<And>v. P v \<Longrightarrow> healthy k rt v"
    and "answering_webhook tr" and "wfp (\<lambda>nxt obj. next_object k obj nxt)"
    and "installation k rt log tr" and "still_cluster k tr"
    and "rec = NewIstioChangeReconciler k rt tr opts" and "\<not> ro_dry_run opts" and "uninterrupted rt (ro_restart_delay opts)"
    and "ctl_ok view invar s0" and "ctl_run Q rt rec s0 earlier s1" and "ctl_run Q rt rec s1 (Event e # acts) s"
    and "P (ct_world s)" and "\<forall>f. Others f \<in> set acts \<longrightarrow> (\<forall>w. log (f w) = log w)"
    and "r \<in> set (requests_for (ro_reconcile_period opts) e)"
    and "\<And>ns. r = namespace_ReconcileRequest ns \<Longrightarrow> ns \<noteq> [] \<and> CHR ''_'' \<notin> set ns"
  shows "(\<exists>next s' es. ctl_run Q rt rec s next s' \<and> list_all own_action next \<and>
       log (ct_world s') = log (ct_world s1) @ es \<and> all_attended k rt tr opts (request_limit r) es) \<and>
    (\<forall>next s'. ctl_run Q rt rec s next s' \<longrightarrow> list_all own_action next \<longrightarrow>
       (\<forall>act s''. own_action act \<longrightarrow> \<not> ctl_step Q rt rec s' act s'') \<longrightarrow>
       (\<exists>es. log (ct_world s') = log (ct_world s1) @ es \<and> all_attended k rt tr opts (request_limit r) es))"
  using assms by (rule change_attends)


definition frozen_start :: "(client_go_queue, cluster) controller_state" where
  "frozen_start = demo_start\<lparr>ct_queue := cq_add shop_request cq_empty\<rparr>"

lemma frozen_event:
  "ctl_run client_go mem_runtime rec demo_start [Event shop_event] frozen_start"
proof -
  have "ctl_step client_go mem_runtime rec demo_start (Event shop_event) frozen_start"
    by (simp add: ctl_event shop_event_requests demo_start_def frozen_start_def client_go_def)
  from ctl_run.more [OF ctl_run.start this] show ?thesis by simp
qed

theorem change_restarts_witness:
  "\<exists>next s' es ref. ctl_run client_go mem_runtime (NewIstioChangeReconciler (frozen_kube demo) mem_runtime
       (frozen_transport demo) demo_options) frozen_start next s' \<and>
     cl_log (ct_world s') = cl_log demo @ es \<and> wr_nn ref = web_nn \<and>
     attended (frozen_kube demo) mem_runtime (300 * second) es ref"
proof -
  have "\<not> cl_cancelled (ct_world frozen_start)"
    by (simp add: frozen_start_def demo_start_def demo_def demo_at_def)
  moreover have "\<forall>f. Others f \<in> set [] \<longrightarrow> (\<forall>w. cl_log (f w) = cl_log w)" by simp
  moreover have "shop_request \<in> set (requests_for (ro_reconcile_period demo_options) shop_event)"
    by (simp add: shop_event_requests)
  moreover have "ns \<noteq> [] \<and> CHR ''_'' \<notin> set ns" if "shop_request = namespace_ReconcileRequest ns" for ns
    using that by (auto simp: shop_request_def namespace_ReconcileRequest_def)
  ultimately obtain "next" s' es where "ctl_run client_go mem_runtime (NewIstioChangeReconciler (frozen_kube demo) mem_runtime
       (frozen_transport demo) demo_options) frozen_start next s'"
    and "cl_log (ct_world s') = cl_log (ct_world demo_start) @ es"
    and "all_attended (frozen_kube demo) mem_runtime (frozen_transport demo) demo_options (request_limit shop_request) es"
    using change_restarts [OF cq.work_queue_axioms frozen_running.reconciling_axioms mem_healthy
        frozen_answers.answering_webhook_axioms frozen_demo_wfp mem_frozen.installation_axioms frozen.still_cluster_axioms
        refl demo_options_act demo_start_ok(1) ctl_run.start frozen_event]
    by blast
  with frozen_attended [of mem_runtime 0] show ?thesis by (fastforce simp: demo_start_def demo_options_def)
qed


section \<open>What the controller does, and why\<close>

text \<open>
  C10. Whatever the sequence of events, and whatever others do, every patch that the controller sends
  over a whole run restarts a workload that a scan found outdated, outside the skipped namespaces,
  on behalf of an event of the run whose request covers the workload's namespace; in a dry run none
  is ever sent. Others may change the world, but the patches are counted by the log.
\<close>

theorem controller_patches:
  assumes "work_queue Q view invar" and "installation k rt log tr" and "namespaced_api k rt"
    and "rec = NewIstioChangeReconciler k rt tr opts"
    and "ctl_ok view invar s0" and "owed view s0 = {}" and "ct_worker s0 = None"
    and run: "ctl_run Q rt rec s0 acts s" and "\<forall>f. Others f \<in> set acts \<longrightarrow> (\<forall>w. log (f w) = log w)"
  shows "\<exists>es. log (ct_world s) = log (ct_world s0) @ es \<and> (ro_dry_run opts \<longrightarrow> es = []) \<and>
    (\<forall>(ty, nn, doc) \<in> set es.
       (nn_namespace nn = [] \<or> nn_namespace nn \<notin> set (ro_skip_namespaces opts)) \<and>
       (\<exists>e r. Event e \<in> set acts \<and> r \<in> set (requests_for (ro_reconcile_period opts) e) \<and>
          (\<forall>ns. request_limit r = [ns] \<longrightarrow> ns \<noteq> [] \<longrightarrow> nn_namespace nn = ns) \<and>
          (\<exists>ref cfg. restarts ref (ty, nn, doc) \<and>
             scan_finding k rt (CallWebhook k tr) cfg (scan_options_of rec (request_limit r)) ref)))"
proof -
  obtain ess where log: "log (ct_world s) = log (ct_world s0) @ concat ess"
    and ess: "\<And>es. es \<in> set ess \<Longrightarrow> \<exists>r ok. Finish r ok \<in> set acts \<and> reconciled k rt tr opts (request_limit r) es"
    using installation.run_patches [OF assms(2) run [unfolded assms(4)] assms(9)] by blast
  have "concat ess = []" if "ro_dry_run opts"
    using ess that by (fastforce simp: reconciled_def)
  moreover have "(nn_namespace nn = [] \<or> nn_namespace nn \<notin> set (ro_skip_namespaces opts)) \<and>
       (\<exists>e r. Event e \<in> set acts \<and> r \<in> set (requests_for (ro_reconcile_period opts) e) \<and>
          (\<forall>ns. request_limit r = [ns] \<longrightarrow> ns \<noteq> [] \<longrightarrow> nn_namespace nn = ns) \<and>
          (\<exists>ref cfg. restarts ref (ty, nn, doc) \<and>
             scan_finding k rt (CallWebhook k tr) cfg (scan_options_of rec (request_limit r)) ref))"
    if "(ty, nn, doc) \<in> set (concat ess)" for ty nn doc
  proof -
    from that obtain es where es: "es \<in> set ess" "(ty, nn, doc) \<in> set es" by auto
    with ess obtain r ok where fin: "Finish r ok \<in> set acts" and rec: "reconciled k rt tr opts (request_limit r) es"
      by blast
    from work_queue.finished_asked [OF assms(1) run assms(5-7) fin] obtain e
      where e: "Event e \<in> set acts" "r \<in> set (requests_for (ro_reconcile_period opts) e)"
      by (auto simp: asked_def assms(4) NewIstioChangeReconciler_def)
    from rec es(2) have "\<exists>ref cfg. restarts ref (ty, nn, doc) \<and>
        scan_finding k rt (CallWebhook k tr) cfg (scan_options_of (NewIstioChangeReconciler k rt tr opts) (request_limit r)) ref"
      by (fastforce simp: reconciled_def elim: restart_run_restarts)
    with e reconciled_namespaces [OF assms(3) rec es(2)] show ?thesis unfolding assms(4) by blast
  qed
  ultimately show ?thesis using log by (intro exI [of _ "concat ess"]) blast
qed

theorem controller_patches_witness:
  "\<exists>es. cl_log (ct_world demo_end) = cl_log (ct_world demo_start) @ es \<and>
     (\<forall>(ty, nn, doc) \<in> set es. nn_namespace nn \<noteq> ''kube-system'' \<and>
        (\<exists>ref cfg. restarts ref (ty, nn, doc)))"
  using controller_patches [OF cq.work_queue_axioms demo_installation mem_ns.namespaced_api_axioms demo_reconciler_def
      demo_start_ok demo_controller_run]
  by (fastforce simp: demo_options_def)


section \<open>The periodic source and the watches\<close>

lemma tick_loop_until_done:
  "tick_loop Q (replicate n TickerCase @ CtxDoneCase # later) q =
     Some (Return True, fold (wq_add Q) (replicate n periodic_ReconcileRequest) q)"
  by (induction n arbitrary: q) (simp_all add: go_bind_def go_call_def go_ret_def)

lemma tick_loop_total: "go_total (tick_loop Q cases)"
  by (induction Q cases rule: tick_loop.induct) (simp_all add: go_total_intros)

lemma registered_source_total:
  "src \<in> set (cb_raw_sources (istio_change_builder reconciler)) \<Longrightarrow> go_total (src Q cases)"
  by (auto simp: istio_change_builder_def NewReconcileSource_def NewTicker_def Let_def tick_loop_total split: if_splits)

text \<open>
  The comment on \<open>NewReconcileSource\<close> promises no source for the period 0; the function returns one
  whose goroutine panics. The set-up does not ask for it.
\<close>

lemma NewReconcileSource_panics:
  "period \<le> 0 \<Longrightarrow> NewReconcileSource period Q cases q = Some (Panic ''non-positive interval for NewTicker'', q)"
  by (simp add: NewReconcileSource_def NewTicker_def go_bind_def go_panic_def)

text \<open>
  C26. The periodic source. With a positive period it adds its request once for each tick before the
  context is done, and nothing afterwards, when it returns. The set-up registers it exactly when the
  period of the reconciler is positive, with that period, and what it registers never panics.
\<close>

theorem NewReconcileSource_ticks:
  assumes "0 < period"
  shows "NewReconcileSource period Q (replicate n TickerCase @ CtxDoneCase # later) q =
      Some (Return True, fold (wq_add Q) (replicate n periodic_ReconcileRequest) q) \<and>
    cb_raw_sources (istio_change_builder reconciler) =
      (if 0 < rc_reconcile_period reconciler then [NewReconcileSource (rc_reconcile_period reconciler)] else []) \<and>
    (\<forall>src \<in> set (cb_raw_sources (istio_change_builder reconciler)). \<exists>r q'. returns (src Q cases) q r q')"
proof (intro conjI ballI)
  show "NewReconcileSource period Q (replicate n TickerCase @ CtxDoneCase # later) q =
      Some (Return True, fold (wq_add Q) (replicate n periodic_ReconcileRequest) q)"
    using assms by (simp add: NewReconcileSource_def NewTicker_def go_bind_def go_ret_def tick_loop_until_done)
  show "cb_raw_sources (istio_change_builder reconciler) =
      (if 0 < rc_reconcile_period reconciler then [NewReconcileSource (rc_reconcile_period reconciler)] else [])"
    by (simp add: istio_change_builder_def Let_def)
  show "\<exists>r q'. returns (src Q cases) q r q'"
    if "src \<in> set (cb_raw_sources (istio_change_builder reconciler))" for src
    using registered_source_total [OF that, of Q cases] by (simp add: go_total_def)
qed

theorem NewReconcileSource_ticks_witness:
  "NewReconcileSource second client_go [TickerCase, TickerCase, CtxDoneCase, TickerCase] cq_empty =
     Some (Return True, cq_add periodic_ReconcileRequest cq_empty)"
proof -
  have "replicate 2 TickerCase @ CtxDoneCase # [TickerCase] = [TickerCase, TickerCase, CtxDoneCase, TickerCase]"
    by (simp add: numeral_2_eq_2)
  moreover have "fold (wq_add client_go) (replicate 2 periodic_ReconcileRequest) cq_empty = cq_add periodic_ReconcileRequest cq_empty"
    by (simp add: numeral_2_eq_2 client_go_def cq_add_def cq_empty_def)
  moreover have "NewReconcileSource second client_go (replicate 2 TickerCase @ CtxDoneCase # [TickerCase]) cq_empty =
      Some (Return True, fold (wq_add client_go) (replicate 2 periodic_ReconcileRequest) cq_empty)"
    by (rule NewReconcileSource_ticks [THEN conjunct1]) simp
  ultimately show ?thesis by metis
qed

text \<open>
  The set-up of the controller: what its three watches and its optional periodic source, as they
  are registered, put on the queue for an event is exactly what \<open>requests_for\<close> says, in that
  order, whatever the period; nothing panics.
\<close>

theorem setup_delivers:
  "deliver Q (istio_change_builder reconciler) e q =
     Some (Return (), fold (wq_add Q) (requests_for (rc_reconcile_period reconciler) e) q)"
  by (rule deliver_istio_change)

end
