(* ===== verification/Journal.thy ===== *)
theory Journal
  imports Spacing ControllerSpec
begin

text \<open>
  The restarts of a run and what was shown before them, over runs of the controller; and an example
  cluster with a memory of its restarts: its reads show the last one that it was sent. On it the
  controller restarts a workload, an hour passes, and the controller restarts it again.
\<close>

section \<open>The server\<close>

definition patch_value :: "json \<Rightarrow> string option" where
  "patch_value doc =
     (case Option.bind (template_annotations doc) (\<lambda>m. m RestartedAtAnnotation) of
        Some (JStr v) \<Rightarrow> Some v
      | _ \<Rightarrow> None)"

definition journal_history :: "patch_entry list \<Rightarrow> wtype \<Rightarrow> namespaced_name \<Rightarrow> string list" where
  "journal_history es ty nn =
     somes (map (\<lambda>(ty', nn', doc). if ty' = ty \<and> nn' = nn then patch_value doc else None) es)"

definition with_restart :: "string list \<Rightarrow> workload \<Rightarrow> workload" where
  "with_restart vs wl = (if vs = [] then wl else merge_workload (restart_patch (last vs)) wl)"

definition journal_kube :: "cluster kube" where
  "journal_kube =
     mem_kube\<lparr>kGetWorkload := (\<lambda>ty nn c.
                (answer (nn_name nn) (map_option (with_restart (journal_history (cl_log c) ty nn)) (cl_workloads c ty nn)), c)),
              kMergePatch := (\<lambda>ty nn doc c. (None, c\<lparr>cl_log := cl_log c @ [(ty, nn, doc)]\<rparr>))\<rparr>"

text \<open>A clock that shows two times, one hour apart, in this order.\<close>

definition first_hour :: gotime where "first_hour = 63835596000 * second"
definition second_hour :: gotime where "second_hour = 63835599600 * second"

definition journal_clock :: "cluster \<Rightarrow> gotime" where
  "journal_clock c = (if cl_now c < second_hour then first_hour else second_hour)"

definition journal_runtime :: "cluster runtime" where
  "journal_runtime = mem_runtime
     \<lparr>rtNow := (\<lambda>c. (journal_clock c, c)),
      rtSelect := (\<lambda>d c. if cl_cancelled c then (CtxDone (CtxErr ''context canceled''), c)
                        else (TimerFired, c\<lparr>cl_now := cl_now c + max 0 d\<rparr>))\<rparr>"

lemma hours: "second < first_hour" "first_hour < second_hour" "year_of first_hour = 2023" "year_of second_hour = 2023"
  by (simp_all add: first_hour_def second_hour_def) code_simp+

lemma journal_clock_within: "clock_within journal_runtime first_hour second_hour"
  using hours by (simp add: clock_within_def journal_runtime_def journal_clock_def)

lemma patch_value_restart [simp]: "patch_value (restart_patch v) = Some v"
  by (simp add: patch_value_def template_annotations_restart)

lemma somes_append: "somes (xs @ ys) = somes xs @ somes ys"
  by (induction xs rule: somes.induct) simp_all

text \<open>What a read shows: the last restart, or what the workload of the cluster has from the start.\<close>

definition present :: "(wtype \<Rightarrow> namespaced_name \<Rightarrow> workload option) \<Rightarrow> patch_entry list \<Rightarrow> wtype \<Rightarrow> namespaced_name \<Rightarrow> string option" where
  "present wls es ty nn =
     (if journal_history es ty nn = []
      then Option.bind (wls ty nn) (\<lambda>wl. pt_annotations (wl_template wl) RestartedAtAnnotation)
      else Some (last (journal_history es ty nn)))"

definition journal_shown :: "cluster \<Rightarrow> wtype \<Rightarrow> namespaced_name \<Rightarrow> string option" where
  "journal_shown c = present (cl_workloads c) (cl_log c)"

definition journal_sent :: "cluster \<Rightarrow> observed_patch list" where
  "journal_sent c =
     map (\<lambda>i. case cl_log c ! i of (ty, nn, doc) \<Rightarrow> (ty, nn, doc, present (cl_workloads c) (take i (cl_log c)) ty nn))
       [0..<length (cl_log c)]"

lemma journal_sent_snoc:
  assumes "cl_log c' = cl_log c @ [(ty, nn, doc)]" and "cl_workloads c' = cl_workloads c"
  shows "journal_sent c' = journal_sent c @ [(ty, nn, doc, journal_shown c ty nn)]"
  by (simp add: journal_sent_def journal_shown_def assms nth_append)

lemma journal_sent_cong:
  "cl_log c' = cl_log c \<Longrightarrow> cl_workloads c' = cl_workloads c \<Longrightarrow> journal_sent c' = journal_sent c"
  by (simp add: journal_sent_def)

lemma journal_clock_mono: "cl_now c \<le> cl_now c' \<Longrightarrow> journal_clock c \<le> journal_clock c'"
  using hours by (simp add: journal_clock_def)

interpretation journal: restart_observer journal_kube journal_runtime mem_transport journal_shown journal_sent journal_clock
proof
  show "journal_shown w' ty nn = pt_annotations (wl_template wl) RestartedAtAnnotation"
    if "kGetWorkload journal_kube ty nn w = (Inr wl, w')" for ty nn w wl w'
    using that by (auto simp: journal_kube_def journal_shown_def present_def with_restart_def merge_workload_def merge_annotations_restart)
  show "journal_sent w' = journal_sent w @ [(ty, nn, doc, journal_shown w ty nn)]"
    if "kMergePatch journal_kube ty nn doc w = (r, w')" for ty nn doc w r w'
    using that by (auto simp: journal_kube_def intro!: journal_sent_snoc)
qed (auto simp: journal_kube_def journal_runtime_def journal_shown_def mem_defs intro!: preserves_call journal_sent_cong
    elim!: order_trans [OF _ journal_clock_mono] split: if_splits)


section \<open>Two restarts\<close>

definition journal_reconciler :: "cluster reconciler" where
  "journal_reconciler = NewIstioChangeReconciler journal_kube journal_runtime mem_transport demo_options"

definition journal_at :: "gotime \<Rightarrow> patch_entry list \<Rightarrow> cluster" where
  "journal_at t l = (demo_at t)\<lparr>cl_conflicts := 0, cl_log := l\<rparr>"

lemma journal_at_simps [simp]:
  "cl_log (journal_at t l) = l" "cl_now (journal_at t l) = t" "cl_conflicts (journal_at t l) = 0"
  "\<not> cl_cancelled (journal_at t l)" "(journal_at t l)\<lparr>cl_log := l'\<rparr> = journal_at t l'"
  "(journal_at t l)\<lparr>cl_now := t'\<rparr> = journal_at t' l"
  by (simp_all add: journal_at_def demo_at_def)

lemma journal_like:
  "demo_like journal_kube mem_transport (with_restart (journal_history l DeploymentT web_nn) web) (journal_at t l)"
  unfolding demo_like_def
  by (intro conjI exI [of _ "trDo mem_transport"])
    (simp_all add: demo_objects journal_at_def journal_kube_def with_restart_def merge_workload_def mem_kube_def mem_transport_def answer_def validated_def stored_as_def
      single_controller_def controls_def in_namespace_def constant_defs defaultTagWebhookConfigName_def)

lemma journal_config:
  "returns (BuildLastModifiedByRevision journal_kube) (journal_at t l) (Inr Map.empty) (journal_at t l)"
  "returns (FetchTagToRevisionAndLastModified journal_kube) (journal_at t l) (Inr (Map.empty, Map.empty)) (journal_at t l)"
  by (auto simp: BuildLastModifiedByRevision_def FetchTagToRevisionAndLastModified_def journal_kube_def mem_kube_def
      journal_at_def demo_at_def injector_def tag_step_def has_prefix_def istioRevisionTagPrefix_def meta_def
      intro!: returns_tryI)

text \<open>The annotator restarts when its check of the cooldown passes.\<close>

lemma journal_annotate:
  assumes "returns (in_cooldown journal_kube journal_runtime (300 * second) web_ref) (journal_at t l) (Inr False) (journal_at t l)"
  shows "returns (Annotate journal_kube journal_runtime (300 * second) web_ref) (journal_at t l) (Inr True)
    (journal_at t (l @ [web_patch (journal_clock (journal_at t l))]))"
proof -
  let ?now = "journal_clock (journal_at t l)"
  have "kMergePatch journal_kube DeploymentT web_nn (restart_patch (format_rfc3339 ?now)) (journal_at t l) =
      (None, journal_at t (l @ [web_patch ?now]))"
    by (simp add: journal_kube_def web_patch_def)
  then have "returns (patchWithRetry journal_runtime
      (go_call (kMergePatch journal_kube DeploymentT web_nn (restart_patch (format_rfc3339 ?now)))))
      (journal_at t l) None (journal_at t (l @ [web_patch ?now]))"
    unfolding patchWithRetry_three retry_after_def by (auto intro!: returns_bindI)
  moreover have "rtNow journal_runtime (journal_at t l) = (?now, journal_at t l)" by (simp add: journal_runtime_def)
  ultimately show ?thesis
    using assms unfolding Annotate_def Let_def by (auto simp: web_ref_def intro!: returns_tryI returns_bindI)
qed

lemma journal_reconcile:
  assumes "returns (in_cooldown journal_kube journal_runtime (300 * second) web_ref) (journal_at (t + 10 * second) l) (Inr False)
    (journal_at (t + 10 * second) l)"
  shows "returns (Reconcile journal_runtime journal_reconciler shop_request) (journal_at t l) (Inr ())
    (journal_at (t + 10 * second) (l @ [web_patch (journal_clock (journal_at (t + 10 * second) l))]))"
proof -
  let ?t = "t + 10 * second"
  have parts: "scan_options_of journal_reconciler [''shop''] = shop_scan" "rc_client journal_reconciler = journal_kube"
    "sc_client (rc_scanner journal_reconciler) = journal_kube"
    "sc_webhook_caller (rc_scanner journal_reconciler) = Some (CallWebhook journal_kube mem_transport)"
    "rc_annotator journal_reconciler = Annotate journal_kube journal_runtime (300 * second)"
    "rc_dry_run journal_reconciler = False"
    by (simp_all add: scan_options_of_def journal_reconciler_def NewIstioChangeReconciler_def demo_options_def shop_scan_def)
  have "returns (awaitIstiodConfigReadDelay journal_runtime journal_reconciler) (journal_at t l) None (journal_at ?t l)"
    by (auto simp: awaitIstiodConfigReadDelay_def journal_reconciler_def NewIstioChangeReconciler_def demo_options_def
        waitOrContextDone_def journal_runtime_def intro!: returns_bindI)
  moreover have "returns (annotateWorkloadsWithDelay journal_runtime journal_reconciler [web_ref]) (journal_at ?t l) ()
      (journal_at ?t (l @ [web_patch (journal_clock (journal_at ?t l))]))"
    using journal_annotate [OF assms] by (auto simp: annotateWorkloadsWithDelay_def parts intro!: returns_bindI)
  then have "returns (scanAndAnnotate journal_runtime journal_reconciler no_config [''shop'']) (journal_at ?t l) (Inr ())
      (journal_at ?t (l @ [web_patch (journal_clock (journal_at ?t l))]))"
    using demo_scan [OF journal_like] unfolding scanAndAnnotate_def parts by (auto intro!: returns_tryI returns_bindI)
  ultimately have "returns (reconcileAll journal_runtime journal_reconciler [''shop'']) (journal_at t l) (Inr ())
      (journal_at ?t (l @ [web_patch (journal_clock (journal_at ?t l))]))"
    using journal_config [of ?t l] unfolding reconcileAll_def parts no_config_def by (auto intro!: returns_tryI returns_bindI)
  then show ?thesis
    by (simp add: Reconcile_def shop_request_def namespace_ReconcileRequest_def
        periodic_ReconcileRequestName_def configmap_ReconcileRequestName_def reconcileTriggerName_def
        ReconcileTriggerNameIstioChange_def)
qed


definition hour_passes :: "cluster \<Rightarrow> cluster" where
  "hour_passes c = c\<lparr>cl_now := second_hour\<rparr>"

definition journal_trace :: "cluster action list" where
  "journal_trace =
     [Event shop_event, Take shop_request, Finish shop_request True, Others hour_passes,
      Event shop_event, Take shop_request, Finish shop_request True]"

definition journal_end :: cluster where
  "journal_end = journal_at (second_hour + 10 * second) [web_patch first_hour, web_patch second_hour]"

lemma journal_check_first:
  "returns (in_cooldown journal_kube journal_runtime (300 * second) web_ref) (journal_at t []) (Inr False) (journal_at t [])"
  by (auto simp: in_cooldown_def getRestartedAt_def web_ref_def web_def web_template_def journal_kube_def journal_at_def
      demo_at_def answer_def with_restart_def journal_history_def restarted_at_def is_zero_def intro!: returns_tryI)

lemma journal_check_second:
  "returns (in_cooldown journal_kube journal_runtime (300 * second) web_ref)
     (journal_at (second_hour + 10 * second) [web_patch first_hour]) (Inr False)
     (journal_at (second_hour + 10 * second) [web_patch first_hour])"
proof -
  let ?c = "journal_at (second_hour + 10 * second) [web_patch first_hour]"
  have parse: "parse_rfc3339 (format_rfc3339 first_hour) = Some first_hour"
    using parse_format [of first_hour] hours by (simp add: first_hour_def)
  have "journal_history (cl_log ?c) DeploymentT web_nn = [format_rfc3339 first_hour]"
    by (simp add: journal_history_def web_patch_def)
  then have get: "kGetWorkload journal_kube DeploymentT (wr_nn web_ref) ?c =
      (Inr (with_restart [format_rfc3339 first_hour] web), ?c)"
    by (simp add: journal_kube_def journal_at_def demo_at_def answer_def web_ref_def)
  have at: "restarted_at (wl_template (with_restart [format_rfc3339 first_hour] web)) = first_hour"
    using parse by (simp add: restarted_at_def with_restart_def merge_workload_def merge_annotations_restart
        format_rfc3339_def Let_def split: prod.split)
  have "rtNow journal_runtime ?c = (second_hour, ?c)"
    using hours by (simp add: journal_runtime_def journal_clock_def)
  from in_cooldown_recent [OF _ stopped_kind get _ this, of "300 * second"] at show ?thesis
    by (simp add: is_zero_def zero_time_def first_hour_def second_hour_def time_sub_def min_duration_def max_duration_def)
qed

lemma journal_run:
  "ctl_run client_go journal_runtime journal_reconciler (idle_at (journal_at first_hour [])) journal_trace (idle_at journal_end)"
proof -
  let ?one = "[Event shop_event, Take shop_request, Finish shop_request True]"
  have clocks: "journal_clock (journal_at (first_hour + 10 * second) []) = first_hour"
    "journal_clock (journal_at (second_hour + 10 * second) l) = second_hour" for l
    by (simp_all add: journal_clock_def first_hour_def second_hour_def)
  have r1: "ctl_run client_go journal_runtime journal_reconciler (idle_at (journal_at first_hour [])) ?one
      (idle_at (journal_at (first_hour + 10 * second) [web_patch first_hour]))"
    using shop_served [OF journal_reconcile [OF journal_check_first [of "first_hour + 10 * second"]]] by (simp only: clocks append_Nil)
  have "ctl_step client_go journal_runtime journal_reconciler (idle_at (journal_at (first_hour + 10 * second) [web_patch first_hour]))
      (Others hour_passes) (idle_at (journal_at second_hour [web_patch first_hour]))"
    by (simp add: ctl_step_simps idle_at_def hour_passes_def)
  from ctl_run.more [OF r1 this] have r2: "ctl_run client_go journal_runtime journal_reconciler
      (idle_at (journal_at first_hour [])) (?one @ [Others hour_passes]) (idle_at (journal_at second_hour [web_patch first_hour]))" .
  have "ctl_run client_go journal_runtime journal_reconciler (idle_at (journal_at second_hour [web_patch first_hour])) ?one
      (idle_at journal_end)"
    using shop_served [OF journal_reconcile [OF journal_check_second]] by (simp only: clocks journal_end_def append.simps)
  from ctl_run_append [OF this r2] show ?thesis by (simp add: journal_trace_def)
qed


section \<open>Restarts are a cooldown apart\<close>

text \<open>
  C2. A restart comes a cooldown after the last one that was shown. Over any run of the controller,
  whatever the events, failures, conflicts and retries, and whoever else writes the annotation: every
  patch is a restart, and the restart that the annotator's last read of the workload has shown, if it
  was a readable one, is the cooldown earlier than it. So two restarts of a workload, the second
  sent after a read that showed the first, are the cooldown apart, but for the second to which the
  values are cut; they can be closer only when a stale read hides the first. The hypotheses: the
  observer notes what reads show, the clock does not run backwards between two calls and shows years
  of four digits, and the cooldown is positive.
\<close>

theorem restarts_spaced:
  assumes "restart_observer k rt tr shown sent clock" and "clock_within rt lo hi" and "second < lo"
    and "0 < ro_annotation_cooldown opts" and "is_duration (ro_annotation_cooldown opts)"
    and "ctl_run Q rt (NewIstioChangeReconciler k rt tr opts) s0 acts s"
    and "\<forall>f. Others f \<in> set acts \<longrightarrow> (\<forall>w. sent (f w) = sent w)"
  shows "\<exists>es. sent (ct_world s) = sent (ct_world s0) @ es \<and>
    (\<forall>e \<in> set es. cooled lo (ro_annotation_cooldown opts) e) \<and>
    (\<forall>e \<in> set es. \<forall>e' \<in> set es. spaced (ro_annotation_cooldown opts) e e')"
proof -
  from restart_observer.run_cooled [OF assms(1,2,4-7)] obtain es where "sent (ct_world s) = sent (ct_world s0) @ es"
    and es: "\<forall>e \<in> set es. cooled lo (ro_annotation_cooldown opts) e"
    by (auto simp: grown_def list_all_iff)
  with cooled_spaced [OF _ _ assms(3)] show ?thesis by blast
qed

theorem restarts_spaced_witness:
  "\<exists>es. journal_sent journal_end = es \<and> length es = 2 \<and> (\<forall>e \<in> set es. cooled first_hour (300 * second) e) \<and>
     snd (snd (snd (es ! 1))) = Some (format_rfc3339 first_hour) \<and>
     restart_gap (300 * second) (format_rfc3339 first_hour) (format_rfc3339 second_hour)"
proof -
  have web: "Option.bind (cl_workloads (journal_at t l) DeploymentT web_nn)
      (\<lambda>wl. pt_annotations (wl_template wl) RestartedAtAnnotation) = None" for t l
    by (simp add: journal_at_def demo_at_def web_def web_template_def)
  have start: "journal_sent (journal_at first_hour []) = []" by (simp add: journal_sent_def)
  have two: "journal_sent journal_end =
      [(DeploymentT, web_nn, restart_patch (format_rfc3339 first_hour), None),
       (DeploymentT, web_nn, restart_patch (format_rfc3339 second_hour), Some (format_rfc3339 first_hour))]"
    using web by (simp add: journal_sent_def journal_end_def web_patch_def present_def journal_history_def upt_rec)
  have "\<forall>f. Others f \<in> set journal_trace \<longrightarrow> (\<forall>c. journal_sent (f c) = journal_sent c)"
    by (auto simp: journal_trace_def hour_passes_def intro!: journal_sent_cong)
  from restarts_spaced [OF journal.restart_observer_axioms journal_clock_within hours(1) _ _
      journal_run [unfolded journal_reconciler_def] this]
  have "(\<forall>e \<in> set (journal_sent journal_end). cooled first_hour (300 * second) e) \<and>
      (\<forall>e \<in> set (journal_sent journal_end). \<forall>e' \<in> set (journal_sent journal_end). spaced (300 * second) e e')"
    by (auto simp: start idle_at_def demo_options_def is_duration_def min_duration_def max_duration_def)
  with two show ?thesis by (simp add: spaced_def)
qed

end
