(* ===== verification/Blocking.thy ===== *)
theory Blocking
  imports ControllerSpec
begin

text \<open>
  What one bad pod does. A scan handles the pods one after the other in one goroutine, so a pod
  whose processing does not come back with an answer, because the webhook client panics on it or
  the search for its owner goes round in circles, ends the scan for all pods: nothing is restarted
  and the request is never done with.
\<close>

section \<open>Calls that come to nothing\<close>

text \<open>\<open>fruitless log m\<close>: when the call comes back it has failed, and it has sent no patch.\<close>

definition fruitless :: "('w \<Rightarrow> 'e list) \<Rightarrow> ('w, goerror + unit) go \<Rightarrow> bool" where
  "fruitless log m \<longleftrightarrow> (\<forall>w out w'. m w = Some (out, w') \<longrightarrow> log w' = log w \<and> \<not> succeeded out)"

lemma fruitless_error: "fruitless log (go_ret (Inl e))"
  by (simp add: fruitless_def go_ret_def)

lemma fruitless_bind:
  assumes "\<And>l. preserves (\<lambda>w. log w = l) m" and "\<And>w x w'. returns m w x w' \<Longrightarrow> fruitless log (f x)"
  shows "fruitless log (go_bind m f)"
  unfolding fruitless_def
proof (intro allI impI)
  fix w out w'
  assume run: "go_bind m f w = Some (out, w')"
  then obtain r w1 where m: "m w = Some (r, w1)"
    by (auto simp: go_bind_def split: option.splits)
  with assms(1) [of "log w"] have log: "log w1 = log w" unfolding preserves_def by blast
  show "log w' = log w \<and> \<not> succeeded out"
  proof (cases r)
    case (Return x)
    with m have "returns m w x w1" by (simp add: returns_def)
    from assms(2) [OF this] Return m run log show ?thesis by (auto simp: fruitless_def go_bind_def)
  qed (use m run log in \<open>auto simp: go_bind_def\<close>)
qed

lemma fruitless_try:
  assumes "\<And>l. preserves (\<lambda>w. log w = l) m" and "\<And>w x w'. returns m w (Inr x) w' \<Longrightarrow> fruitless log (f x)"
  shows "fruitless log (go_try g m f)"
  unfolding go_try_def
proof (rule fruitless_bind [OF assms(1)])
  fix w x w'
  assume "returns m w x w'"
  with assms(2) show "fruitless log (case x of Inl e \<Rightarrow> go_ret (Inl (g e)) | Inr x \<Rightarrow> f x)"
    by (cases x) (auto intro: fruitless_error)
qed


section \<open>Pods that block a scan\<close>

text \<open>
  \<open>blocks_scan\<close>: every listing for the request shows the pod, its namespace is not skipped, and with
  the tables that can be read the processing of the pod never comes back with an answer.
\<close>

definition blocks_scan :: "'w kube \<Rightarrow> 'w runtime \<Rightarrow> 'w transport \<Rightarrow> reconciler_options \<Rightarrow> request \<Rightarrow> pod \<Rightarrow> bool" where
  "blocks_scan k rt tr opts r p \<longleftrightarrow>
     (\<exists>so. so = scan_options_of (NewIstioChangeReconciler k rt tr opts) (request_limit r) \<and>
        om_namespace (p_meta p) \<notin> set (ro_skip_namespaces opts) \<and>
        (\<forall>v pods v'. returns (listPods k rt so) v (Inr pods) v' \<longrightarrow> p \<in> set pods) \<and>
        (\<forall>cfg v x v'. config_read k cfg \<longrightarrow> \<not> returns (processPodForOutdatedSidecar k (CallWebhook k tr) cfg so p) v x v'))"

lemma process_all_each: "returns (process_all f xs) w ys w' \<Longrightarrow> x \<in> set xs \<Longrightarrow> \<exists>v y v'. returns (f x) v y v'"
  using returns_process_all [of f xs w ys w'] by (metis in_set_conv_nth)

lemma scan_pods_each:
  assumes "returns (scan_pods process skipSet seen refs pods) w r w'" and "p \<in> set pods"
    and "om_namespace (p_meta p) \<notin> set skipSet"
  shows "\<exists>v x v'. returns (process p) v x v'"
proof -
  from assms(1) obtain rs w1 where "returns (process_all process (scanned skipSet pods)) w rs w1"
    unfolding scan_pods_pipeline by (auto elim: returns_bindE)
  from process_all_each [OF this, of p] assms(2,3) show ?thesis by (simp add: scanned_def)
qed

lemma blocked_scan:
  assumes "blocks_scan k rt tr opts r p" and "config_read k cfg"
    and "so = scan_options_of (NewIstioChangeReconciler k rt tr opts) (request_limit r)"
  shows "\<not> returns (ScanOutdatedPods k rt (Some (CallWebhook k tr)) cfg so) w (Inr refs) w'"
proof
  assume "returns (ScanOutdatedPods k rt (Some (CallWebhook k tr)) cfg so) w (Inr refs) w'"
  then obtain pods w1 where l: "returns (listPods k rt so) w (Inr pods) w1"
    and s: "returns (scan_pods (processPodForOutdatedSidecar k (CallWebhook k tr) cfg so)
           (filter (\<lambda>ns. ns \<noteq> []) (so_skip_namespaces so)) [] [] pods) w1 refs w'"
    by (rule returns_ScanOutdatedPods)
  have "so_skip_namespaces so = ro_skip_namespaces opts"
    by (simp add: assms(3) scan_options_of_def NewIstioChangeReconciler_def)
  with scan_pods_each [OF s] l assms show False unfolding blocks_scan_def by fastforce
qed

lemma config_readI:
  "returns (BuildLastModifiedByRevision k) v (Inr m) v' \<Longrightarrow>
     returns (FetchTagToRevisionAndLastModified k) u (Inr (tags, tag_times)) u' \<Longrightarrow>
     config_read k \<lparr>ic_last_modified_by_revision = m, ic_tag_to_revision = tags, ic_last_modified_by_tag = tag_times\<rparr>"
  unfolding config_read_def istio_config.simps by blast

context installation begin

lemma blocked_reconcileAll:
  assumes "blocks_scan k rt tr opts r p"
  shows "fruitless log (reconcileAll rt (NewIstioChangeReconciler k rt tr opts) (request_limit r))"
proof -
  let ?r = "NewIstioChangeReconciler k rt tr opts"
  have parts: "rc_client ?r = k" "sc_client (rc_scanner ?r) = k" "sc_webhook_caller (rc_scanner ?r) = Some (CallWebhook k tr)"
    by (simp_all add: NewIstioChangeReconciler_def)
  have scan: "fruitless log (scanAndAnnotate rt ?r cfg (request_limit r))" if "config_read k cfg" for cfg
    unfolding scanAndAnnotate_def parts
    by (rule fruitless_try [OF scan_keeps_log]) (use blocked_scan [OF assms that refl] in blast)
  show ?thesis
    unfolding reconcileAll_def parts
  proof (rule fruitless_bind [OF await_keeps_log])
    fix x
    have "fruitless log (go_try (\<lambda>err. err) (BuildLastModifiedByRevision k)
        (\<lambda>lm. go_try (Wrap ''fetch tag-to-revision mapping: '') (FetchTagToRevisionAndLastModified k)
           (\<lambda>(tags, times). scanAndAnnotate rt ?r \<lparr>ic_last_modified_by_revision = lm, ic_tag_to_revision = tags,
                ic_last_modified_by_tag = times\<rparr> (request_limit r))))"
      by (intro fruitless_try build_keeps_log fetch_keeps_log) (auto intro!: scan config_readI)
    then show "fruitless log (case x of Some err \<Rightarrow> go_ret (Inl (Wrap ''await istiod config read delay: '' err))
        | None \<Rightarrow> go_try (\<lambda>err. err) (BuildLastModifiedByRevision k)
            (\<lambda>lm. go_try (Wrap ''fetch tag-to-revision mapping: '') (FetchTagToRevisionAndLastModified k)
               (\<lambda>(tags, times). scanAndAnnotate rt ?r \<lparr>ic_last_modified_by_revision = lm, ic_tag_to_revision = tags,
                    ic_last_modified_by_tag = times\<rparr> (request_limit r))))"
      by (cases x) (simp_all add: fruitless_error)
  qed
qed

lemma run_fruitless:
  assumes "ctl_run Q rt rec s0 acts s" and "\<forall>f. Others f \<in> set acts \<longrightarrow> (\<forall>w. log (f w) = log w)"
    and "\<forall>r ok. Finish r ok \<in> set acts \<longrightarrow> fruitless log (Reconcile rt rec r)"
  shows "log (ct_world s) = log (ct_world s0) \<and> (\<forall>r. Finish r True \<notin> set acts)"
  using assms
proof (induction rule: ctl_run.induct)
  case (more acts s act s')
  have "\<forall>f. Others f \<in> set acts \<longrightarrow> (\<forall>w. log (f w) = log w)" using more(4) by simp
  moreover have "\<forall>r ok. Finish r ok \<in> set acts \<longrightarrow> fruitless log (Reconcile rt rec r)" using more(5) by simp
  ultimately have IH: "log (ct_world s) = log (ct_world s0)" "\<forall>r. Finish r True \<notin> set acts" using more(3) by blast+
  from more(2) show ?case
  proof cases
    case (finish r out w ok)
    with more(5) have "log w = log (ct_world s)" "\<not> ok" by (auto simp: fruitless_def)
    with finish IH show ?thesis by auto
  qed (use IH more(4) in auto)
qed simp

end


section \<open>The controller behind a bad pod\<close>

text \<open>
  C11. One bad pod stops every restart. While every listing for the requests that the events ask for
  shows a pod whose processing never comes back with an answer, no request is ever served and no
  patch is sent, however many workloads are outdated and however long the controller runs. (An
  owner search in a cycle and a denial without a status make such a pod.)
\<close>

theorem bad_pod_blocks:
  assumes "work_queue Q view invar" and "installation k rt log tr" and "rec = NewIstioChangeReconciler k rt tr opts"
    and "ctl_ok view invar s0" and "owed view s0 = {}" and "ct_worker s0 = None"
    and run: "ctl_run Q rt rec s0 acts s" and others: "\<forall>f. Others f \<in> set acts \<longrightarrow> (\<forall>w. log (f w) = log w)"
    and "\<forall>r \<in> asked (ro_reconcile_period opts) acts. blocks_scan k rt tr opts r p \<and>
      (\<forall>ns. r = namespace_ReconcileRequest ns \<longrightarrow> ns \<noteq> [] \<and> CHR ''_'' \<notin> set ns)"
  shows "log (ct_world s) = log (ct_world s0) \<and> (\<forall>r. \<not> served r acts)"
proof -
  have period: "rc_reconcile_period rec = ro_reconcile_period opts"
    by (simp add: assms(3) NewIstioChangeReconciler_def)
  have "fruitless log (Reconcile rt rec r)" if "Finish r ok \<in> set acts" for r ok
  proof -
    from work_queue.finished_asked [OF assms(1) run assms(4-6) that] have asked: "r \<in> asked (ro_reconcile_period opts) acts"
      by (simp add: period)
    then obtain e where "r \<in> set (requests_for (ro_reconcile_period opts) e)" by (auto simp: asked_def)
    with requests_routed [OF this] asked assms(9) have "Reconcile rt rec r = reconcileAll rt rec (request_limit r)"
      by (intro Reconcile_routed) blast
    moreover from asked assms(9) have "blocks_scan k rt tr opts r p" by blast
    ultimately show ?thesis using installation.blocked_reconcileAll [OF assms(2)] by (simp add: assms(3))
  qed
  with installation.run_fruitless [OF assms(2) run others]
  have "log (ct_world s) = log (ct_world s0) \<and> (\<forall>r. Finish r True \<notin> set acts)" by blast
  then show ?thesis by (auto simp: served_def)
qed

text \<open>The two ways in which a pod blocks a scan.\<close>

lemma endless_owner_blocks:
  assumes "\<And>v. findWorkloadOwner k (p_meta p) v = None"
  shows "\<not> returns (processPodForOutdatedSidecar k caller cfg so p) v x v'"
  using assms by (simp add: processPodForOutdatedSidecar_def go_bind_def returns_def)

text \<open>On the example cluster: a webhook that denies without a status.\<close>

definition deny_all :: "cluster transport" where
  "deny_all = (frozen_transport demo)
     \<lparr>trDecodeReview := (\<lambda>body. Inr (Some \<lparr>ar_allowed = False, ar_result_message = None, ar_patch = []\<rparr>))\<rparr>"

interpretation denied: installation "frozen_kube demo" mem_runtime cl_log deny_all
  by (intro installation.intro installation_axioms.intro installation.axioms(1) [OF mem_frozen.installation_axioms])
    (unfold_locales, auto simp: deny_all_def frozen_transport_def freeze_def intro!: preserves_call)

lemma deny_all_panics: "\<exists>msg. CallWebhook (frozen_kube demo) deny_all (Some q) ''default'' True c = Some (Panic msg, c)"
  using demo_url [OF demo_like_frozen [of "63835596800 * second" c]]
  by (simp add: CallWebhook_def go_try_def go_bind_def go_call_def go_ret_def deny_all_def frozen_transport_def
      mem_transport_def freeze_def transportForCABundle_def send_review_def handle_response_def go_panic_def
      getWebhookURL_def service_url_def make_review_def demo_def)

lemma web_pod_panics:
  "\<exists>msg. processPodForOutdatedSidecar (frozen_kube demo) (CallWebhook (frozen_kube demo) deny_all) no_config so web_pod c
     = Some (Panic msg, c)"
proof -
  note like = demo_like_frozen [of "63835596800 * second" c, folded demo_def]
  obtain msg where "CallWebhook (frozen_kube demo) deny_all (Some (pod_of_template web_nn (wl_template web))) ''default'' True c
      = Some (Panic msg, c)"
    using deny_all_panics by blast
  then show ?thesis
    by (simp add: processPodForOutdatedSidecar_def check_with_webhook_def go_bind_def demo_owner [OF like]
        demo_rev [OF like] demo_build [OF like] shouldSkipPodForLastModified_def effective_last_modified_def
        no_config_def resolve_tag_def is_zero_def go_ret_def)
qed

definition deny_reconciler :: "cluster reconciler" where
  "deny_reconciler = NewIstioChangeReconciler (frozen_kube demo) mem_runtime deny_all demo_options"

lemma shop_blocked: "blocks_scan (frozen_kube demo) mem_runtime deny_all demo_options shop_request web_pod"
proof -
  have so: "scan_options_of (NewIstioChangeReconciler (frozen_kube demo) mem_runtime deny_all demo_options)
      (request_limit shop_request) = shop_scan"
    by (simp add: scan_options_of_def NewIstioChangeReconciler_def demo_options_def shop_scan_def shop_request_def
        request_limit_namespace)
  have "\<not> returns (processPodForOutdatedSidecar (frozen_kube demo) (CallWebhook (frozen_kube demo) deny_all) cfg shop_scan web_pod) v x v'"
    if "config_read (frozen_kube demo) cfg" for cfg v x v'
    using web_pod_panics [of shop_scan v] frozen_config [OF that] by (auto simp: returns_def)
  moreover have "om_namespace (p_meta web_pod) \<notin> set (ro_skip_namespaces demo_options)"
    by (simp add: web_pod_def meta_def demo_options_def)
  ultimately show ?thesis unfolding blocks_scan_def so by (auto dest: frozen_list)
qed

text \<open>The reconciliation panics, and the request goes back to the queue.\<close>

lemma deny_reconcile:
  "\<exists>msg. Reconcile mem_runtime deny_reconciler shop_request demo = Some (Panic msg, demo_at (63835596810 * second))"
proof -
  let ?c = "demo_at (63835596810 * second)"
  have parts: "scan_options_of deny_reconciler [''shop''] = shop_scan" "rc_client deny_reconciler = frozen_kube demo"
    "sc_client (rc_scanner deny_reconciler) = frozen_kube demo"
    "sc_webhook_caller (rc_scanner deny_reconciler) = Some (CallWebhook (frozen_kube demo) deny_all)"
    by (simp_all add: scan_options_of_def deny_reconciler_def NewIstioChangeReconciler_def demo_options_def shop_scan_def)
  obtain msg where web: "processPodForOutdatedSidecar (frozen_kube demo) (CallWebhook (frozen_kube demo) deny_all) no_config
      shop_scan web_pod ?c = Some (Panic msg, ?c)"
    using web_pod_panics by blast
  note like = demo_like_frozen [of "63835596800 * second" ?c, folded demo_def]
  have await: "awaitIstiodConfigReadDelay mem_runtime deny_reconciler demo = Some (Return None, ?c)"
    by (simp add: awaitIstiodConfigReadDelay_def deny_reconciler_def NewIstioChangeReconciler_def demo_options_def
        waitOrContextDone_def mem_runtime_def demo_def demo_at_def go_simps go_bind_def go_call_def go_ret_def)
  have config: "BuildLastModifiedByRevision (frozen_kube demo) ?c = Some (Return (Inr Map.empty), ?c)"
    "FetchTagToRevisionAndLastModified (frozen_kube demo) ?c = Some (Return (Inr (Map.empty, Map.empty)), ?c)"
    by (simp_all add: BuildLastModifiedByRevision_def FetchTagToRevisionAndLastModified_def frozen_kube_def freeze_def
        mem_kube_def demo_def demo_at_def injector_def tag_step_def has_prefix_def istioRevisionTagPrefix_def meta_def
        go_try_def go_bind_def go_call_def go_ret_def)
  have ns: "om_namespace (p_meta web_pod) = ''shop''" by (simp add: web_pod_def meta_def)
  have "scanAndAnnotate mem_runtime deny_reconciler no_config [''shop''] ?c = Some (Panic msg, ?c)"
    unfolding scanAndAnnotate_def parts using web demo_list [OF like, of mem_runtime] ns
    by (simp add: ScanOutdatedPods_def go_try_def go_bind_def go_ret_def shop_scan_def)
  then have "reconcileAll mem_runtime deny_reconciler [''shop''] demo = Some (Panic msg, ?c)"
    unfolding reconcileAll_def parts using await config by (simp add: go_simps no_config_def go_try_def go_bind_def)
  then show ?thesis
    by (simp add: Reconcile_def shop_request_def namespace_ReconcileRequest_def
        periodic_ReconcileRequestName_def configmap_ReconcileRequestName_def reconcileTriggerName_def
        ReconcileTriggerNameIstioChange_def)
qed

lemma deny_run:
  "\<exists>s. ctl_run client_go mem_runtime deny_reconciler demo_start
     [Event shop_event, Take shop_request, Finish shop_request False] s"
proof -
  let ?q2 = "cq_empty\<lparr>cq_processing := [shop_request]\<rparr>"
  obtain msg where "Reconcile mem_runtime deny_reconciler shop_request demo = Some (Panic msg, demo_at (63835596810 * second))"
    using deny_reconcile by blast
  then have "ctl_step client_go mem_runtime deny_reconciler (demo_start\<lparr>ct_queue := ?q2, ct_worker := Some shop_request\<rparr>)
      (Finish shop_request False) (demo_start\<lparr>ct_queue := settle client_go shop_request False ?q2, ct_worker := None,
         ct_world := demo_at (63835596810 * second)\<rparr>)"
    by (simp add: ctl_step_simps demo_start_def)
  moreover have "ctl_step client_go mem_runtime deny_reconciler frozen_start (Take shop_request)
      (demo_start\<lparr>ct_queue := ?q2, ct_worker := Some shop_request\<rparr>)"
    by (simp add: ctl_step_simps frozen_start_def demo_start_def client_go_def cq_get_def cq_add_def cq_empty_def)
  ultimately have "ctl_run client_go mem_runtime deny_reconciler demo_start
      (([Event shop_event] @ [Take shop_request]) @ [Finish shop_request False])
      (demo_start\<lparr>ct_queue := settle client_go shop_request False ?q2, ct_worker := None,
         ct_world := demo_at (63835596810 * second)\<rparr>)"
    using frozen_event by (blast intro: ctl_run.more)
  then show ?thesis by auto
qed

theorem bad_pod_blocks_witness:
  "\<exists>(s :: (client_go_queue, cluster) controller_state). ctl_run client_go mem_runtime deny_reconciler demo_start
       [Event shop_event, Take shop_request, Finish shop_request False] s \<and>
     cl_log (ct_world s) = cl_log (ct_world demo_start) \<and>
     \<not> served shop_request [Event shop_event, Take shop_request, Finish shop_request False :: cluster action]"
proof -
  let ?acts = "[Event shop_event, Take shop_request, Finish shop_request False :: cluster action]"
  obtain s where run: "ctl_run client_go mem_runtime deny_reconciler demo_start ?acts s"
    using deny_run by blast
  have others: "\<forall>f. Others f \<in> set ?acts \<longrightarrow> (\<forall>w. cl_log (f w) = cl_log w)" by simp
  have "asked (ro_reconcile_period demo_options) ?acts = {shop_request}"
    by (auto simp: asked_def shop_event_requests)
  moreover have "ns \<noteq> [] \<and> CHR ''_'' \<notin> set ns" if "shop_request = namespace_ReconcileRequest ns" for ns
    using that by (auto simp: shop_request_def namespace_ReconcileRequest_def)
  ultimately have "\<forall>r \<in> asked (ro_reconcile_period demo_options) ?acts.
      blocks_scan (frozen_kube demo) mem_runtime deny_all demo_options r web_pod \<and>
      (\<forall>ns. r = namespace_ReconcileRequest ns \<longrightarrow> ns \<noteq> [] \<and> CHR ''_'' \<notin> set ns)"
    using shop_blocked by simp
  from bad_pod_blocks [OF cq.work_queue_axioms denied.installation_axioms deny_reconciler_def demo_start_ok run others this] run
  show ?thesis by blast
qed

end
