(* ===== verification/Settled.thy ===== *)
theory Settled
  imports ControllerSpec
begin

text \<open>
  Restarts come to an end. A restarted workload gets pods with the proxy image that injection gives
  it now; \<open>injected\<close> says of a pod that it has that image. When every listed pod does, the
  controller sends nothing, whatever events arrive: no restart leads to another.
\<close>

section \<open>Pods as they are injected today\<close>

definition injected :: "'w kube \<Rightarrow> 'w webhook_caller \<Rightarrow> istio_config \<Rightarrow> pod \<Rightarrow> bool" where
  "injected k caller cfg p \<longleftrightarrow>
     (\<forall>ref revOrTag templatePod mutated v1 v1' v2 v2' v3 v3'. owned_by k (p_meta p) ref \<longrightarrow>
        returns (getIstioRevFromWorkloadOrNamespace k ref) v1 (Inr revOrTag) v1' \<longrightarrow>
        returns (buildPodFromWorkload k ref) v2 (Inr templatePod) v2' \<longrightarrow>
        returns (caller templatePod (resolve_tag cfg revOrTag) (revOrTag = ''default'')) v3 (Inr mutated) v3' \<longrightarrow>
        getIstioProxyImage p = getIstioProxyImage mutated)"

lemma injected_not_outdated: "injected k caller cfg p \<Longrightarrow> \<not> outdated k caller cfg so p ref"
  unfolding injected_def outdated_def by (metis imagesMatch_refl)

definition all_injected :: "'w kube \<Rightarrow> 'w runtime \<Rightarrow> 'w webhook_caller \<Rightarrow> string list \<Rightarrow> bool" where
  "all_injected k rt caller skip \<longleftrightarrow>
     (\<forall>cfg so v pods v'. returns (listPods k rt so) v (Inr pods) v' \<longrightarrow>
        (\<forall>p \<in> set pods. om_namespace (p_meta p) = [] \<or> om_namespace (p_meta p) \<notin> set skip \<longrightarrow> injected k caller cfg p))"

lemma all_injected_no_finding:
  "all_injected k rt caller (so_skip_namespaces so) \<Longrightarrow> \<not> scan_finding k rt caller cfg so ref"
  unfolding all_injected_def scan_finding_def using injected_not_outdated by metis

lemma all_injected_reconciled:
  assumes "all_injected k rt (CallWebhook k tr) (ro_skip_namespaces opts)" and "reconciled k rt tr opts limit es"
  shows "es = []"
proof -
  let ?so = "scan_options_of (NewIstioChangeReconciler k rt tr opts) limit"
  have "so_skip_namespaces ?so = ro_skip_namespaces opts" by (simp add: scan_options_of_def NewIstioChangeReconciler_def)
  with assms(1) have none: "\<not> scan_finding k rt (CallWebhook k tr) cfg ?so ref" for cfg ref
    by (simp add: all_injected_no_finding)
  from assms(2) obtain refs cfg where "restart_run refs es" and "\<forall>ref \<in> set refs. scan_finding k rt (CallWebhook k tr) cfg ?so ref"
    by (auto simp: reconciled_def)
  with none have "restart_run [] es" by (cases refs) auto
  then show ?thesis by (simp add: restart_run_def)
qed


section \<open>No restart leads to another\<close>

text \<open>
  C15. Restarts come to an end. When every pod that a listing shows outside the skipped namespaces has
  the proxy image that the webhook answers for its workload's template, no run of the controller
  sends a patch, whatever the events and their number.
\<close>

theorem controller_settled:
  assumes "installation k rt log tr" and "all_injected k rt (CallWebhook k tr) (ro_skip_namespaces opts)"
    and "ctl_run Q rt (NewIstioChangeReconciler k rt tr opts) s0 acts s"
    and "\<forall>f. Others f \<in> set acts \<longrightarrow> (\<forall>w. log (f w) = log w)"
  shows "log (ct_world s) = log (ct_world s0)"
proof -
  obtain ess where "log (ct_world s) = log (ct_world s0) @ concat ess"
    and "\<forall>es \<in> set ess. \<exists>r ok. Finish r ok \<in> set acts \<and> reconciled k rt tr opts (request_limit r) es"
    using installation.run_patches [OF assms(1,3,4)] by blast
  moreover from this(2) all_injected_reconciled [OF assms(2)] have "\<forall>es \<in> set ess. es = []" by blast
  ultimately show ?thesis by simp
qed

text \<open>The example cluster, with a webhook that injects the image the pod has.\<close>

definition current :: cluster where
  "current = demo\<lparr>cl_proxy_image := ''istio/proxyv2:1.19''\<rparr>"

lemma current_webhook:
  assumes "returns (CallWebhook (frozen_kube current) (frozen_transport current) podp revision prefer) v (Inr mutated) v'"
  shows "mutated = proxy_pod ''istio/proxyv2:1.19''"
  using assms
  by (auto simp: CallWebhook_def send_review_def handle_response_def applyJSONPatch_def frozen_transport_def freeze_def
      mem_transport_def current_def elim!: returns_tryE split: sum.splits option.splits if_splits prod.splits)

lemma frozen_pods: "kListPods (frozen_kube c) nso v = (Inr (filter (\<lambda>p. in_namespace nso (p_meta p)) (cl_pods c)), v)"
  by (simp add: frozen_kube_def freeze_def mem_kube_def)

lemma frozen_namespaces:
  "returns (list_namespaces (frozen_kube c) nss items) v (Inr pods) v' \<Longrightarrow> set pods \<subseteq> set items \<union> set (cl_pods c)"
proof (induction nss arbitrary: items v)
  case (Cons ns nss)
  then show ?case by (fastforce simp: frozen_pods elim!: returns_tryE)
qed simp

lemma frozen_listed: "returns (listPods (frozen_kube c) rt so) v (Inr pods) v' \<Longrightarrow> set pods \<subseteq> set (cl_pods c)"
  by (cases "so_limit_to_namespaces so" rule: remdups_adj.cases)
    (auto simp: listPods_def frozen_pods elim!: returns_tryE returns_bindE dest: frozen_namespaces [THEN subsetD])

lemma current_injected: "all_injected (frozen_kube current) rt (CallWebhook (frozen_kube current) (frozen_transport current)) skip"
proof -
  have "getIstioProxyImage web_pod = getIstioProxyImage (proxy_pod ''istio/proxyv2:1.19'')"
    by (simp add: web_pod_def proxy_pod_def getIstioProxyImage_def istioProxyContainerName_def)
  moreover have "cl_pods current = [web_pod]" by (simp add: current_def demo_def demo_at_def)
  ultimately show ?thesis
    using frozen_listed [of current] current_webhook unfolding all_injected_def injected_def by fastforce
qed

lemma current_reconcile:
  "\<exists>c. returns (Reconcile mem_runtime (NewIstioChangeReconciler (frozen_kube current) mem_runtime (frozen_transport current)
     demo_options) shop_request) current (Inr ()) c"
proof -
  have "frozen_kube current = frozen_kube demo"
    by (simp add: frozen_kube_def freeze_def mem_kube_def current_def fun_eq_iff)
  with frozen_demo_wfp have wf: "wfp (\<lambda>nxt obj. next_object (frozen_kube current) obj nxt)" by simp
  obtain r c where run: "returns (Reconcile mem_runtime (NewIstioChangeReconciler (frozen_kube current) mem_runtime
      (frozen_transport current) demo_options) shop_request) current r c"
    using Reconcile_total [OF frozen_answers.answering_webhook_axioms wf] by (rule go_totalE)
  have fine: "\<not> failure_at (frozen_kube current) mem_runtime delay v e" if "\<not> cl_cancelled v" for delay v e
    using that by (intro no_failure_at) (simp_all add: frozen_kube_def freeze_def mem_kube_def mem_runtime_def)
  have "\<not> cl_cancelled current" by (simp add: current_def demo_def demo_at_def)
  then have "r = Inr ()"
    using frozen_running.Reconcile_fails_at [of current demo_options shop_request current _ c] run fine
    by (cases r) auto
  with run show ?thesis by blast
qed

theorem controller_settled_witness:
  "\<exists>c. ctl_run client_go mem_runtime (NewIstioChangeReconciler (frozen_kube current) mem_runtime (frozen_transport current)
       demo_options) (idle_at current) [Event shop_event, Take shop_request, Finish shop_request True] (idle_at c) \<and>
     cl_log c = []"
proof -
  let ?acts = "[Event shop_event, Take shop_request, Finish shop_request True :: cluster action]"
  obtain c where "returns (Reconcile mem_runtime (NewIstioChangeReconciler (frozen_kube current) mem_runtime
      (frozen_transport current) demo_options) shop_request) current (Inr ()) c"
    using current_reconcile by blast
  from shop_served [OF this] have run: "ctl_run client_go mem_runtime (NewIstioChangeReconciler (frozen_kube current)
      mem_runtime (frozen_transport current) demo_options) (idle_at current) ?acts (idle_at c)" .
  have "\<forall>f. Others f \<in> set ?acts \<longrightarrow> (\<forall>w. cl_log (f w) = cl_log w)" by simp
  from controller_settled [OF mem_frozen.installation_axioms current_injected run this]
  have "cl_log c = []" by (simp add: idle_at_def current_def demo_def demo_at_def)
  with run show ?thesis by blast
qed

end
