(* ===== verification/Obligations.thy ===== *)
theory Obligations
  imports Journal Blocking Settled
begin

text \<open>
  The specification of the controller as a small machine. Its state is what matters to a user: the
  requests that are owed, the one in service, and the restarts sent. The queue with its three
  sets, the waits, the builder with its sources and the rest of the world are not in it. Every run
  of the controller is a run of the machine.
\<close>

section \<open>The machine\<close>

text \<open>
  A request that is taken may stay owed: an earlier failure of it waits to be tried again.
\<close>

record obligations =
  ob_owed :: "request set"
  ob_service :: "request option"
  ob_sent :: "patch_entry list"

inductive obl_step ::
  "duration \<Rightarrow> (request \<Rightarrow> patch_entry list \<Rightarrow> bool) \<Rightarrow> obligations \<Rightarrow> 'w action \<Rightarrow> obligations \<Rightarrow> bool"
  for period may_send where
  ask: "obl_step period may_send b (Event e) (b\<lparr>ob_owed := ob_owed b \<union> set (requests_for period e)\<rparr>)"
| begin_with: "ob_service b = None \<Longrightarrow> r \<in> ob_owed b \<Longrightarrow> left = ob_owed b \<or> left = ob_owed b - {r} \<Longrightarrow>
    obl_step period may_send b (Take r) (b\<lparr>ob_owed := left, ob_service := Some r\<rparr>)"
| end_with: "ob_service b = Some r \<Longrightarrow> may_send r es \<Longrightarrow>
    obl_step period may_send b (Finish r ok)
      (b\<lparr>ob_owed := (if ok then ob_owed b else insert r (ob_owed b)), ob_service := None, ob_sent := ob_sent b @ es\<rparr>)"
| wait_over: "r \<in> ob_owed b \<Longrightarrow> obl_step period may_send b (Expire r) b"
| elsewhere: "obl_step period may_send b (Others f) b"

inductive obl_run ::
  "duration \<Rightarrow> (request \<Rightarrow> patch_entry list \<Rightarrow> bool) \<Rightarrow> obligations \<Rightarrow> 'w action list \<Rightarrow> obligations \<Rightarrow> bool"
  for period may_send b0 where
  obl_start: "obl_run period may_send b0 [] b0"
| obl_more: "obl_run period may_send b0 acts b \<Longrightarrow> obl_step period may_send b act b' \<Longrightarrow>
    obl_run period may_send b0 (acts @ [act]) b'"

inductive_cases obl_stepE:
  "obl_step period may_send b (Event e) b'"
  "obl_step period may_send b (Take r) b'"
  "obl_step period may_send b (Finish r ok) b'"
  "obl_step period may_send b (Expire r) b'"
  "obl_step period may_send b (Others f) b'"


section \<open>The simulation\<close>

definition obligations_of :: "('q \<Rightarrow> queue_view) \<Rightarrow> ('w \<Rightarrow> patch_entry list) \<Rightarrow> ('q, 'w) controller_state \<Rightarrow> obligations" where
  "obligations_of view log s = \<lparr>ob_owed = owed view s, ob_service = ct_worker s, ob_sent = log (ct_world s)\<rparr>"

text \<open>What a reconciliation of a request may send.\<close>

definition may_restart :: "'w kube \<Rightarrow> 'w runtime \<Rightarrow> 'w transport \<Rightarrow> reconciler_options \<Rightarrow> request \<Rightarrow> patch_entry list \<Rightarrow> bool" where
  "may_restart k rt tr opts r es \<longleftrightarrow> reconciled k rt tr opts (request_limit r) es"

lemma step_simulated:
  assumes "work_queue Q view invar" and "installation k rt log tr" and "rec = NewIstioChangeReconciler k rt tr opts"
    and "ctl_step Q rt rec s act s'" and "ctl_ok view invar s" and "\<forall>f. act = Others f \<longrightarrow> (\<forall>w. log (f w) = log w)"
  shows "obl_step (ro_reconcile_period opts) (may_restart k rt tr opts) (obligations_of view log s) act (obligations_of view log s')"
proof -
  have inv: "invar (ct_queue s)" and active: "qv_active (view (ct_queue s)) = set_option (ct_worker s)"
    using assms(5) by (simp_all add: ctl_ok_def)
  have period: "rc_reconcile_period rec = ro_reconcile_period opts" by (simp add: assms(3) NewIstioChangeReconciler_def)
  let ?b = "obligations_of view log s"
  from assms(4) show ?thesis
  proof cases
    case (event e q)
    with work_queue.add_all [OF assms(1) inv]
    have "obligations_of view log s' = ?b\<lparr>ob_owed := ob_owed ?b \<union> set (requests_for (ro_reconcile_period opts) e)\<rparr>"
      by (auto simp: obligations_of_def owed_def deliver_istio_change period)
    with event show ?thesis by (simp add: obl_step.ask)
  next
    case (take r q)
    with work_queue.get [OF assms(1) inv, of r q] active
    have b: "obligations_of view log s' = ?b\<lparr>ob_owed := owed view s', ob_service := Some r\<rparr>"
      and "owed view s' = owed view s \<or> owed view s' = owed view s - {r}" and "r \<in> owed view s"
      by (auto simp: obligations_of_def owed_def)
    with take have "obl_step (ro_reconcile_period opts) (may_restart k rt tr opts) ?b (Take r)
        (?b\<lparr>ob_owed := owed view s', ob_service := Some r\<rparr>)"
      by (intro obl_step.begin_with) (simp_all add: obligations_of_def)
    with take(1) b show ?thesis by simp
  next
    case (finish r out w ok)
    obtain es where es: "log w = log (ct_world s) @ es" "reconciled k rt tr opts (request_limit r) es"
      using emitsE [OF installation.Reconcile_reconciled [OF assms(2)] finish(4) [unfolded assms(3)]] by blast
    from finish work_queue.settle_ok(2) [OF assms(1) inv, of r ok] es(1)
    have "obligations_of view log s' =
        ?b\<lparr>ob_owed := (if ok then ob_owed ?b else insert r (ob_owed ?b)), ob_service := None, ob_sent := ob_sent ?b @ es\<rparr>"
      by (simp add: obligations_of_def owed_def)
    moreover have "ob_service ?b = Some r" "may_restart k rt tr opts r es"
      using finish es(2) by (simp_all add: obligations_of_def may_restart_def)
    ultimately show ?thesis using finish(1) by (simp only: obl_step.end_with)
  next
    case (expire r q)
    with work_queue.expire [OF assms(1) inv, of r q]
    have "obligations_of view log s' = ?b" "r \<in> ob_owed ?b" by (auto simp: obligations_of_def owed_def)
    with expire(1) show ?thesis by (simp add: obl_step.wait_over)
  next
    case (others f)
    with assms(6) have "obligations_of view log s' = ?b" by (simp add: obligations_of_def owed_def)
    with others show ?thesis by (simp add: obl_step.elsewhere)
  qed
qed


text \<open>
  C7. The controller refines its specification: every run of the controller, from any state in which
  the queue knows what the worker holds, is a run of the machine with the same actions. So the
  machine may be used in its place: what is asked for is owed, one request is in service at a time,
  a failure is owed again, and restarts are sent only when a request ends, those that a
  reconciliation of this request may send. The hypotheses are the laws of the queue and that reads
  and others send no patches.
\<close>

theorem controller_refines:
  assumes "work_queue Q view invar" and "installation k rt log tr"
    and "ctl_run Q rt (NewIstioChangeReconciler k rt tr opts) s0 acts s" and "ctl_ok view invar s0"
    and "\<forall>f. Others f \<in> set acts \<longrightarrow> (\<forall>w. log (f w) = log w)"
  shows "obl_run (ro_reconcile_period opts) (may_restart k rt tr opts) (obligations_of view log s0) acts
    (obligations_of view log s)"
  using assms(3-5)
proof (induction rule: ctl_run.induct)
  case start
  show ?case by (rule obl_run.obl_start)
next
  case (more acts s act s')
  from work_queue.run_ok [OF assms(1) more(1,4)] more(5)
  have "obl_step (ro_reconcile_period opts) (may_restart k rt tr opts) (obligations_of view log s) act (obligations_of view log s')"
    by (intro step_simulated [OF assms(1,2) refl more(2)]) simp_all
  with more(3) [OF more(4)] more(5) show ?case by (simp add: obl_run.obl_more)
qed

theorem controller_refines_witness:
  "obl_run 0 (may_restart mem_kube mem_runtime mem_transport demo_options)
     \<lparr>ob_owed = {}, ob_service = None, ob_sent = []\<rparr>
     [Event shop_event, Take shop_request, Finish shop_request True :: cluster action]
     \<lparr>ob_owed = {}, ob_service = None,
      ob_sent = [web_patch (63835596810 * second), web_patch (63835596810 * second)]\<rparr>"
proof -
  have "\<forall>f. Others f \<in> set [Event shop_event, Take shop_request, Finish shop_request True :: cluster action] \<longrightarrow>
      (\<forall>w. cl_log (f w) = cl_log w)" by simp
  from controller_refines [OF cq.work_queue_axioms demo_installation demo_controller_run [unfolded demo_reconciler_def]
      demo_start_ok(1) this]
  show ?thesis
    by (simp add: obligations_of_def demo_start_def demo_end_def demo_log demo_options_def owed_def demo_def demo_at_def)
qed

end
