(* ===== verification/CommandLineSpec.thy ===== *)
theory CommandLineSpec
  imports CommandLine Obligations
begin

text \<open>
  The properties of the process: that it reads the flags it declares, how it starts and exits, how
  its servers are secured, that the flags reach what the controller does, and that an environment
  variable sets one flag. The witnesses run
  it on a manager that accepts everything and whose \<open>Start\<close> comes back when the context is
  cancelled.
\<close>

definition demo_lib :: "(cluster, unit, string \<times> string, client_go_queue) manager_lib" where
  "demo_lib =
     \<lparr>ml_AddClientGoScheme = (\<lambda>c. (None, c)), ml_AddCoreScheme = (\<lambda>c. (None, c)),
      ml_BindPFlags = (\<lambda>fs c. (None, c)), ml_Parse = (\<lambda>fs c. (None, c)),
      ml_Print = (\<lambda>s c. ((), c)), ml_NewCertWatcher = (\<lambda>cert key c. (Inr (cert, key), c)),
      ml_GetConfigOrDie = (\<lambda>c. (None, c)), ml_NewManager = (\<lambda>opts c. (Inr (), c)),
      ml_GetClient = (\<lambda>_. mem_kube), ml_Complete = (\<lambda>mgr b r c. (None, c)),
      ml_Add = (\<lambda>mgr cw c. (None, c)), ml_AddHealthzCheck = (\<lambda>mgr name c. (None, c)),
      ml_AddReadyzCheck = (\<lambda>mgr name c. (None, c)), ml_Start = (\<lambda>mgr c. (None, c\<lparr>cl_cancelled := True\<rparr>))\<rparr>"

interpretation demo_start_up: startup demo_lib "\<lambda>c. \<not> cl_cancelled c"
  by unfold_locales (auto simp: demo_lib_def intro!: preserves_call)

definition no_build_info :: build_info where
  "no_build_info = \<lparr>bi_Version = [], bi_Commit = [], bi_BuildTime = []\<rparr>"

text \<open>Without flags and environment the process starts the manager and returns when it does.\<close>

lemma demo_main:
  "returns (main_program demo_lib mem_runtime mem_transport no_build_info (viper_of Map.empty)) demo
     MainReturns (demo\<lparr>cl_cancelled := True\<rparr>)"
  by (simp add: main_program_def run_manager_def webhook_cert_watcher_def metrics_cert_watcher_def
      new_cert_watcher_def add_watcher_def exit_on_error_def exit_or_def or_dies_def returns_def
      go_bind_def go_call_def go_ret_def demo_lib_def viper_of_def given_or_default_def flags_def
      SetupIstioChangeController_def Let_def)


section \<open>Flags\<close>

text \<open>A key that no flag declares is read by none of the getters of the flags.\<close>

lemma same_flags_undeclared:
  assumes "list_all (\<lambda>(name, _). name \<noteq> key) flags"
  shows "same_flags (viper_of [key \<mapsto> x]) (viper_of Map.empty)"
proof -
  have "getter_agrees (viper_of [key \<mapsto> x]) (viper_of Map.empty) (name, d)" if "name \<noteq> key" for name d
    using that by (cases d) (simp_all add: viper_of_def given_or_default_def)
  with assms show ?thesis by (auto simp: same_flags_def list_all_iff)
qed

text \<open>
  C23. The process is well typed in its flags: no flag is declared twice, and \<open>main\<close> reads only flags
  that are declared, each with the getter of its declared type. Two settings that agree on those
  make it behave alike, whatever else they answer: no key is misspelt, none is read as another type.
\<close>

theorem main_reads_declared:
  "distinct (map fst flags) \<and>
   (same_flags v v' \<longrightarrow> main_program lib rt tr info v = main_program lib rt tr info v')"
proof (intro conjI impI)
  show "distinct (map fst flags)" by (simp add: flags_def)
  assume same: "same_flags v v'"
  show "main_program lib rt tr info v = main_program lib rt tr info v'"
    unfolding main_program_def
    by (simp add: cert_watchers_same [OF same] manager_options_same [OF same] run_manager_same [OF same]
        same_flags_simps(1) [OF same])
qed

theorem main_reads_declared_witness:
  "main_program demo_lib mem_runtime mem_transport no_build_info (viper_of [''dryrun'' \<mapsto> BoolFlag True]) =
   main_program demo_lib mem_runtime mem_transport no_build_info (viper_of Map.empty)"
proof -
  have "same_flags (viper_of [''dryrun'' \<mapsto> BoolFlag True]) (viper_of Map.empty)"
    by (rule same_flags_undeclared) (simp add: flags_def)
  with main_reads_declared show ?thesis by blast
qed

text \<open>
  C25. The servers: unless HTTP/2 is enabled, the webhook and the metrics server offer HTTP/1.1
  alone, and otherwise what they were configured with; each serves the certificate of its own
  watcher, where it has one; the metrics are served over TLS exactly when they are filtered by
  authentication.
\<close>

theorem servers_tls:
  "apply_tls_opts (mo_WebhookTLSOpts (manager_options_of v wcw mcw)) c =
     c\<lparr>tc_NextProtos := (if vp_GetBool v ''enable-http2'' then tc_NextProtos c else [''http/1.1'']),
       tc_GetCertificate := (case wcw of Some cw \<Rightarrow> Some cw | None \<Rightarrow> tc_GetCertificate c)\<rparr> \<and>
   apply_tls_opts (mt_TLSOpts (mo_Metrics (manager_options_of v wcw mcw))) c =
     c\<lparr>tc_NextProtos := (if vp_GetBool v ''enable-http2'' then tc_NextProtos c else [''http/1.1'']),
       tc_GetCertificate := (case mcw of Some cw \<Rightarrow> Some cw | None \<Rightarrow> tc_GetCertificate c)\<rparr> \<and>
   mt_FilterProvider (mo_Metrics (manager_options_of v wcw mcw)) = mt_SecureServing (mo_Metrics (manager_options_of v wcw mcw))"
  by (simp add: manager_options_of_def metricsServerOptions_def apply_tls_opts_def with_certificate_def
      tlsOpts_def disableHTTP2_def split: option.split)

text \<open>
  A certificate watcher is made exactly when its directory is set, and watches the two named
  files in that directory: for a clean absolute directory and plain names the paths are the
  directory, a slash and the name. A watcher that cannot be made is an error.
\<close>

theorem certificate_files:
  assumes "els \<noteq> []" and "list_all plain_element els" and "plain_element cert" and "plain_element key"
    and "dir = ''/'' @ join_path els"
  shows "new_cert_watcher lib dir cert key =
      go_try (\<lambda>err. err) (go_call (ml_NewCertWatcher lib (dir @ ''/'' @ cert) (dir @ ''/'' @ key)))
        (\<lambda>watcher. go_ret (Inr (Some watcher))) \<and>
    new_cert_watcher lib [] cert key = go_ret (Inr None)"
  using assms filepath_Join_plain [of els cert] filepath_Join_plain [of els key]
  by (simp add: new_cert_watcher_def)

theorem certificate_files_witness:
  "new_cert_watcher demo_lib ''/etc/certs'' ''tls.crt'' ''tls.key'' demo =
     Some (Return (Inr (Some (''/etc/certs/tls.crt'', ''/etc/certs/tls.key''))), demo)"
  using certificate_files [of "[''etc'', ''certs'']" "''tls.crt''" "''tls.key''" "''/etc/certs''" demo_lib]
  by (simp add: plain_element_def demo_lib_def go_try_def go_bind_def go_call_def go_ret_def)


section \<open>Start and exit\<close>

text \<open>
  C24. The start-up fails closed: whatever property everything before \<open>Start\<close> keeps, the process
  either ends with that property kept, by an exit and never by returning, or it has started the
  manager last of all, from a state with the property, and then returns exactly when \<open>Start\<close>
  reports no error, and exits with code 1 otherwise.
\<close>

theorem main_starts_last:
  assumes "startup lib P" and "P w" and "returns (main_program lib rt tr info v) w x w'"
  shows "(P w' \<and> x \<noteq> MainReturns) \<or>
    (\<exists>mgr w1 e. P w1 \<and> ml_Start lib mgr w1 = (e, w') \<and> x = (if e = None then MainReturns else Exits 1))"
  using startup.main_ends [OF assms(1,3,2)] startup.ends_def [OF assms(1)] by blast

theorem main_starts_last_witness:
  "\<exists>mgr w1. \<not> cl_cancelled w1 \<and> ml_Start demo_lib mgr w1 = (None, demo\<lparr>cl_cancelled := True\<rparr>)"
proof -
  have "\<not> cl_cancelled demo" by (simp add: demo_def demo_at_def)
  from main_starts_last [OF demo_start_up.startup_axioms this demo_main] show ?thesis
    by (auto split: if_splits)
qed

text \<open>
  C16. The flags reach the patches: over any run of the controller made from the command line, a dry
  run sends no patch; none is sent in a namespace that the flag \<open>skip-namespaces\<close> names, for any
  list of clean names joined with commas; and without that flag none is sent in \<open>kube-system\<close> or
  \<open>istio-system\<close>.
\<close>

theorem flags_respected:
  assumes "installation k rt log tr" and "namespaced_api k rt"
    and run: "ctl_run Q rt (NewIstioChangeReconciler k rt tr (reconciler_options_of (viper_of given))) s0 acts s"
    and "\<forall>f. Others f \<in> set acts \<longrightarrow> (\<forall>w. log (f w) = log w)"
  shows "\<exists>es. log (ct_world s) = log (ct_world s0) @ es \<and>
    (given ''dry-run'' = Some (BoolFlag True) \<longrightarrow> es = []) \<and>
    (\<forall>(ty, nn, doc) \<in> set es.
       (\<forall>names. given ''skip-namespaces'' = Some (StringFlag (join_comma names)) \<longrightarrow>
          (\<forall>ns \<in> set names. ns \<noteq> [] \<and> CHR '','' \<notin> set ns \<and> \<not> starts_with_space ns \<and> \<not> ends_with_space ns) \<longrightarrow>
          nn_namespace nn \<notin> set names) \<and>
       (given ''skip-namespaces'' = None \<longrightarrow> nn_namespace nn \<notin> {''kube-system'', ''istio-system''}))"
proof -
  let ?opts = "reconciler_options_of (viper_of given)"
  obtain ess where log: "log (ct_world s) = log (ct_world s0) @ concat ess"
    and ess: "\<And>es. es \<in> set ess \<Longrightarrow> \<exists>r. reconciled k rt tr ?opts (request_limit r) es"
    using installation.run_patches [OF assms(1) run assms(4)] by blast
  have dry: "ro_dry_run ?opts" if "given ''dry-run'' = Some (BoolFlag True)"
    using that by (simp add: reconciler_options_of_def viper_of_def given_or_default_def)
  have named: "ro_skip_namespaces ?opts = names"
    if "given ''skip-namespaces'' = Some (StringFlag (join_comma names))"
      "\<forall>ns \<in> set names. ns \<noteq> [] \<and> CHR '','' \<notin> set ns \<and> \<not> starts_with_space ns \<and> \<not> ends_with_space ns" for names
    using that parseSkipNamespaces_join [of names]
    by (simp add: reconciler_options_of_def viper_of_def given_or_default_def)
  have default: "ro_skip_namespaces ?opts = [''kube-system'', ''istio-system'']" if "given ''skip-namespaces'' = None"
    using that parseSkipNamespaces_join_witness
    by (simp add: reconciler_options_of_def viper_of_def given_or_default_def flags_def)
  have skip: "nn_namespace nn = [] \<or> nn_namespace nn \<notin> set (ro_skip_namespaces ?opts)"
    if "(ty, nn, doc) \<in> set (concat ess)" for ty nn doc
  proof -
    from that obtain es where "es \<in> set ess" and patch: "(ty, nn, doc) \<in> set es" by auto
    with ess obtain r where "reconciled k rt tr ?opts (request_limit r) es" by blast
    from reconciled_namespaces(1) [OF assms(2) this patch] show ?thesis .
  qed
  have "concat ess = []" if "ro_dry_run ?opts" using ess that by (fastforce simp: reconciled_def)
  then have "given ''dry-run'' = Some (BoolFlag True) \<longrightarrow> concat ess = []" using dry by blast
  moreover have "nn_namespace nn \<notin> set names"
    if "(ty, nn, doc) \<in> set (concat ess)" "given ''skip-namespaces'' = Some (StringFlag (join_comma names))"
      "\<forall>ns \<in> set names. ns \<noteq> [] \<and> CHR '','' \<notin> set ns \<and> \<not> starts_with_space ns \<and> \<not> ends_with_space ns"
    for ty nn doc names
    using skip [OF that(1)] named [OF that(2,3)] that(3) by auto
  moreover have "nn_namespace nn \<notin> {''kube-system'', ''istio-system''}"
    if "(ty, nn, doc) \<in> set (concat ess)" "given ''skip-namespaces'' = None" for ty nn doc
    using skip [OF that(1)] default [OF that(2)] by auto
  ultimately show ?thesis using log by (intro exI [of _ "concat ess"]) blast
qed

lemma demo_command_line:
  "NewIstioChangeReconciler mem_kube mem_runtime mem_transport
     (reconciler_options_of (viper_of [''skip-namespaces'' \<mapsto> StringFlag (join_comma [''kube-system''])])) = demo_reconciler"
proof -
  have "parseSkipNamespaces ''kube-system'' = [''kube-system'']"
    using parseSkipNamespaces_join [of "[''kube-system'']"] by (simp add: visible_ends visible_def)
  then have "reconciler_options_of (viper_of [''skip-namespaces'' \<mapsto> StringFlag (join_comma [''kube-system''])]) = demo_options"
    by (simp add: reconciler_options_of_def viper_of_def given_or_default_def flags_def demo_options_def)
  then show ?thesis by (simp add: demo_reconciler_def)
qed

theorem flags_respected_witness:
  "\<exists>es. cl_log (ct_world demo_end) = cl_log (ct_world demo_start) @ es \<and>
     (\<forall>(ty, nn, doc) \<in> set es. nn_namespace nn \<noteq> ''kube-system'')"
proof -
  let ?given = "[''skip-namespaces'' \<mapsto> StringFlag (join_comma [''kube-system''])]"
  let ?acts = "[Event shop_event, Take shop_request, Finish shop_request True]"
  have "\<forall>f. Others f \<in> set ?acts \<longrightarrow> (\<forall>w. cl_log (f w) = cl_log w)" by simp
  from flags_respected [OF demo_installation mem_ns.namespaced_api_axioms
      demo_controller_run [folded demo_command_line] this]
  obtain es where es: "cl_log (ct_world demo_end) = cl_log (ct_world demo_start) @ es"
    and skip: "\<forall>(ty, nn, doc) \<in> set es. \<forall>names. ?given ''skip-namespaces'' = Some (StringFlag (join_comma names)) \<longrightarrow>
          (\<forall>ns \<in> set names. ns \<noteq> [] \<and> CHR '','' \<notin> set ns \<and> \<not> starts_with_space ns \<and> \<not> ends_with_space ns) \<longrightarrow>
          nn_namespace nn \<notin> set names" by fast
  have "nn_namespace nn \<noteq> ''kube-system''" if "(ty, nn, doc) \<in> set es" for ty nn doc
    using bspec [OF skip that, unfolded prod.case, THEN spec, of "[''kube-system'']"]
    by (simp add: visible_ends visible_def)
  with es show ?thesis by blast
qed


section \<open>The environment\<close>

text \<open>No two flags share a variable, so a variable sets one flag, and none that the command line gives.\<close>

definition key_chars :: string where
  "key_chars = ''abcdefghijklmnopqrstuvwxyz0123456789-''"

lemma env_char_inj: "inj_on env_char (set key_chars)"
proof -
  have "distinct (map env_char key_chars)" by code_simp
  then show ?thesis by (simp add: distinct_map)
qed

lemma flags_key_chars: "list_all (\<lambda>(name, _). list_all (\<lambda>c. c \<in> set key_chars) name) flags"
  by (simp add: flags_def key_chars_def)

lemma env_key_inj:
  assumes "name \<in> fst ` set flags" and "other \<in> fst ` set flags" and "env_key name = env_key other"
  shows "name = other"
proof -
  have chars: "set n \<subseteq> set key_chars" if "n \<in> fst ` set flags" for n
    using that flags_key_chars by (fastforce simp: list_all_iff)
  from chars [OF assms(1)] chars [OF assms(2)] have "inj_on env_char (set name \<union> set other)"
    by (intro inj_on_subset [OF env_char_inj]) blast
  with assms(3) show ?thesis by (simp add: env_key_def inj_on_map_eq_map)
qed

lemma environment_sets_one_flag:
  assumes "name \<in> fst ` set flags" and "other \<in> fst ` set flags" and "other \<noteq> name \<or> cmdline other \<noteq> None"
  shows "given_by cast cmdline (env(env_key name := v)) other = given_by cast cmdline env other"
proof (cases "cmdline other")
  case None
  with assms(3) have "env_key other \<noteq> env_key name" using env_key_inj [OF assms(2,1)] by blast
  with None show ?thesis by (simp add: given_by_def)
qed (simp add: given_by_def)

end
