(* ===== verification/TestUtils.thy ===== *)
theory TestUtils
  imports CommandLine
begin

text \<open>
  The helpers of the end-to-end tests (package \<open>utils\<close> under \<open>test/utils\<close>): \<open>utils.go\<close> runs kubectl and kind,
  reads their output and edits files; \<open>istio.go\<close> downloads and unpacks a release of Istio and runs
  istioctl. The operating system, the network and the archive readers are records of operations
  of the world; \<open>fmt_q\<close> is the verb \<open>%q\<close>. Writing to the log of the tests is left out.
\<close>

section \<open>Running commands\<close>

record command =
  cmd_Args :: "string list"
  cmd_Dir :: string
  cmd_Env :: "string list"

text \<open>\<open>cmd_Env\<close> holds what is added to the environment of the process.\<close>

record 'w test_os =
  os_Getwd :: "'w \<Rightarrow> (string \<times> goerror option) \<times> 'w"
  os_Chdir :: "string \<Rightarrow> 'w \<Rightarrow> goerror option \<times> 'w"
  os_LookupEnv :: "string \<Rightarrow> 'w \<Rightarrow> string option \<times> 'w"
  os_CombinedOutput :: "command \<Rightarrow> 'w \<Rightarrow> (string \<times> goerror option) \<times> 'w"
  os_ReadFile :: "string \<Rightarrow> 'w \<Rightarrow> (goerror + string) \<times> 'w"
  os_WriteFile :: "string \<Rightarrow> string \<Rightarrow> int \<Rightarrow> 'w \<Rightarrow> goerror option \<times> 'w"
  fmt_q :: "string \<Rightarrow> string"

fun join_with :: "string \<Rightarrow> string list \<Rightarrow> string" where
  "join_with sep [] = []"
| "join_with sep [s] = s"
| "join_with sep (s # t # ss) = s @ sep @ join_with sep (t # ss)"

definition exec_Command :: "string \<Rightarrow> string list \<Rightarrow> command" where
  "exec_Command name args = \<lparr>cmd_Args = name # args, cmd_Dir = [], cmd_Env = []\<rparr>"

definition GetProjectDir :: "'w test_os \<Rightarrow> ('w, string \<times> goerror option) go" where
  "GetProjectDir os =
     go_bind (go_call (os_Getwd os))
       (\<lambda>(wd, err). case err of
          Some e \<Rightarrow> go_ret (wd, Some (Wrap ''failed to get current working directory: '' e))
        | None \<Rightarrow> go_ret (replace_all wd ''/test/e2e'' [], None))"

definition Run :: "'w test_os \<Rightarrow> command \<Rightarrow> ('w, string \<times> goerror option) go" where
  "Run os cmd =
     go_bind (GetProjectDir os)
       (\<lambda>(dir, _).
          go_bind (go_call (os_Chdir os dir))
            (\<lambda>_. let cmd' = cmd\<lparr>cmd_Dir := dir, cmd_Env := [''GO111MODULE=on'']\<rparr>;
                     line = join_with '' '' (cmd_Args cmd')
                 in go_bind (go_call (os_CombinedOutput os cmd'))
                      (\<lambda>(output, err). go_ret
                         (output,
                          case err of
                            None \<Rightarrow> None
                          | Some e \<Rightarrow> Some (Wrap (fmt_q os line @ '' failed with error '' @ fmt_q os output @ '': '') e)))))"

text \<open>\<open>_, err := Run(cmd); return err\<close>.\<close>

definition run_only :: "'w test_os \<Rightarrow> command \<Rightarrow> ('w, goerror option) go" where
  "run_only os cmd = go_bind (Run os cmd) (\<lambda>(_, err). go_ret err)"

definition GetNonEmptyLines :: "string \<Rightarrow> string list" where
  "GetNonEmptyLines output = filter (\<lambda>element. element \<noteq> []) (split_on (CHR 0x0A) output)"

text \<open>The two nested loops over the names of CRDs and the lines of the output.\<close>

definition any_crd :: "string list \<Rightarrow> string list \<Rightarrow> bool" where
  "any_crd crds crdList = list_ex (\<lambda>crd. list_ex (\<lambda>line. contains line crd) crdList) crds"

definition crds_installed :: "'w test_os \<Rightarrow> string list \<Rightarrow> command \<Rightarrow> ('w, bool) go" where
  "crds_installed os crds cmd =
     go_bind (Run os cmd)
       (\<lambda>(output, err). case err of
          Some _ \<Rightarrow> go_ret False
        | None \<Rightarrow> go_ret (any_crd crds (GetNonEmptyLines output)))"


section \<open>Prometheus, cert-manager and kind\<close>

definition prometheusOperatorVersion :: string where
  "prometheusOperatorVersion = ''v0.77.1''"

definition prometheus_url :: string where
  "prometheus_url =
     ''https://github.com/prometheus-operator/prometheus-operator/'' @ ''releases/download/''
       @ prometheusOperatorVersion @ ''/bundle.yaml''"

definition certmanagerVersion :: string where
  "certmanagerVersion = ''v1.16.3''"

definition certmanager_url :: string where
  "certmanager_url =
     ''https://github.com/cert-manager/cert-manager/releases/download/'' @ certmanagerVersion @ ''/cert-manager.yaml''"

definition InstallPrometheusOperator :: "'w test_os \<Rightarrow> ('w, goerror option) go" where
  "InstallPrometheusOperator os = run_only os (exec_Command ''kubectl'' [''create'', ''-f'', prometheus_url])"

definition UninstallPrometheusOperator :: "'w test_os \<Rightarrow> ('w, unit) go" where
  "UninstallPrometheusOperator os =
     go_bind (Run os (exec_Command ''kubectl'' [''delete'', ''-f'', prometheus_url])) (\<lambda>_. go_ret ())"

definition IsPrometheusCRDsInstalled :: "'w test_os \<Rightarrow> ('w, bool) go" where
  "IsPrometheusCRDsInstalled os =
     crds_installed os
       [''prometheuses.monitoring.coreos.com'', ''prometheusrules.monitoring.coreos.com'',
        ''prometheusagents.monitoring.coreos.com'']
       (exec_Command ''kubectl'' [''get'', ''crds'', ''-o'', ''custom-columns=NAME:.metadata.name''])"

definition UninstallCertManager :: "'w test_os \<Rightarrow> ('w, unit) go" where
  "UninstallCertManager os =
     go_bind (Run os (exec_Command ''kubectl'' [''delete'', ''-f'', certmanager_url])) (\<lambda>_. go_ret ())"

definition InstallCertManager :: "'w test_os \<Rightarrow> ('w, goerror option) go" where
  "InstallCertManager os =
     go_bind (Run os (exec_Command ''kubectl'' [''apply'', ''-f'', certmanager_url]))
       (\<lambda>(_, err). case err of
          Some e \<Rightarrow> go_ret (Some e)
        | None \<Rightarrow>
            run_only os (exec_Command ''kubectl''
              [''wait'', ''deployment.apps/cert-manager-webhook'', ''--for'', ''condition=Available'',
               ''--namespace'', ''cert-manager'', ''--timeout'', ''5m'']))"

definition IsCertManagerCRDsInstalled :: "'w test_os \<Rightarrow> ('w, bool) go" where
  "IsCertManagerCRDsInstalled os =
     crds_installed os
       [''certificates.cert-manager.io'', ''issuers.cert-manager.io'', ''clusterissuers.cert-manager.io'',
        ''certificaterequests.cert-manager.io'', ''orders.acme.cert-manager.io'', ''challenges.acme.cert-manager.io'']
       (exec_Command ''kubectl'' [''get'', ''crds''])"

definition LoadImageToKindCluster :: "'w test_os \<Rightarrow> string \<Rightarrow> string \<Rightarrow> ('w, goerror option) go" where
  "LoadImageToKindCluster os img clusterName =
     run_only os (exec_Command ''kind'' [''load'', ''docker-image'', img, ''--name'', clusterName])"

definition LoadImageToKindClusterWithName :: "'w test_os \<Rightarrow> string \<Rightarrow> ('w, goerror option) go" where
  "LoadImageToKindClusterWithName os name =
     go_bind (go_call (os_LookupEnv os ''KIND_CLUSTER''))
       (\<lambda>v. LoadImageToKindCluster os name (case v of Some v \<Rightarrow> v | None \<Rightarrow> ''kind''))"

definition KindDeleteCluster :: "'w test_os \<Rightarrow> string \<Rightarrow> ('w, goerror option) go" where
  "KindDeleteCluster os name = run_only os (exec_Command ''kind'' [''delete'', ''cluster'', ''--name'', name])"

text \<open>
  \<open>Duration.String\<close>: the largest unit below a second that leaves an integer part, or hours,
  minutes and seconds; the fraction without its trailing zeros.
\<close>

definition frac_digits :: "nat \<Rightarrow> nat \<Rightarrow> string" where
  "frac_digits prec v =
     (let digits = map (\<lambda>i. digit_char (v div 10 ^ (prec - 1 - i) mod 10)) [0..<prec];
          kept = rev (dropWhile (\<lambda>c. c = CHR ''0'') (rev digits))
      in if kept = [] then [] else ''.'' @ kept)"

definition in_unit :: "nat \<Rightarrow> nat \<Rightarrow> string" where
  "in_unit prec u = nat_dec (u div 10 ^ prec) @ frac_digits prec u"

definition duration_string :: "duration \<Rightarrow> string" where
  "duration_string d =
     (let u = nat \<bar>d\<bar>;
          s = u div 10 ^ 9
      in if u = 0 then ''0s''
         else (if d < 0 then ''-'' else [])
           @ (if u < 10 ^ 3 then nat_dec u @ ''ns''
              else if u < 10 ^ 6 then in_unit 3 u @ [CHR 0xC2, CHR 0xB5] @ ''s''
              else if u < 10 ^ 9 then in_unit 6 u @ ''ms''
              else (if s div 60 div 60 = 0 then [] else nat_dec (s div 60 div 60) @ ''h'')
                @ (if s div 60 = 0 then [] else nat_dec (s div 60 mod 60) @ ''m'')
                @ nat_dec (s mod 60) @ frac_digits 9 u @ ''s''))"

definition KindCreateCluster :: "'w test_os \<Rightarrow> string \<Rightarrow> duration \<Rightarrow> ('w, goerror option) go" where
  "KindCreateCluster os name wait =
     run_only os (exec_Command ''kind'' [''create'', ''cluster'', ''--name'', name, ''--wait'', duration_string wait])"


section \<open>Uncommenting code\<close>

text \<open>The permissions \<open>0644\<close> and \<open>0755\<close>, which are octal.\<close>

definition mode_0644 :: int where "mode_0644 = 6 * 8 ^ 2 + 4 * 8 + 4"
definition mode_0755 :: int where "mode_0755 = 7 * 8 ^ 2 + 5 * 8 + 5"

text \<open>
  \<open>bufio.Scanner\<close> on lines: a line ends before a newline or at the end of the text, loses one
  carriage return at its end, and stops the scan when it does not fit the buffer of 64 kB.
\<close>

definition drop_cr :: "string \<Rightarrow> string" where
  "drop_cr line = (if line \<noteq> [] \<and> last line = CHR 0x0D then butlast line else line)"

function scan_lines :: "string \<Rightarrow> string list" where
  "scan_lines s =
     (if s = [] then []
      else let line = takeWhile (\<lambda>c. c \<noteq> CHR 0x0A) s
           in if 65536 \<le> length line then []
              else drop_cr line # scan_lines (drop (Suc (length line)) s))"
  by pat_completeness auto
termination
  by (relation "measure length") auto

declare scan_lines.simps [simp del]

text \<open>A \<open>bytes.Buffer\<close> takes every write, so the code's tests of its errors are left out.\<close>

definition UncommentCode :: "'w test_os \<Rightarrow> string \<Rightarrow> string \<Rightarrow> string \<Rightarrow> ('w, goerror option) go" where
  "UncommentCode os filename target pre =
     go_bind (go_call (os_ReadFile os filename))
       (\<lambda>r. case r of
          Inl e \<Rightarrow> go_ret (Some (Wrap (''failed to read file '' @ fmt_q os filename @ '': '') e))
        | Inr content \<Rightarrow>
            (case str_index content target of
               None \<Rightarrow> go_ret (Some (Errorf (''unable to find the code '' @ fmt_q os target @ '' to be uncomment'')))
             | Some idx \<Rightarrow>
                 (let toks = scan_lines target
                  in if toks = [] then go_ret None
                     else let out = take idx content
                                @ join_with newline (map (\<lambda>line. trim_prefix line pre) toks)
                                @ drop (idx + length target) content
                          in go_bind (go_call (os_WriteFile os filename out mode_0644))
                               (\<lambda>err. go_ret
                                  (case err of
                                     None \<Rightarrow> None
                                   | Some e \<Rightarrow> Some (Wrap (''failed to write file '' @ fmt_q os filename @ '': '') e))))))"


section \<open>Releases of Istio\<close>

text \<open>\<open>runtime.GOOS\<close> and \<open>runtime.GOARCH\<close> are arguments.\<close>

definition DetectOSArch :: "string \<Rightarrow> string \<Rightarrow> string \<times> string" where
  "DetectOSArch goos goarch =
     (if goos = ''darwin'' then ''osx'' else ''linux'',
      if goarch \<in> {''arm64'', ''aarch64''} then ''arm64'' else ''amd64'')"

definition VersionToRevision :: "string \<Rightarrow> string" where
  "VersionToRevision version = replace_all version ''.'' ''-''"

definition safeTarEntryRelPath :: "(string \<Rightarrow> string) \<Rightarrow> string \<Rightarrow> goerror + string" where
  "safeTarEntryRelPath q entryName =
     (if entryName = [] \<or> entryName = ''.'' then Inr []
      else if contains entryName ''..'' then Inl (Errorf (''path traversal in tar entry: '' @ q entryName))
      else if is_abs entryName then Inl (Errorf (''absolute path in tar entry: '' @ q entryName))
      else if \<not> is_local entryName then Inl (Errorf (''non-local path in tar entry: '' @ q entryName))
      else let clean = clean_path entryName
           in if clean = [] \<or> clean = ''.'' then Inr []
              else if clean = ''..'' \<or> has_prefix clean ''../''
              then Inl (Errorf (''path traversal in tar entry: '' @ q entryName))
              else Inr clean)"

record tar_header =
  th_Name :: string
  th_Typeflag :: char
  th_Mode :: int

datatype tar_next = TarEOF | TarError goerror | TarEntry tar_header

text \<open>
  What the download calls: files, an \<open>os.Root\<close>, the response of HTTP, gzip and tar, by their
  handles \<open>'h\<close>.
\<close>

record ('h, 'w) release_lib =
  rl_Abs :: "string \<Rightarrow> 'w \<Rightarrow> (goerror + string) \<times> 'w"
  rl_OpenRoot :: "string \<Rightarrow> 'w \<Rightarrow> (goerror + 'h) \<times> 'w"
  rl_Get :: "string \<Rightarrow> 'w \<Rightarrow> (goerror + int \<times> 'h) \<times> 'w"
  rl_gzip :: "'h \<Rightarrow> 'w \<Rightarrow> (goerror + 'h) \<times> 'w"
  rl_tar :: "'h \<Rightarrow> 'h"
  rl_Next :: "'h \<Rightarrow> 'w \<Rightarrow> tar_next \<times> 'w"
  rl_MkdirAll :: "'h \<Rightarrow> string \<Rightarrow> int \<Rightarrow> 'w \<Rightarrow> goerror option \<times> 'w"
  rl_OpenFile :: "'h \<Rightarrow> string \<Rightarrow> int \<Rightarrow> 'w \<Rightarrow> (goerror + 'h) \<times> 'w"
  rl_Copy :: "'h \<Rightarrow> 'h \<Rightarrow> 'w \<Rightarrow> goerror option \<times> 'w"
  rl_Close :: "'h \<Rightarrow> 'w \<Rightarrow> unit \<times> 'w"
  rl_Stat :: "string \<Rightarrow> 'w \<Rightarrow> goerror option \<times> 'w"
  rl_IsNotExist :: "goerror \<Rightarrow> bool"
  rl_q :: "string \<Rightarrow> string"

text \<open>The two branches of the switch on the type flag; other types of entries are passed over.\<close>

definition extract_dir :: "('h, 'w) release_lib \<Rightarrow> 'h \<Rightarrow> string \<Rightarrow> ('w, goerror option) go" where
  "extract_dir lib root rel =
     go_bind (go_call (rl_MkdirAll lib root rel mode_0755))
       (\<lambda>err. go_ret (map_option (Wrap (''failed to create dir '' @ rel @ '': '')) err))"

definition extract_file :: "('h, 'w) release_lib \<Rightarrow> 'h \<Rightarrow> int \<Rightarrow> 'h \<Rightarrow> string \<Rightarrow> ('w, goerror option) go" where
  "extract_file lib tarReader mode root rel =
     go_bind
       (if filepath_Dir rel \<noteq> ''.'' then go_call (rl_MkdirAll lib root (filepath_Dir rel) mode_0755) else go_ret None)
       (\<lambda>err. case err of
          Some e \<Rightarrow> go_ret (Some (Wrap (''failed to create parent dir for '' @ rel @ '': '') e))
        | None \<Rightarrow>
            go_bind (go_call (rl_OpenFile lib root rel (mode mod 2 ^ 32)))
              (\<lambda>r. case r of
                 Inl e \<Rightarrow> go_ret (Some (Wrap (''failed to create file '' @ rel @ '': '') e))
               | Inr outFile \<Rightarrow>
                   go_bind (go_call (rl_Copy lib outFile tarReader))
                     (\<lambda>err. go_bind (go_call (rl_Close lib outFile))
                        (\<lambda>_. go_ret (map_option (Wrap (''failed to write file '' @ rel @ '': '')) err)))))"

definition extractTarEntry :: "('h, 'w) release_lib \<Rightarrow> 'h \<Rightarrow> tar_header \<Rightarrow> 'h \<Rightarrow> ('w, goerror option) go" where
  "extractTarEntry lib tarReader header root =
     (case safeTarEntryRelPath (rl_q lib) (th_Name header) of
        Inl err \<Rightarrow> go_ret (Some err)
      | Inr rel \<Rightarrow>
          if rel = [] then go_ret None
          else if th_Typeflag header = CHR ''5'' then extract_dir lib root rel
          else if th_Typeflag header = CHR ''0'' then extract_file lib tarReader (th_Mode header) root rel
          else go_ret None)"

text \<open>The loop over the entries has no bound but the archive's.\<close>

partial_function (option) extract_entries ::
  "('h, 'w) release_lib \<Rightarrow> 'h \<Rightarrow> 'h \<Rightarrow> 'w \<Rightarrow> (goerror option outcome \<times> 'w) option" where
  "extract_entries lib tarReader root w =
     go_bind (go_call (rl_Next lib tarReader))
       (\<lambda>n. case n of
          TarEOF \<Rightarrow> go_ret None
        | TarError err \<Rightarrow> go_ret (Some (Wrap ''failed to read tar: '' err))
        | TarEntry header \<Rightarrow>
            go_bind (extractTarEntry lib tarReader header root)
              (\<lambda>err. case err of
                 Some e \<Rightarrow> go_ret (Some e)
               | None \<Rightarrow> (\<lambda>w. extract_entries lib tarReader root w))) w"

text \<open>\<open>go_defer m c\<close>: the deferred call \<open>c\<close> runs when \<open>m\<close> returns or panics.\<close>

definition go_defer :: "('w, 'a) go \<Rightarrow> ('w, unit) go \<Rightarrow> ('w, 'a) go" where
  "go_defer m c w =
     (case m w of
        None \<Rightarrow> None
      | Some (out, w') \<Rightarrow> go_bind c (\<lambda>_ w''. Some (out, w'')) w')"

definition istio_url :: "string \<Rightarrow> string \<Rightarrow> string \<Rightarrow> string" where
  "istio_url version osName arch =
     ''https://github.com/istio/istio/releases/download/'' @ version @ ''/istio-'' @ version @ ''-'' @ osName @ ''-''
       @ arch @ ''.tar.gz''"

text \<open>From the end of the archive on: the directory of the release must be there.\<close>

definition find_release :: "('h, 'w) release_lib \<Rightarrow> string \<Rightarrow> string \<Rightarrow> ('w, goerror + string) go" where
  "find_release lib version tmpDir =
     (let istioDir = filepath_Join [tmpDir, ''istio-'' @ version]
      in go_bind (go_call (rl_Stat lib istioDir))
           (\<lambda>err. go_ret
              (if (case err of None \<Rightarrow> False | Some e \<Rightarrow> rl_IsNotExist lib e)
               then Inl (Errorf (''extracted Istio dir not found: '' @ istioDir)) else Inr istioDir)))"

text \<open>From the response of HTTP on, with the deferred calls that close what was opened.\<close>

definition unpack_release ::
  "('h, 'w) release_lib \<Rightarrow> string \<Rightarrow> string \<Rightarrow> 'h \<Rightarrow> 'h \<Rightarrow> ('w, goerror + string) go" where
  "unpack_release lib version tmpDir root body =
     go_try (Wrap ''failed to create gzip reader: '') (go_call (rl_gzip lib body))
       (\<lambda>gzReader.
          go_defer
            (go_bind (extract_entries lib (rl_tar lib gzReader) root)
              (\<lambda>err. case err of
                 Some e \<Rightarrow> go_ret (Inl e)
               | None \<Rightarrow> find_release lib version tmpDir))
            (go_call (rl_Close lib gzReader)))"

definition DownloadIstio ::
  "('h, 'w) release_lib \<Rightarrow> string \<Rightarrow> string \<Rightarrow> string \<Rightarrow> string \<Rightarrow> ('w, goerror + string) go" where
  "DownloadIstio lib goos goarch version tmpDir =
     (case DetectOSArch goos goarch of (osName, arch) \<Rightarrow>
        go_try (Wrap (''failed to resolve tmpDir '' @ tmpDir @ '': '')) (go_call (rl_Abs lib tmpDir))
          (\<lambda>absTmpDir.
             go_try (Wrap (''failed to open extraction root '' @ absTmpDir @ '': '')) (go_call (rl_OpenRoot lib absTmpDir))
               (\<lambda>root.
                  go_defer
                    (go_try (Wrap (''failed to download Istio '' @ version @ '': ''))
                      (go_call (rl_Get lib (istio_url version osName arch)))
                      (\<lambda>(status, body).
                         go_defer
                           (if status \<noteq> 200
                            then go_ret (Inl (Errorf (''failed to download Istio '' @ version @ '': HTTP '' @ int_dec status)))
                            else unpack_release lib version tmpDir root body)
                           (go_call (rl_Close lib body))))
                    (go_call (rl_Close lib root)))))"


section \<open>istioctl\<close>

definition GetIstioctlPath :: "string \<Rightarrow> string" where
  "GetIstioctlPath istioDir = filepath_Join [istioDir, ''bin'', ''istioctl'']"

definition RunIstioInstall :: "'w test_os \<Rightarrow> string \<Rightarrow> string \<Rightarrow> string \<Rightarrow> ('w, goerror option) go" where
  "RunIstioInstall os istioctl revision profile =
     (let args = [''install'', ''-y'', ''--set'', ''profile='' @ profile];
          args' = (if revision \<noteq> [] then args @ [''--set'', ''revision='' @ revision] else args)
      in run_only os (exec_Command istioctl args'))"

definition RunIstioUpgrade :: "'w test_os \<Rightarrow> string \<Rightarrow> string \<Rightarrow> ('w, goerror option) go" where
  "RunIstioUpgrade os istioctl profile =
     run_only os (exec_Command istioctl [''upgrade'', ''-y'', ''--set'', ''profile='' @ profile])"

definition RunIstioTagSet :: "'w test_os \<Rightarrow> string \<Rightarrow> string \<Rightarrow> string \<Rightarrow> bool \<Rightarrow> ('w, goerror option) go" where
  "RunIstioTagSet os istioctl tag revision overwrite =
     (let args = [''tag'', ''set'', tag, ''--revision'', revision];
          args' = (if overwrite then args @ [''--overwrite''] else args)
      in run_only os (exec_Command istioctl args'))"

definition WaitForIstioReady :: "'w test_os \<Rightarrow> string \<Rightarrow> ('w, goerror option) go" where
  "WaitForIstioReady os revision =
     (let deployName = (if revision \<noteq> [] then ''istiod-'' @ revision else ''istiod'')
      in run_only os (exec_Command ''kubectl''
           [''wait'', ''deployment/'' @ deployName, ''--for'', ''condition=Available'', ''-n'', ''istio-system'',
            ''--timeout'', ''120s'']))"

end
