(* ===== verification/TestUtilsSpec.thy ===== *)
theory TestUtilsSpec
  imports TestUtils
begin

text \<open>
  The properties of the test helpers: unpacking a release stays below the directory it was given,
  whatever the archive and also when it has no end; uncommenting restores code that was commented out line by line.
\<close>

section \<open>Names of archive entries\<close>

text \<open>
  A name is refused when it holds two dots in a row or is absolute; the later tests of the code
  never refuse one. What is accepted names a place below the root.
\<close>

lemma safeTarEntryRelPath_simple:
  "safeTarEntryRelPath q name =
     (if name = [] \<or> name = ''.'' then Inr []
      else if contains name ''..'' then Inl (Errorf (''path traversal in tar entry: '' @ q name))
      else if is_abs name then Inl (Errorf (''absolute path in tar entry: '' @ q name))
      else Inr (if clean_path name = ''.'' then [] else clean_path name))"
proof -
  have "is_local name \<and> clean_path name \<noteq> [] \<and> clean_path name \<noteq> ''..'' \<and> \<not> has_prefix (clean_path name) ''../''"
    if "name \<noteq> []" "\<not> contains name ''..''" "\<not> is_abs name"
  proof -
    have parts: "''..'' \<notin> set (split_on (CHR ''/'') name)" by (rule not_contains_part [OF that(2)])
    have not_up: "p \<noteq> ''..'' \<and> \<not> has_prefix p ''../''" if "''..'' \<notin> set (split_on (CHR ''/'') p)" for p
      using that split_on_append [of "CHR ''/''" "''..''"] by (auto simp: has_prefix_iff prefix_def)
    from clean_path_below [OF that(3) parts] have clean: "clean_path name = ''.'' \<or> below (clean_path name)" .
    then have "clean_path name \<noteq> []" "''..'' \<notin> set (split_on (CHR ''/'') (clean_path name))"
      using below_not_abs by (auto simp: below_def)
    with not_up [OF parts] not_up that show ?thesis by (auto simp: is_local_def Let_def)
  qed
  then show ?thesis by (auto simp: safeTarEntryRelPath_def Let_def)
qed

lemma safeTarEntryRelPath_below:
  assumes "safeTarEntryRelPath q name = Inr rel" and "rel \<noteq> []"
  shows "below rel"
proof -
  from assms have "\<not> contains name ''..''" "\<not> is_abs name" "rel = clean_path name" "rel \<noteq> ''.''"
    by (auto simp: safeTarEntryRelPath_simple split: if_splits)
  with clean_path_below [OF _ not_contains_part] show ?thesis by blast
qed


section \<open>Archives without end\<close>

text \<open>
  The loop over the entries gives no world when the archive has no end. \<open>entries_after n\<close> is the
  world in which the loop has unpacked \<open>n\<close> entries and asks for the next one, \<open>download_at n\<close> the
  same for the whole download.
\<close>

fun entries_after :: "('h, 'w) release_lib \<Rightarrow> 'h \<Rightarrow> 'h \<Rightarrow> nat \<Rightarrow> 'w \<Rightarrow> 'w option" where
  "entries_after lib tarReader root 0 w = Some w"
| "entries_after lib tarReader root (Suc n) w =
     (case rl_Next lib tarReader w of
        (TarEntry header, w1) \<Rightarrow>
          (case extractTarEntry lib tarReader header root w1 of
             Some (Return None, w2) \<Rightarrow> entries_after lib tarReader root n w2
           | _ \<Rightarrow> None)
      | _ \<Rightarrow> None)"

definition download_at :: "('h, 'w) release_lib \<Rightarrow> string \<Rightarrow> string \<Rightarrow> string \<Rightarrow> string \<Rightarrow> nat \<Rightarrow> 'w \<Rightarrow> 'w option" where
  "download_at lib goos goarch version tmpDir n w =
     (case rl_Abs lib tmpDir w of
        (Inr absTmpDir, w1) \<Rightarrow>
          (case rl_OpenRoot lib absTmpDir w1 of
             (Inr root, w2) \<Rightarrow>
               (case rl_Get lib (istio_url version (fst (DetectOSArch goos goarch)) (snd (DetectOSArch goos goarch))) w2 of
                  (Inr (status, body), w3) \<Rightarrow>
                    if status \<noteq> 200 then None
                    else (case rl_gzip lib body w3 of
                            (Inr gzReader, w4) \<Rightarrow> entries_after lib (rl_tar lib gzReader) root n w4
                          | _ \<Rightarrow> None)
                | _ \<Rightarrow> None)
           | _ \<Rightarrow> None)
      | _ \<Rightarrow> None)"

lemma extractTarEntry_total: "go_total (extractTarEntry lib tarReader header root)"
  unfolding extractTarEntry_def extract_dir_def extract_file_def by (intro go_total_intros)

text \<open>The loop goes on from there, and one that gives no world gets through any number of entries.\<close>

lemma entries_after_goes_on:
  "entries_after lib t h n w = Some v \<Longrightarrow> extract_entries lib t h w = extract_entries lib t h v"
proof (induction n arbitrary: w)
  case (Suc n)
  then obtain header w1 w2 where "rl_Next lib t w = (TarEntry header, w1)"
    and "extractTarEntry lib t header h w1 = Some (Return None, w2)" and "entries_after lib t h n w2 = Some v"
    by (auto split: prod.splits tar_next.splits option.splits outcome.splits)
  with Suc.IH show ?case by (subst extract_entries.simps) (simp add: go_bind_def go_call_def)
qed simp

lemma endless_entries:
  "extract_entries lib t h w = None \<Longrightarrow> \<exists>v. entries_after lib t h n w = Some v"
proof (induction n arbitrary: w)
  case (Suc n)
  have step: "go_bind (go_call (rl_Next lib t))
       (\<lambda>n. case n of TarEOF \<Rightarrow> go_ret None | TarError err \<Rightarrow> go_ret (Some (Wrap ''failed to read tar: '' err))
        | TarEntry header \<Rightarrow> go_bind (extractTarEntry lib t header h)
              (\<lambda>err. case err of Some e \<Rightarrow> go_ret (Some e) | None \<Rightarrow> (\<lambda>w. extract_entries lib t h w))) w = None"
    using Suc.prems by (subst (asm) extract_entries.simps)
  then obtain header w1 where asked: "rl_Next lib t w = (TarEntry header, w1)"
    by (auto simp: go_bind_def go_call_def go_ret_def split: prod.splits tar_next.splits)
  obtain err w2 where entry: "extractTarEntry lib t header h w1 = Some (Return err, w2)"
    using extractTarEntry_total [of lib t header h] unfolding go_total_def returns_def by blast
  from step asked entry have "err = None" and "extract_entries lib t h w2 = None"
    by (auto simp: go_bind_def go_call_def go_ret_def split: option.splits)
  with Suc.IH [of w2] asked entry show ?case by simp
qed simp

lemma go_defer_None: "go_defer m (go_call c) w = None \<longleftrightarrow> m w = None"
  by (auto simp: go_defer_def go_bind_def go_call_def split: option.splits prod.splits)

lemma find_release_returns: "find_release lib version tmpDir w \<noteq> None"
  by (simp add: find_release_def go_bind_def go_call_def go_ret_def Let_def split: prod.split)

lemma endless_download:
  assumes "DownloadIstio lib goos goarch version tmpDir w = None"
  shows "\<exists>v. download_at lib goos goarch version tmpDir n w = Some v"
proof -
  obtain os arch where os: "DetectOSArch goos goarch = (os, arch)" by fastforce
  from assms os obtain absTmpDir w1 where a: "rl_Abs lib tmpDir w = (Inr absTmpDir, w1)"
    and run1: "go_try (Wrap (''failed to open extraction root '' @ absTmpDir @ '': '')) (go_call (rl_OpenRoot lib absTmpDir))
      (\<lambda>root. go_defer
         (go_try (Wrap (''failed to download Istio '' @ version @ '': '')) (go_call (rl_Get lib (istio_url version os arch)))
           (\<lambda>(status, body). go_defer
              (if status \<noteq> 200 then go_ret (Inl (Errorf (''failed to download Istio '' @ version @ '': HTTP '' @ int_dec status)))
               else unpack_release lib version tmpDir root body) (go_call (rl_Close lib body))))
         (go_call (rl_Close lib root))) w1 = None"
    by (auto simp: DownloadIstio_def go_try_def go_bind_def go_call_def go_ret_def split: prod.splits sum.splits)
  from run1 obtain root w2 where r: "rl_OpenRoot lib absTmpDir w1 = (Inr root, w2)"
    and run2: "go_try (Wrap (''failed to download Istio '' @ version @ '': '')) (go_call (rl_Get lib (istio_url version os arch)))
           (\<lambda>(status, body). go_defer
              (if status \<noteq> 200 then go_ret (Inl (Errorf (''failed to download Istio '' @ version @ '': HTTP '' @ int_dec status)))
               else unpack_release lib version tmpDir root body) (go_call (rl_Close lib body))) w2 = None"
    by (auto simp: go_defer_None go_try_def go_bind_def go_call_def go_ret_def split: prod.splits sum.splits)
  from run2 obtain status body w3 where g: "rl_Get lib (istio_url version os arch) w2 = (Inr (status, body), w3)" "status = 200"
    and run3: "unpack_release lib version tmpDir root body w3 = None"
    by (auto simp: go_defer_None go_try_def go_bind_def go_call_def go_ret_def split: prod.splits sum.splits if_splits)
  from run3 obtain gz w4 where z: "rl_gzip lib body w3 = (Inr gz, w4)"
    and run4: "go_bind (extract_entries lib (rl_tar lib gz) root)
        (\<lambda>err. case err of Some e \<Rightarrow> go_ret (Inl e) | None \<Rightarrow> find_release lib version tmpDir) w4 = None"
    by (auto simp: unpack_release_def go_defer_None go_try_def go_bind_def go_call_def go_ret_def split: prod.splits sum.splits)
  have "extract_entries lib (rl_tar lib gz) root w4 = None \<or> (\<exists>u. find_release lib version tmpDir u = None)"
  proof (cases "extract_entries lib (rl_tar lib gz) root w4")
    case (Some res)
    obtain out u where res: "res = (out, u)" by (cases res)
    with Some run4 have "find_release lib version tmpDir u = None"
      by (cases out) (auto simp: go_bind_def go_ret_def split: option.splits)
    then show ?thesis by blast
  qed simp
  then have "extract_entries lib (rl_tar lib gz) root w4 = None" by (simp add: find_release_returns)
  from endless_entries [OF this] a r g z os show ?thesis by (simp add: download_at_def)
qed


section \<open>Unpacking stays below the root\<close>

text \<open>
  \<open>release_keeps\<close>: the operations of a download keep \<open>P\<close>, those that write under the root for paths
  \<open>below\<close> it.
\<close>

locale release_keeps =
  fixes lib :: "('h, 'w) release_lib" and P :: "'w \<Rightarrow> bool"
  assumes elsewhere: "preserves P (go_call (rl_Abs lib path))" "preserves P (go_call (rl_OpenRoot lib path))"
      "preserves P (go_call (rl_Get lib url))" "preserves P (go_call (rl_gzip lib h))"
      "preserves P (go_call (rl_Next lib h))" "preserves P (go_call (rl_Copy lib h h'))"
      "preserves P (go_call (rl_Close lib h))" "preserves P (go_call (rl_Stat lib path))"
    and make_below: "below rel \<Longrightarrow> preserves P (go_call (rl_MkdirAll lib h rel mode))"
    and open_below: "below rel \<Longrightarrow> preserves P (go_call (rl_OpenFile lib h rel mode))"
begin

lemma entry_keeps: "preserves P (extractTarEntry lib tarReader header root)"
proof (cases "safeTarEntryRelPath (rl_q lib) (th_Name header)")
  case (Inr rel)
  show ?thesis
  proof (cases "rel = []")
    case False
    have rel: "below rel" by (rule safeTarEntryRelPath_below [OF Inr False])
    have "preserves P (extract_dir lib root rel)"
      unfolding extract_dir_def by (intro preserves_intros make_below rel)
    moreover have "preserves P (extract_file lib tarReader (th_Mode header) root rel)"
      unfolding extract_file_def by (intro preserves_intros elsewhere open_below make_below rel)
        (use filepath_Dir_below [OF rel] in blast)
    ultimately show ?thesis using Inr by (simp add: extractTarEntry_def preserves_ret)
  qed (simp add: Inr extractTarEntry_def preserves_ret)
qed (simp add: extractTarEntry_def preserves_ret)

lemma entries_keep: "preserves P (extract_entries lib tarReader root)"
proof -
  have "l = lib \<longrightarrow> P w \<longrightarrow> P (snd out)" if "extract_entries l t h w = Some out" for l and t h :: 'h and w out
  proof (rule extract_entries.raw_induct [OF _ that, where P = "\<lambda>l t h w out. l = lib \<longrightarrow> P w \<longrightarrow> P (snd out)"],
      intro impI)
    fix f :: "('h, 'w) release_lib \<Rightarrow> 'h \<Rightarrow> 'h \<Rightarrow> 'w \<Rightarrow> (goerror option outcome \<times> 'w) option"
      and l and t h :: 'h and w out
    assume IH: "\<And>l t h w out. f l t h w = Some out \<Longrightarrow> l = lib \<longrightarrow> P w \<longrightarrow> P (snd out)"
      and eq: "go_bind (go_call (rl_Next l t))
        (\<lambda>n. case n of TarEOF \<Rightarrow> go_ret None | TarError err \<Rightarrow> go_ret (Some (Wrap ''failed to read tar: '' err))
          | TarEntry header \<Rightarrow> go_bind (extractTarEntry l t header h)
              (\<lambda>err. case err of Some e \<Rightarrow> go_ret (Some e) | None \<Rightarrow> (\<lambda>w. f l t h w))) w = Some out"
      and "l = lib" and "P w"
    have rest: "preserves P (f lib t h)" using IH by (fastforce simp: preserves_def)
    have "preserves P (go_bind (go_call (rl_Next lib t))
        (\<lambda>n. case n of TarEOF \<Rightarrow> go_ret None | TarError err \<Rightarrow> go_ret (Some (Wrap ''failed to read tar: '' err))
          | TarEntry header \<Rightarrow> go_bind (extractTarEntry lib t header h)
              (\<lambda>err. case err of Some e \<Rightarrow> go_ret (Some e) | None \<Rightarrow> f lib t h)))"
      by (intro preserves_bind elsewhere) (auto split: tar_next.split option.split intro!: preserves_intros entry_keeps rest)
    from preservesD [OF this \<open>P w\<close>, of "fst out" "snd out"] eq \<open>l = lib\<close> show "P (snd out)"
      by (simp cong: tar_next.case_cong option.case_cong)
  qed
  then show ?thesis by (fastforce simp: preserves_def)
qed

lemma defer_keeps:
  assumes "preserves P m" and "preserves P c"
  shows "preserves P (go_defer m c)"
  unfolding preserves_def
proof (intro allI impI)
  fix w r w'
  assume "P w" and run: "go_defer m c w = Some (r, w')"
  then obtain out w1 where m: "m w = Some (out, w1)" by (auto simp: go_defer_def split: option.splits)
  have "preserves P (go_bind c (\<lambda>_ w. Some (out, w)))"
    by (intro preserves_bind assms) (simp add: preserves_def)
  from preservesD [OF this preservesD [OF assms(1) \<open>P w\<close> m]] run m show "P w'" by (simp add: go_defer_def)
qed

lemma call_keeps: "preserves P (go_call f) \<Longrightarrow> f w = (x, w') \<Longrightarrow> P w \<Longrightarrow> P w'"
  by (auto simp: preserves_def go_call_def)

lemma entries_after_keeps: "P w \<Longrightarrow> entries_after lib tarReader root n w = Some v \<Longrightarrow> P v"
proof (induction n arbitrary: w)
  case (Suc n)
  then obtain header w1 w2 where n: "rl_Next lib tarReader w = (TarEntry header, w1)"
    and e: "extractTarEntry lib tarReader header root w1 = Some (Return None, w2)"
    and rest: "entries_after lib tarReader root n w2 = Some v"
    by (auto split: prod.splits tar_next.splits option.splits outcome.splits)
  have "P w1" by (rule call_keeps [OF elsewhere(5) n Suc.prems(1)])
  from preservesD [OF entry_keeps this e] Suc.IH rest show ?case by blast
qed simp

lemma download_at_keeps:
  assumes "P w" and "download_at lib goos goarch version tmpDir n w = Some v"
  shows "P v"
proof -
  from assms(2) obtain a w1 root w2 body w3 gz w4 where a: "rl_Abs lib tmpDir w = (Inr a, w1)"
    and r: "rl_OpenRoot lib a w1 = (Inr root, w2)"
    and g: "rl_Get lib (istio_url version (fst (DetectOSArch goos goarch)) (snd (DetectOSArch goos goarch))) w2 = (Inr (200, body), w3)"
    and z: "rl_gzip lib body w3 = (Inr gz, w4)" and rest: "entries_after lib (rl_tar lib gz) root n w4 = Some v"
    unfolding download_at_def by (auto split: prod.split_asm sum.split_asm if_split_asm)
  have "P w4"
    by (rule call_keeps [OF elsewhere(4) z], rule call_keeps [OF elsewhere(3) g], rule call_keeps [OF elsewhere(2) r],
        rule call_keeps [OF elsewhere(1) a assms(1)])
  from entries_after_keeps [OF this rest] show ?thesis .
qed

lemma download_keeps: "preserves P (DownloadIstio lib goos goarch version tmpDir)"
  unfolding DownloadIstio_def unpack_release_def find_release_def Let_def
  by (intro preserves_intros defer_keeps elsewhere entries_keep)

end

text \<open>
  C20. Unpacking stays below the root, whatever the archive. A property of the world that is kept by
  making directories and opening files at relative paths without empty elements and dots, and by
  the other operations of a download, is kept by \<open>DownloadIstio\<close>, also when it fails in the middle;
  it holds after any number of entries that were unpacked; and a download that never returns is one
  that gets through any number of entries, so that it holds all along an archive without end. The
  program asks the root for no other path.
\<close>

theorem DownloadIstio_confined:
  assumes "release_keeps lib P"
  shows "preserves P (DownloadIstio lib goos goarch version tmpDir) \<and>
    (\<forall>w n v. P w \<longrightarrow> download_at lib goos goarch version tmpDir n w = Some v \<longrightarrow> P v) \<and>
    (\<forall>w. DownloadIstio lib goos goarch version tmpDir w = None \<longrightarrow>
       (\<forall>n. \<exists>v. download_at lib goos goarch version tmpDir n w = Some v))"
  by (intro conjI allI impI release_keeps.download_keeps [OF assms] endless_download)
    (rule release_keeps.download_at_keeps [OF assms])


section \<open>An archive in memory\<close>

text \<open>A world for the example: what is left of the archive, and the paths the root was asked for.\<close>

record archive =
  ar_left :: "tar_header list"
  ar_asked :: "string list"

definition archive_lib :: "(string, archive) release_lib" where
  "archive_lib =
     \<lparr>rl_Abs = (\<lambda>path a. (Inr (''/work/'' @ path), a)),
      rl_OpenRoot = (\<lambda>path a. (Inr path, a)),
      rl_Get = (\<lambda>url a. (Inr (200, url), a)),
      rl_gzip = (\<lambda>h a. (Inr h, a)),
      rl_tar = (\<lambda>h. h),
      rl_Next = (\<lambda>h a. case ar_left a of [] \<Rightarrow> (TarEOF, a) | x # xs \<Rightarrow> (TarEntry x, a\<lparr>ar_left := xs\<rparr>)),
      rl_MkdirAll = (\<lambda>h path mode a. (None, a\<lparr>ar_asked := path # ar_asked a\<rparr>)),
      rl_OpenFile = (\<lambda>h path mode a. (Inr path, a\<lparr>ar_asked := path # ar_asked a\<rparr>)),
      rl_Copy = (\<lambda>to from a. (None, a)),
      rl_Close = (\<lambda>h a. ((), a)),
      rl_Stat = (\<lambda>path a. (None, a)),
      rl_IsNotExist = (\<lambda>e. True),
      rl_q = (\<lambda>s. s)\<rparr>"

interpretation archived: release_keeps archive_lib "\<lambda>a. list_all below (ar_asked a)"
  by unfold_locales (auto simp: archive_lib_def intro!: preserves_call split: list.splits)

text \<open>An archive that holds the same directory without end.\<close>

definition endless_lib :: "(string, archive) release_lib" where
  "endless_lib = archive_lib\<lparr>rl_Next := (\<lambda>h a. (TarEntry \<lparr>th_Name = ''d'', th_Typeflag = CHR ''5'', th_Mode = 493\<rparr>, a))\<rparr>"

interpretation endless: release_keeps endless_lib "\<lambda>a. list_all below (ar_asked a)"
  by unfold_locales (auto simp: endless_lib_def archive_lib_def intro!: preserves_call)

lemma endless_opens:
  "rl_Abs endless_lib path a = (Inr (''/work/'' @ path), a)" "rl_OpenRoot endless_lib path a = (Inr path, a)"
  "rl_Get endless_lib url a = (Inr (200, url), a)" "rl_gzip endless_lib h a = (Inr h, a)" "rl_tar endless_lib h = h"
  by (simp_all add: endless_lib_def archive_lib_def)

lemma endless_entry:
  "extractTarEntry endless_lib t \<lparr>th_Name = ''d'', th_Typeflag = CHR ''5'', th_Mode = 493\<rparr> h a =
     Some (Return None, a\<lparr>ar_asked := ''d'' # ar_asked a\<rparr>)"
proof -
  have "safeTarEntryRelPath q ''d'' = Inr ''d''" for q by code_simp
  then show ?thesis
    by (simp add: extractTarEntry_def extract_dir_def endless_lib_def archive_lib_def go_bind_def go_call_def go_ret_def)
qed

lemma endless_after:
  "entries_after endless_lib t h n a = Some (a\<lparr>ar_asked := replicate n ''d'' @ ar_asked a\<rparr>)"
proof (induction n arbitrary: a)
  case (Suc n)
  have "rl_Next endless_lib t a = (TarEntry \<lparr>th_Name = ''d'', th_Typeflag = CHR ''5'', th_Mode = 493\<rparr>, a)"
    by (simp add: endless_lib_def)
  with Suc show ?case by (simp add: endless_entry replicate_append_same [symmetric])
qed simp

theorem DownloadIstio_confined_witness:
  "download_at endless_lib ''linux'' ''amd64'' ''1.28.4'' ''tmp'' 5 \<lparr>ar_left = [], ar_asked = []\<rparr> =
     Some \<lparr>ar_left = [], ar_asked = replicate 5 ''d''\<rparr> \<and> list_all below (replicate 5 ''d'')"
proof -
  have at: "download_at endless_lib ''linux'' ''amd64'' ''1.28.4'' ''tmp'' 5 \<lparr>ar_left = [], ar_asked = []\<rparr> =
      Some \<lparr>ar_left = [], ar_asked = replicate 5 ''d''\<rparr>"
    unfolding download_at_def by (simp add: endless_opens endless_after)
  moreover from DownloadIstio_confined [OF endless.release_keeps_axioms, of "''linux''" "''amd64''" "''1.28.4''" "''tmp''",
      THEN conjunct2, THEN conjunct1, rule_format, OF _ at]
  have "list_all below (replicate 5 ''d'')" by simp
  ultimately show ?thesis by (rule conjI)
qed


section \<open>Uncommenting\<close>

text \<open>A line that the scanner gives back as it is.\<close>

definition plain_line :: "string \<Rightarrow> bool" where
  "plain_line s \<longleftrightarrow> s \<noteq> [] \<and> CHR 0x0A \<notin> set s \<and> last s \<noteq> CHR 0x0D \<and> length s < 65536"

lemma scan_lines_join:
  "list_all plain_line ls \<Longrightarrow> scan_lines (join_with newline ls) = ls"
proof (induction ls rule: join_path.induct)
  case (2 s)
  then have "takeWhile (\<lambda>c. c \<noteq> CHR 0x0A) s = s" by (auto simp: plain_line_def)
  with 2 show ?case
    by (subst scan_lines.simps)
      (simp add: plain_line_def drop_cr_def Let_def scan_lines.simps [of "[]"] del: takeWhile_eq_all_conv)
next
  case (3 s t ss)
  then have "takeWhile (\<lambda>c. c \<noteq> CHR 0x0A) (s @ newline @ join_with newline (t # ss)) = s"
    by (auto simp: plain_line_def newline_def takeWhile_append)
  moreover have "drop (Suc (length s)) (s @ newline @ r) = r" for r by (simp add: newline_def)
  ultimately show ?case
    using 3 by (subst scan_lines.simps) (simp add: plain_line_def drop_cr_def Let_def)
qed (simp add: scan_lines.simps)

text \<open>
  C27. Uncommenting undoes commenting: where a file holds, for the first time, some lines each with a
  comment prefix, \<open>UncommentCode\<close> writes the file with those lines without the prefix and everything
  else as it was. The hypothesis on the lines is that with the prefix each of them is not empty,
  has no line break in it, does not end in a carriage return and fits the scanner's buffer.
\<close>

theorem UncommentCode_restores:
  assumes "ls \<noteq> []" and "\<forall>l \<in> set ls. plain_line (pre @ l)"
    and "target = join_with newline (map (\<lambda>l. pre @ l) ls)"
    and "os_ReadFile os filename w = (Inr (before_it @ target @ after_it), w1)"
    and "str_index (before_it @ target @ after_it) target = Some (length before_it)"
    and "os_WriteFile os filename (before_it @ join_with newline ls @ after_it) mode_0644 w1 = (None, w2)"
  shows "returns (UncommentCode os filename target pre) w None w2"
proof -
  have toks: "scan_lines target = map (\<lambda>l. pre @ l) ls"
    unfolding assms(3) by (rule scan_lines_join) (use assms(2) in \<open>simp add: list_all_iff\<close>)
  have out: "map (\<lambda>line. trim_prefix line pre) (map (\<lambda>l. pre @ l) ls) = ls"
    by (simp add: trim_prefix_def comp_def)
  show ?thesis
    unfolding UncommentCode_def
    by (rule returns_bindI [of _ _ "Inr (before_it @ target @ after_it)" w1])
      (use assms(1,4-6) in \<open>auto simp: toks out Let_def simp del: map_map intro!: returns_bindI\<close>)
qed

text \<open>A file in memory.\<close>

definition file_os :: "string test_os" where
  "file_os =
     \<lparr>os_Getwd = (\<lambda>f. ((''/src/test/e2e'', None), f)),
      os_Chdir = (\<lambda>dir f. (None, f)),
      os_LookupEnv = (\<lambda>name f. (None, f)),
      os_CombinedOutput = (\<lambda>cmd f. (([], None), f)),
      os_ReadFile = (\<lambda>name f. (Inr f, f)),
      os_WriteFile = (\<lambda>name out mode f. (None, out)),
      fmt_q = (\<lambda>s. s)\<rparr>"

theorem UncommentCode_restores_witness:
  "returns (UncommentCode file_os ''kustomization.yaml'' (''#- a'' @ newline @ ''#- b'') ''#'')
     (''x: 1'' @ newline @ ''#- a'' @ newline @ ''#- b'' @ newline) None
     (''x: 1'' @ newline @ ''- a'' @ newline @ ''- b'' @ newline)"
  using UncommentCode_restores [of "[''- a'', ''- b'']" "''#''" "''#- a'' @ newline @ ''#- b''" file_os
      "''kustomization.yaml''" "''x: 1'' @ newline @ ''#- a'' @ newline @ ''#- b'' @ newline" "''x: 1'' @ newline" newline]
  by (simp add: file_os_def plain_line_def newline_def has_prefix_def)

text \<open>A line break at the end of the target is lost, so the next line is joined to its last.\<close>

lemma UncommentCode_last_break:
  "returns (UncommentCode file_os ''kustomization.yaml'' (''#- a'' @ newline) ''#'')
     (''#- a'' @ newline @ ''b: 1'') None ''- ab: 1''"
  by (auto simp: UncommentCode_def file_os_def newline_def has_prefix_def Let_def trim_prefix_def drop_cr_def
      scan_lines.simps [of "[]"] scan_lines.simps [of "_ # _"] intro!: returns_bindI)

end
