(* ===== verification/Recency.thy ===== *)
theory Recency
  imports Journal
begin

text \<open>
  What the cooldown holds back. While every read of a workload shows a restart less than the
  cooldown ago, whoever made it, the controller sends it nothing, however outdated its pods are.
  The reconciliation succeeds all the same, so nothing is kept for later. When no read shows such a
  restart, every outdated workload is restarted.
\<close>

section \<open>The patches of one workload\<close>

definition patches_of :: "wtype \<Rightarrow> namespaced_name \<Rightarrow> patch_entry list \<Rightarrow> patch_entry list" where
  "patches_of ty nn = filter (\<lambda>(ty', nn', doc). ty' = ty \<and> nn' = nn)"

lemma patches_of_append [simp]: "patches_of ty nn (es @ fs) = patches_of ty nn es @ patches_of ty nn fs"
  by (simp add: patches_of_def)

lemma tries_elsewhere:
  assumes "tries ref es" and "wr_nn ref \<noteq> nn \<or> type_of_kind (wr_kind ref) \<noteq> Some ty"
  shows "patches_of ty nn es = []"
  using assms by (auto simp: patches_of_def filter_empty_conv restarts_def dest!: tries_restarts)

text \<open>Every read of the workload shows a restart at \<open>t\<close>.\<close>

definition shows_restart :: "'w kube \<Rightarrow> wtype \<Rightarrow> namespaced_name \<Rightarrow> gotime \<Rightarrow> bool" where
  "shows_restart k ty nn t \<longleftrightarrow>
     (\<forall>w wl w'. kGetWorkload k ty nn w = (Inr wl, w') \<longrightarrow> restarted_at (wl_template wl) = t)"

lemma in_cooldown_holds:
  assumes "shows_restart k ty (wr_nn ref) t" and "t \<noteq> zero_time" and "clock_within rt lo hi" and "hi < t + cooldown"
    and "0 < cooldown" and "is_duration cooldown" and "type_of_kind (wr_kind ref) = Some ty"
    and "returns (in_cooldown k rt cooldown ref) w (Inr skip) w'"
  shows "skip"
proof -
  from assms(5,7,8) obtain wl w1 where get: "kGetWorkload k ty (wr_nn ref) w = (Inr wl, w1)"
    and rest: "returns (if \<not> is_zero (restarted_at (wl_template wl))
       then go_bind (go_call (rtNow rt)) (\<lambda>now. go_ret (Inr (time_sub now (restarted_at (wl_template wl)) < cooldown)))
       else go_ret (Inr False)) w1 (Inr skip :: goerror + bool) w'"
    by (auto simp: in_cooldown_def getRestartedAt_def elim!: returns_tryE)
  from get assms(1) have "restarted_at (wl_template wl) = t" unfolding shows_restart_def by blast
  with rest assms(2) obtain now where now: "rtNow rt w1 = (now, w')" and skip: "skip = (time_sub now t < cooldown)"
    by (auto simp: is_zero_def elim!: returns_bindE)
  from assms(3) now have "now \<le> hi" unfolding clock_within_def by blast
  with assms(4) have "now < t + cooldown" by simp
  moreover have "min_duration < cooldown" using assms(5) by (simp add: min_duration_def)
  ultimately show ?thesis using time_sub_less_iff [OF assms(6)] by (simp add: skip)
qed

context installation begin

lemma Annotate_held_back:
  assumes "shows_restart k ty nn t" and "t \<noteq> zero_time" and "clock_within rt lo hi" and "hi < t + cooldown"
    and "0 < cooldown" and "is_duration cooldown"
  shows "preserves (\<lambda>w. patches_of ty nn (log w) = ps) (Annotate k rt cooldown ref)"
  unfolding preserves_def
proof (intro allI impI)
  fix w out w'
  assume ps: "patches_of ty nn (log w) = ps" and run: "Annotate k rt cooldown ref w = Some (out, w')"
  show "patches_of ty nn (log w') = ps"
  proof (cases "wr_nn ref = nn \<and> type_of_kind (wr_kind ref) = Some ty")
    case True
    from run Annotate_total obtain x where "returns (Annotate k rt cooldown ref) w x w'"
      by (metis go_totalE returns_def option.inject prod.inject)
    then have "log w' = log w"
      unfolding Annotate_def
    proof (cases rule: returns_tryE)
      case (fail e)
      then show ?thesis using preserves_returns [OF in_cooldown_keeps] by blast
    next
      case (ok skip v)
      have skip using in_cooldown_holds [OF _ assms(2-6) _ ok(1)] assms(1) True by blast
      with ok preserves_returns [OF in_cooldown_keeps ok(1)] show ?thesis by auto
    qed
    with ps show ?thesis by simp
  next
    case False
    from emitsE [OF Annotate_emits run] obtain es where "log w' = log w @ es" "tries ref es" by blast
    with tries_elsewhere [of ref es nn ty] False ps show ?thesis by auto
  qed
qed

end

sublocale installation \<subseteq> on_log: reading k tr rt "\<lambda>w. log w = l" for l
  by (rule reading_log)

context installation begin

lemma keeps_of_log: "(\<And>l. preserves (\<lambda>w. log w = l) m) \<Longrightarrow> preserves (\<lambda>w. F (log w)) m"
  unfolding preserves_def by metis

lemma reading_of_log: "reading k tr rt (\<lambda>w. F (log w))"
  by unfold_locales (rule keeps_of_log, intro on_log.reads on_log.now on_log.select on_log.range on_log.do)+

lemma Reconcile_held_back:
  assumes "shows_restart k ty nn t" and "t \<noteq> zero_time" and "clock_within rt lo hi"
    and "hi < t + ro_annotation_cooldown opts" and "0 < ro_annotation_cooldown opts" and "is_duration (ro_annotation_cooldown opts)"
  shows "preserves (\<lambda>w. patches_of ty nn (log w) = ps) (Reconcile rt (NewIstioChangeReconciler k rt tr opts) r)"
  by (intro annotating.Reconcile_keeps [where cooldown = "ro_annotation_cooldown opts"] annotating.intro
      annotating_axioms.intro reading_of_log Annotate_held_back [OF assms] refl)

end


section \<open>The controller during the cooldown\<close>

text \<open>
  C5. The cooldown holds over runs. While every read of a workload shows a restart less than the
  cooldown ago, by the program or by someone else, no run of the controller sends that workload a
  patch, whatever the events, and also when its pods are outdated. The hypotheses on the clock say
  that it shows no time later than the end of the cooldown.
\<close>

theorem cooldown_holds_back:
  assumes "installation k rt log tr" and "shows_restart k ty nn t" and "t \<noteq> zero_time" and "clock_within rt lo hi"
    and "hi < t + ro_annotation_cooldown opts" and "0 < ro_annotation_cooldown opts" and "is_duration (ro_annotation_cooldown opts)"
    and "ctl_run Q rt (NewIstioChangeReconciler k rt tr opts) s0 acts s"
    and "\<forall>f. Others f \<in> set acts \<longrightarrow> (\<forall>w. log (f w) = log w)"
  shows "patches_of ty nn (log (ct_world s)) = patches_of ty nn (log (ct_world s0))"
  using ctl_run_preserves [OF assms(8) installation.Reconcile_held_back [OF assms(1-7)]] assms(9) by simp

text \<open>
  The example: the workload was restarted ten seconds ago, its pod is outdated and the namespace
  changes. The reconciliation succeeds without a restart, and the controller is idle again.
\<close>

definition shown_kube :: "string list \<Rightarrow> cluster kube" where
  "shown_kube vs = (frozen_kube demo)
     \<lparr>kGetWorkload := (\<lambda>ty nn. freeze demo (\<lambda>c. (answer (nn_name nn) (map_option (with_restart vs) (cl_workloads c ty nn)), c)))\<rparr>"

interpretation shown: installation "shown_kube vs" stopped_runtime cl_log "frozen_transport demo" for vs
  by unfold_locales
    (auto simp: shown_kube_def frozen_kube_def frozen_transport_def freeze_def stopped_runtime_def mem_runtime_def
      mem_patch_def store_workload_def Let_def intro!: preserves_call split: if_splits option.splits)

interpretation shown_running: reconciling "shown_kube vs" "frozen_transport demo" stopped_runtime "\<lambda>c. \<not> cl_cancelled c" for vs
  by unfold_locales
    (auto simp: shown_kube_def frozen_kube_def frozen_transport_def freeze_def stopped_runtime_def mem_runtime_def
      mem_patch_def store_workload_def Let_def intro!: preserves_call split: if_splits option.splits)

interpretation shown_still: still_cluster "shown_kube vs" "frozen_transport demo" for vs
proof
  fix obj :: object_meta and owner nxt
  assume "fetched (shown_kube vs) obj owner nxt"
  then have "fetched (frozen_kube demo) obj owner nxt" by (simp add: fetched_def shown_kube_def)
  then show "single_controller nxt" by (rule frozen.still_single)
qed (simp_all add: shown_kube_def frozen_kube_def frozen_transport_def steady_freeze)

definition ten_seconds_ago :: string where
  "ten_seconds_ago = format_rfc3339 (63835596800 * second)"

lemma recent_shown: "shows_restart (shown_kube [ten_seconds_ago]) DeploymentT web_nn (63835596800 * second)"
proof -
  have "year_of (63835596800 * second) = 2023" by code_simp
  then have "parse_rfc3339 (format_rfc3339 (63835596800 * second)) = Some (63835596800 * second)"
    using parse_format [of "63835596800 * second"] by simp
  then show ?thesis
    by (auto simp: shows_restart_def shown_kube_def ten_seconds_ago_def freeze_def answer_def demo_def demo_at_def restarted_at_def
        with_restart_def merge_workload_def merge_annotations_restart format_rfc3339_def Let_def split: prod.split)
qed

lemma shown_like: "demo_like (shown_kube vs) (frozen_transport demo) (with_restart vs web) c"
  using demo_like_frozen [of "63835596800 * second" c]
  by (simp add: demo_like_def shown_kube_def freeze_def answer_def demo_def demo_objects with_restart_def merge_workload_def)

lemma shown_wfp: "wfp (\<lambda>nxt obj. next_object (shown_kube vs) obj nxt)"
proof -
  have "next_object (shown_kube vs) = next_object (frozen_kube demo)"
    by (intro ext) (simp add: next_object_def fetched_def shown_kube_def)
  with frozen_demo_wfp show ?thesis by simp
qed

lemma shown_healthy: "\<not> cl_cancelled c \<Longrightarrow> healthy (shown_kube vs) stopped_runtime c"
  by (simp add: healthy_def shown_kube_def frozen_kube_def freeze_def mem_kube_def stopped_runtime_def mem_runtime_def)

lemma shown_reconcile:
  "\<exists>c. returns (Reconcile stopped_runtime (NewIstioChangeReconciler (shown_kube vs) stopped_runtime (frozen_transport demo)
     demo_options) shop_request) demo (Inr ()) c"
proof -
  obtain r c where run: "returns (Reconcile stopped_runtime (NewIstioChangeReconciler (shown_kube vs) stopped_runtime
      (frozen_transport demo) demo_options) shop_request) demo r c"
    using Reconcile_total [OF frozen_answers.answering_webhook_axioms shown_wfp] by (rule go_totalE)
  have fine: "\<not> failure_at (shown_kube vs) stopped_runtime delay v e" if "\<not> cl_cancelled v" for delay v e
    using that
    by (intro no_failure_at) (simp_all add: shown_kube_def frozen_kube_def freeze_def mem_kube_def stopped_runtime_def mem_runtime_def)
  have "\<not> cl_cancelled demo" by (simp add: demo_def demo_at_def)
  then have "r = Inr ()"
    using shown_running.Reconcile_fails_at [of vs demo_options shop_request demo _ c] run fine by (cases r) auto
  with run show ?thesis by blast
qed

theorem cooldown_holds_back_witness:
  "\<exists>c. ctl_run client_go stopped_runtime (NewIstioChangeReconciler (shown_kube [ten_seconds_ago]) stopped_runtime
       (frozen_transport demo) demo_options) (idle_at demo) [Event shop_event, Take shop_request, Finish shop_request True] (idle_at c) \<and>
     scan_finding (shown_kube [ten_seconds_ago]) stopped_runtime
       (CallWebhook (shown_kube [ten_seconds_ago]) (frozen_transport demo)) no_config shop_scan web_ref \<and>
     patches_of DeploymentT (wr_nn web_ref) (cl_log c) = []"
proof -
  let ?acts = "[Event shop_event, Take shop_request, Finish shop_request True :: cluster action]"
    and ?k = "shown_kube [ten_seconds_ago]"
  obtain c where "returns (Reconcile stopped_runtime (NewIstioChangeReconciler ?k stopped_runtime
      (frozen_transport demo) demo_options) shop_request) demo (Inr ()) c"
    using shown_reconcile by blast
  from shop_served [OF this] have run: "ctl_run client_go stopped_runtime (NewIstioChangeReconciler ?k
      stopped_runtime (frozen_transport demo) demo_options) (idle_at demo) ?acts (idle_at c)" .
  have others: "\<forall>f. Others f \<in> set ?acts \<longrightarrow> (\<forall>w. cl_log (f w) = cl_log w)" by simp
  have "patches_of DeploymentT web_nn (cl_log (ct_world (idle_at c))) = patches_of DeploymentT web_nn (cl_log (ct_world (idle_at demo)))"
    by (rule cooldown_holds_back [OF shown.installation_axioms recent_shown _ stopped_clock _ _ _ run others])
      (simp_all add: zero_time_def demo_options_def is_duration_def min_duration_def max_duration_def)
  moreover have "scan_finding ?k stopped_runtime (CallWebhook ?k (frozen_transport demo)) no_config shop_scan web_ref"
    using scan_finds(2) [OF demo_scan [OF shown_like]] by simp
  ultimately show ?thesis
    using run by (auto simp: idle_at_def demo_def demo_at_def web_ref_def patches_of_def)
qed


section \<open>When the cooldown is over\<close>

text \<open>
  \<open>overdue\<close>: no read shows a restart that is less than the cooldown before \<open>lo\<close>. On such a cluster
  the check of the cooldown lets every workload that exists pass.
\<close>

definition overdue :: "'w kube \<Rightarrow> gotime \<Rightarrow> duration \<Rightarrow> bool" where
  "overdue k lo cooldown \<longleftrightarrow>
     (\<forall>ty nn w wl w'. kGetWorkload k ty nn w = (Inr wl, w') \<longrightarrow>
        restarted_at (wl_template wl) = zero_time \<or> restarted_at (wl_template wl) + cooldown \<le> lo)"

definition overdue_at :: "'w kube \<Rightarrow> gotime \<Rightarrow> duration \<Rightarrow> namespaced_name \<Rightarrow> bool" where
  "overdue_at k lo cooldown nn \<longleftrightarrow>
     (\<forall>ty w wl w'. kGetWorkload k ty nn w = (Inr wl, w') \<longrightarrow>
        restarted_at (wl_template wl) = zero_time \<or> restarted_at (wl_template wl) + cooldown \<le> lo)"

lemma overdue_iff: "overdue k lo cooldown \<longleftrightarrow> (\<forall>nn. overdue_at k lo cooldown nn)"
  unfolding overdue_def overdue_at_def by blast

lemma in_cooldown_over:
  assumes "overdue_at k lo cooldown (wr_nn ref)" and "clock_within rt lo hi" and "is_duration cooldown"
    and "steady (go_call (kGetWorkload k ty (wr_nn ref)))" and "type_of_kind (wr_kind ref) = Some ty"
    and "kGetWorkload k ty (wr_nn ref) u = (Inr wl, u')" and "returns (in_cooldown k rt cooldown ref) v r v'"
  shows "r = Inr False"
proof (cases "0 < cooldown")
  case True
  from steady_returns [OF assms(4), of u "Inr wl" u' v] assms(6) have get: "kGetWorkload k ty (wr_nn ref) v = (Inr wl, v)" by simp
  let ?at = "restarted_at (wl_template wl)"
  from get assms(5,7) True have rest: "returns (if \<not> is_zero ?at
       then go_bind (go_call (rtNow rt)) (\<lambda>now. go_ret (Inr (time_sub now ?at < cooldown)))
       else go_ret (Inr False)) v r v'"
    by (auto simp: in_cooldown_def getRestartedAt_def elim!: returns_tryE)
  show ?thesis
  proof (cases "?at = zero_time")
    case False
    with assms(1) get have "?at + cooldown \<le> lo" unfolding overdue_at_def by blast
    moreover from rest False obtain now where now: "rtNow rt v = (now, v')" and r: "r = Inr (time_sub now ?at < cooldown)"
      by (auto simp: is_zero_def elim!: returns_bindE)
    moreover from assms(2) now have "lo \<le> now" unfolding clock_within_def by blast
    moreover have "min_duration < cooldown" using True by (simp add: min_duration_def)
    ultimately show ?thesis using time_sub_less_iff [OF assms(3), of now ?at] by simp
  qed (use rest in \<open>simp add: is_zero_def\<close>)
qed (use assms(7) in \<open>simp add: in_cooldown_def\<close>)

lemma owned_by_read:
  "owned_by k obj ref \<Longrightarrow> \<exists>ty w wl w'. type_of_kind (wr_kind ref) = Some ty \<and> kGetWorkload k ty (wr_nn ref) w = (Inr wl, w')"
  by (induction rule: owned_by.induct) auto

text \<open>\<open>all_restarted\<close>: as \<open>all_attended\<close>, with a restart for every outdated workload.\<close>

definition all_restarted ::
  "'w kube \<Rightarrow> 'w runtime \<Rightarrow> 'w transport \<Rightarrow> reconciler_options \<Rightarrow> string list \<Rightarrow> patch_entry list \<Rightarrow> bool" where
  "all_restarted k rt tr opts limit es \<longleftrightarrow>
     (\<exists>cfg pods v v' so. so = scan_options_of (NewIstioChangeReconciler k rt tr opts) limit \<and>
        config_read k cfg \<and> returns (listPods k rt so) v (Inr pods) v' \<and>
        (\<forall>p \<in> set pods. \<forall>ref. om_namespace (p_meta p) \<notin> set (ro_skip_namespaces opts) \<longrightarrow> single_controller (p_meta p) \<longrightarrow>
           outdated k (CallWebhook k tr) cfg so p ref \<longrightarrow>
           (\<exists>p' \<in> set pods. \<exists>ref'. wr_nn ref' = wr_nn ref \<and> outdated k (CallWebhook k tr) cfg so p' ref' \<and>
              (\<exists>e \<in> set es. restarts ref' e))))"

lemma attended_restarted:
  assumes "clock_within rt lo hi" and "is_duration cooldown" and "still_cluster k tr"
    and "overdue_at k lo cooldown (wr_nn ref)" and "outdated k caller cfg so p ref" and "attended k rt cooldown es ref"
  shows "\<exists>e \<in> set es. restarts ref e"
proof -
  from assms(5) obtain ty w wl w' where "type_of_kind (wr_kind ref) = Some ty" "kGetWorkload k ty (wr_nn ref) w = (Inr wl, w')"
    unfolding outdated_def using owned_by_read by blast
  with in_cooldown_over [OF assms(4,1,2) still_cluster.still_workload [OF assms(3)]] assms(6) show ?thesis
    unfolding attended_def by blast
qed

lemma all_attended_restarted:
  assumes "overdue k lo (ro_annotation_cooldown opts)" and "clock_within rt lo hi" and "is_duration (ro_annotation_cooldown opts)"
    and "still_cluster k tr" and "all_attended k rt tr opts limit es"
  shows "all_restarted k rt tr opts limit es"
  using assms(5) attended_restarted [OF assms(2-4)] assms(1) unfolding all_attended_def all_restarted_def overdue_iff by meson

text \<open>
  \<open>due_restarted\<close>: with the tables that were read and the pods that were listed, every outdated
  workload of the range whose reads show no restart within the cooldown is restarted, itself or,
  where other kinds of workloads of its namespace and name are outdated too, one of them.
\<close>

definition due_restarted ::
  "'w kube \<Rightarrow> 'w runtime \<Rightarrow> 'w transport \<Rightarrow> reconciler_options \<Rightarrow> string list \<Rightarrow> gotime \<Rightarrow> patch_entry list \<Rightarrow> bool" where
  "due_restarted k rt tr opts limit lo es \<longleftrightarrow>
     (\<exists>cfg pods v v' so. so = scan_options_of (NewIstioChangeReconciler k rt tr opts) limit \<and>
        config_read k cfg \<and> returns (listPods k rt so) v (Inr pods) v' \<and>
        (\<forall>p \<in> set pods. \<forall>ref. om_namespace (p_meta p) \<notin> set (ro_skip_namespaces opts) \<longrightarrow> single_controller (p_meta p) \<longrightarrow>
           outdated k (CallWebhook k tr) cfg so p ref \<longrightarrow> overdue_at k lo (ro_annotation_cooldown opts) (wr_nn ref) \<longrightarrow>
           (\<exists>e \<in> set es. restarts ref e) \<or>
           (\<exists>p' \<in> set pods. \<exists>ref'. wr_nn ref' = wr_nn ref \<and> ref' \<noteq> ref \<and> outdated k (CallWebhook k tr) cfg so p' ref' \<and>
              (\<exists>e \<in> set es. restarts ref' e))))"

lemma all_attended_due:
  assumes "clock_within rt lo hi" and "is_duration (ro_annotation_cooldown opts)" and "still_cluster k tr"
    and "all_attended k rt tr opts limit es"
  shows "due_restarted k rt tr opts limit lo es"
proof -
  let ?so = "scan_options_of (NewIstioChangeReconciler k rt tr opts) limit" and ?w = "CallWebhook k tr"
  from assms(4) obtain cfg pods v v' where cfg: "config_read k cfg" and pods: "returns (listPods k rt ?so) v (Inr pods) v'"
    and all: "\<And>p ref. p \<in> set pods \<Longrightarrow> om_namespace (p_meta p) \<notin> set (ro_skip_namespaces opts) \<Longrightarrow> single_controller (p_meta p) \<Longrightarrow>
      outdated k ?w cfg ?so p ref \<Longrightarrow>
      \<exists>p' \<in> set pods. \<exists>ref'. wr_nn ref' = wr_nn ref \<and> outdated k ?w cfg ?so p' ref' \<and> attended k rt (ro_annotation_cooldown opts) es ref'"
    unfolding all_attended_def by blast
  have "(\<exists>e \<in> set es. restarts ref e) \<or>
      (\<exists>p' \<in> set pods. \<exists>ref'. wr_nn ref' = wr_nn ref \<and> ref' \<noteq> ref \<and> outdated k ?w cfg ?so p' ref' \<and> (\<exists>e \<in> set es. restarts ref' e))"
    if "p \<in> set pods" "om_namespace (p_meta p) \<notin> set (ro_skip_namespaces opts)" "single_controller (p_meta p)"
      "outdated k ?w cfg ?so p ref" "overdue_at k lo (ro_annotation_cooldown opts) (wr_nn ref)" for p ref
  proof -
    from all [OF that(1-4)] obtain p' ref' where p': "p' \<in> set pods" "wr_nn ref' = wr_nn ref" "outdated k ?w cfg ?so p' ref'"
      and att: "attended k rt (ro_annotation_cooldown opts) es ref'" by blast
    from attended_restarted [OF assms(1-3) _ p'(3) att] that(5) p'(2) have "\<exists>e \<in> set es. restarts ref' e" by simp
    with p' show ?thesis by blast
  qed
  with cfg pods show ?thesis unfolding due_restarted_def by blast
qed

text \<open>
  C4. A change restarts what is outdated. As for a change and the restarts before, and no read shows a
  restart within the cooldown: then after any event the controller can go on by itself to a state
  where the patches sent since the event restart, by its name, every outdated workload in the
  range of the event's request, and wherever it cannot go on at all, they do.
\<close>

theorem overdue_restarted:
  assumes "work_queue Q view invar" and "reconciling k tr rt P" and "\<And>v. P v \<Longrightarrow> healthy k rt v"
    and "answering_webhook tr" and "wfp (\<lambda>nxt obj. next_object k obj nxt)"
    and "installation k rt log tr" and "still_cluster k tr"
    and "rec = NewIstioChangeReconciler k rt tr opts" and "\<not> ro_dry_run opts" and "uninterrupted rt (ro_restart_delay opts)"
    and "ctl_ok view invar s0" and "ctl_run Q rt rec s0 earlier s1" and "ctl_run Q rt rec s1 (Event e # acts) s"
    and "P (ct_world s)" and "\<forall>f. Others f \<in> set acts \<longrightarrow> (\<forall>w. log (f w) = log w)"
    and "r \<in> set (requests_for (ro_reconcile_period opts) e)"
    and "\<And>ns. r = namespace_ReconcileRequest ns \<Longrightarrow> ns \<noteq> [] \<and> CHR ''_'' \<notin> set ns"
    and "overdue k lo (ro_annotation_cooldown opts)" and "clock_within rt lo hi" and "is_duration (ro_annotation_cooldown opts)"
  shows "(\<exists>next s' es. ctl_run Q rt rec s next s' \<and> list_all own_action next \<and>
       log (ct_world s') = log (ct_world s1) @ es \<and> all_restarted k rt tr opts (request_limit r) es) \<and>
    (\<forall>next s'. ctl_run Q rt rec s next s' \<longrightarrow> list_all own_action next \<longrightarrow>
       (\<forall>act s''. own_action act \<longrightarrow> \<not> ctl_step Q rt rec s' act s'') \<longrightarrow>
       (\<exists>es. log (ct_world s') = log (ct_world s1) @ es \<and> all_restarted k rt tr opts (request_limit r) es))"
proof -
  note restarted = all_attended_restarted [OF assms(18-20,7)]
  from change_attends [OF assms(1-17)] restarted [of "request_limit r"] show ?thesis by meson
qed

lemma shown_overdue: "overdue (shown_kube []) lo cooldown"
  by (auto simp: overdue_def shown_kube_def freeze_def answer_def demo_def demo_at_def with_restart_def restarted_at_def web_def
      web_template_def split: option.splits if_splits)

lemma shown_frozen: "shown_kube [] = frozen_kube demo"
proof -
  have "with_restart [] = (\<lambda>wl. wl)" by (rule ext) (simp add: with_restart_def)
  then have "map_option (with_restart []) x = x" for x by (simp only: option.map_ident)
  then show ?thesis by (simp add: shown_kube_def frozen_kube_def freeze_def mem_kube_def)
qed

theorem overdue_restarted_witness:
  "\<exists>next s' es ref e. ctl_run client_go stopped_runtime (NewIstioChangeReconciler (shown_kube []) stopped_runtime
       (frozen_transport demo) demo_options) frozen_start next s' \<and>
     cl_log (ct_world s') = cl_log demo @ es \<and> wr_nn ref = web_nn \<and> e \<in> set es \<and> restarts ref e"
proof -
  let ?k = "shown_kube []" and ?rec = "NewIstioChangeReconciler (shown_kube []) stopped_runtime (frozen_transport demo) demo_options"
  have "ctl_step client_go stopped_runtime ?rec demo_start (Event shop_event) frozen_start"
    by (simp add: ctl_event shop_event_requests demo_start_def frozen_start_def client_go_def)
  from ctl_run.more [OF ctl_run.start this] have event: "ctl_run client_go stopped_runtime ?rec demo_start [Event shop_event] frozen_start"
    by simp
  have "\<not> cl_cancelled (ct_world frozen_start)"
    by (simp add: frozen_start_def demo_start_def demo_def demo_at_def)
  moreover have "\<forall>f. Others f \<in> set [] \<longrightarrow> (\<forall>w. cl_log (f w) = cl_log w)" by simp
  moreover have "shop_request \<in> set (requests_for (ro_reconcile_period demo_options) shop_event)"
    by (simp add: shop_event_requests)
  moreover have "ns \<noteq> [] \<and> CHR ''_'' \<notin> set ns" if "shop_request = namespace_ReconcileRequest ns" for ns
    using that by (auto simp: shop_request_def namespace_ReconcileRequest_def)
  moreover have "is_duration (ro_annotation_cooldown demo_options)"
    by (simp add: demo_options_def is_duration_def min_duration_def max_duration_def)
  ultimately obtain "next" s' es where run: "ctl_run client_go stopped_runtime ?rec frozen_start next s'"
    and log: "cl_log (ct_world s') = cl_log (ct_world demo_start) @ es"
    and all: "all_restarted ?k stopped_runtime (frozen_transport demo) demo_options (request_limit shop_request) es"
    using overdue_restarted [OF cq.work_queue_axioms shown_running.reconciling_axioms shown_healthy
        frozen_answers.answering_webhook_axioms shown_wfp shown.installation_axioms shown_still.still_cluster_axioms
        refl demo_options_act demo_start_ok(1) ctl_run.start event _ _ _ _ shown_overdue stopped_clock]
    by blast
  have so: "scan_options_of ?rec (request_limit shop_request) = shop_scan"
    by (simp add: scan_options_of_def NewIstioChangeReconciler_def demo_options_def shop_scan_def shop_request_def
        request_limit_namespace)
  from all obtain cfg pods v v' where "config_read ?k cfg" "returns (listPods ?k stopped_runtime shop_scan) v (Inr pods) v'"
    and each: "\<forall>p \<in> set pods. \<forall>ref. om_namespace (p_meta p) \<notin> set (ro_skip_namespaces demo_options) \<longrightarrow> single_controller (p_meta p) \<longrightarrow>
       outdated ?k (CallWebhook ?k (frozen_transport demo)) cfg shop_scan p ref \<longrightarrow>
       (\<exists>p' \<in> set pods. \<exists>ref'. wr_nn ref' = wr_nn ref \<and> outdated ?k (CallWebhook ?k (frozen_transport demo)) cfg shop_scan p' ref' \<and>
          (\<exists>e \<in> set es. restarts ref' e))"
    unfolding all_restarted_def so by blast
  then have "pods = [web_pod]" "cfg = no_config" by (simp_all add: shown_frozen frozen_list frozen_config)
  moreover have "om_namespace (p_meta web_pod) \<notin> set (ro_skip_namespaces demo_options)" "single_controller (p_meta web_pod)"
    by (simp_all add: web_pod_def meta_def controller_def single_controller_def demo_options_def)
  ultimately obtain ref e where "wr_nn ref = wr_nn web_ref" "e \<in> set es" "restarts ref e"
    using each frozen_scan_finds by (fastforce simp: shown_frozen)
  moreover have "wr_nn web_ref = web_nn" by (simp add: web_ref_def)
  moreover have "cl_log (ct_world s') = cl_log demo @ es" using log by (simp add: demo_start_def)
  ultimately show ?thesis using run by metis
qed

end
