(* ===== verification/Manifests.thy ===== *)
theory Manifests
  imports CommandLine Demo
begin

text \<open>
  What the deployment gives the program: the cluster role of its service account
  (\<open>config/rbac/role.yaml\<close> and its copy in the Helm chart) and the arguments of its container
  (\<open>config/manager/manager.yaml\<close>, \<open>config/default\<close> and the chart's \<open>manager.yaml\<close>). The API server's
  authoriser and the conversions of flag values are parameters.
\<close>

section \<open>The cluster role\<close>

record policy_rule =
  pr_apiGroups :: "string list"
  pr_resources :: "string list"
  pr_verbs :: "string list"

definition manager_role :: "policy_rule list" where
  "manager_role =
     [\<lparr>pr_apiGroups = [''''], pr_resources = [''configmaps''], pr_verbs = [''get'', ''list'', ''watch'']\<rparr>,
      \<lparr>pr_apiGroups = [''''], pr_resources = [''namespaces''], pr_verbs = [''get'', ''list'', ''watch'']\<rparr>,
      \<lparr>pr_apiGroups = [''''], pr_resources = [''pods''], pr_verbs = [''list'', ''get'', ''watch'']\<rparr>,
      \<lparr>pr_apiGroups = [''apps''], pr_resources = [''deployments'', ''statefulsets'', ''daemonsets''],
       pr_verbs = [''get'', ''list'', ''watch'', ''patch'']\<rparr>,
      \<lparr>pr_apiGroups = [''apps''], pr_resources = [''replicasets'', ''controllerrevisions''],
       pr_verbs = [''get'', ''list'', ''watch'']\<rparr>,
      \<lparr>pr_apiGroups = [''coordination.k8s.io''], pr_resources = [''leases''],
       pr_verbs = [''get'', ''list'', ''watch'', ''create'', ''update'', ''patch'', ''delete'']\<rparr>,
      \<lparr>pr_apiGroups = [''''], pr_resources = [''events''], pr_verbs = [''create'', ''patch'']\<rparr>,
      \<lparr>pr_apiGroups = [''admissionregistration.k8s.io''], pr_resources = [''mutatingwebhookconfigurations''],
       pr_verbs = [''get'', ''list'', ''watch'']\<rparr>]"

definition chart_manager_role :: "policy_rule list" where
  "chart_manager_role =
     [\<lparr>pr_apiGroups = [''''], pr_resources = [''configmaps''], pr_verbs = [''get'', ''list'', ''watch'']\<rparr>,
      \<lparr>pr_apiGroups = [''''], pr_resources = [''namespaces''], pr_verbs = [''get'', ''list'', ''watch'']\<rparr>,
      \<lparr>pr_apiGroups = [''''], pr_resources = [''pods''], pr_verbs = [''list'', ''get'', ''watch'']\<rparr>,
      \<lparr>pr_apiGroups = [''apps''], pr_resources = [''deployments'', ''statefulsets'', ''daemonsets''],
       pr_verbs = [''get'', ''list'', ''watch'', ''patch'']\<rparr>,
      \<lparr>pr_apiGroups = [''apps''], pr_resources = [''replicasets'', ''controllerrevisions''],
       pr_verbs = [''get'', ''list'', ''watch'']\<rparr>,
      \<lparr>pr_apiGroups = [''coordination.k8s.io''], pr_resources = [''leases''],
       pr_verbs = [''get'', ''list'', ''watch'', ''create'', ''update'', ''patch'', ''delete'']\<rparr>,
      \<lparr>pr_apiGroups = [''''], pr_resources = [''events''], pr_verbs = [''create'', ''patch'']\<rparr>,
      \<lparr>pr_apiGroups = [''admissionregistration.k8s.io''], pr_resources = [''mutatingwebhookconfigurations''],
       pr_verbs = [''get'', ''list'', ''watch'']\<rparr>]"

text \<open>A role without wildcards grants what one of its rules lists.\<close>

type_synonym authoriser = "string \<Rightarrow> string \<Rightarrow> string \<Rightarrow> bool"

definition role_grants :: "policy_rule list \<Rightarrow> authoriser" where
  "role_grants rules grp resource verb \<longleftrightarrow>
     list_ex (\<lambda>rule. grp \<in> set (pr_apiGroups rule) \<and> resource \<in> set (pr_resources rule) \<and> verb \<in> set (pr_verbs rule)) rules"

text \<open>
  The client with an authoriser in front of it. Reading needs \<open>get\<close>, and \<open>list\<close> and \<open>watch\<close> for the
  caches from which the manager's client answers.
\<close>

definition may_read :: "authoriser \<Rightarrow> string \<Rightarrow> string \<Rightarrow> bool" where
  "may_read allowed grp resource \<longleftrightarrow>
     allowed grp resource ''get'' \<and> allowed grp resource ''list'' \<and> allowed grp resource ''watch''"

fun workload_resource :: "wtype \<Rightarrow> string" where
  "workload_resource DeploymentT = ''deployments''"
| "workload_resource StatefulSetT = ''statefulsets''"
| "workload_resource DaemonSetT = ''daemonsets''"

definition checked :: "bool \<Rightarrow> 'e \<Rightarrow> ('w \<Rightarrow> 'e \<times> 'w) \<Rightarrow> 'w \<Rightarrow> 'e \<times> 'w" where
  "checked ok refusal f w = (if ok then f w else (refusal, w))"

definition authorised :: "authoriser \<Rightarrow> goerror \<Rightarrow> 'w kube \<Rightarrow> 'w kube" where
  "authorised allowed forbidden k =
     \<lparr>kGetWorkload = (\<lambda>ty nn. checked (may_read allowed ''apps'' (workload_resource ty)) (Inl forbidden) (kGetWorkload k ty nn)),
      kGetReplicaSet = (\<lambda>nn. checked (may_read allowed ''apps'' ''replicasets'') (Inl forbidden) (kGetReplicaSet k nn)),
      kGetControllerRevision =
        (\<lambda>nn. checked (may_read allowed ''apps'' ''controllerrevisions'') (Inl forbidden) (kGetControllerRevision k nn)),
      kGetNamespace = (\<lambda>ns. checked (may_read allowed '''' ''namespaces'') (Inl forbidden) (kGetNamespace k ns)),
      kGetMWC = (\<lambda>name. checked (may_read allowed ''admissionregistration.k8s.io'' ''mutatingwebhookconfigurations'')
        (Inl forbidden) (kGetMWC k name)),
      kListPods = (\<lambda>nso. checked (may_read allowed '''' ''pods'') (Inl forbidden) (kListPods k nso)),
      kListConfigMaps = (\<lambda>nso. checked (may_read allowed '''' ''configmaps'') (Inl forbidden) (kListConfigMaps k nso)),
      kListMWCs = checked (may_read allowed ''admissionregistration.k8s.io'' ''mutatingwebhookconfigurations'')
        (Inl forbidden) (kListMWCs k),
      kMergePatch = (\<lambda>ty nn doc. checked (allowed ''apps'' (workload_resource ty) ''patch'') (Some forbidden) (kMergePatch k ty nn doc))\<rparr>"

fun watched_resource :: "watched_kind \<Rightarrow> string \<times> string" where
  "watched_resource ConfigMapKind = ('''', ''configmaps'')"
| "watched_resource MWCKind = (''admissionregistration.k8s.io'', ''mutatingwebhookconfigurations'')"
| "watched_resource NamespaceKind = ('''', ''namespaces'')"

lemma checked_True [simp]: "checked True refusal f = f"
  by (rule ext) (simp add: checked_def)

lemma role_grants_Cons:
  "role_grants (rule # rules) g r v \<longleftrightarrow>
     (g \<in> set (pr_apiGroups rule) \<and> r \<in> set (pr_resources rule) \<and> v \<in> set (pr_verbs rule)) \<or> role_grants rules g r v"
  by (simp add: role_grants_def)

lemma manager_role_reads_core:
  "may_read (role_grants manager_role) [] ''namespaces''"
  "may_read (role_grants manager_role) [] ''pods''"
  "may_read (role_grants manager_role) [] ''configmaps''"
  "may_read (role_grants manager_role) ''admissionregistration.k8s.io'' ''mutatingwebhookconfigurations''"
  by (simp_all add: may_read_def role_grants_Cons manager_role_def)

lemma manager_role_reads_apps:
  "may_read (role_grants manager_role) ''apps'' ''replicasets''"
  "may_read (role_grants manager_role) ''apps'' ''controllerrevisions''"
  by (simp_all add: may_read_def role_grants_Cons manager_role_def)

lemma manager_role_workloads:
  shows manager_role_workloads_read: "may_read (role_grants manager_role) ''apps'' (workload_resource ty)"
    and manager_role_workloads_patch: "role_grants manager_role ''apps'' (workload_resource ty) ''patch''"
  by (induction ty) (simp_all add: may_read_def role_grants_Cons manager_role_def)

lemmas manager_role_reads = manager_role_reads_core manager_role_reads_apps manager_role_workloads

lemma may_read_mono:
  "(\<And>g r v. allowed g r v \<Longrightarrow> allowed' g r v) \<Longrightarrow> may_read allowed grp resource \<Longrightarrow> may_read allowed' grp resource"
  by (auto simp: may_read_def)

lemma authorised_manager:
  assumes "\<And>g r v. role_grants manager_role g r v \<Longrightarrow> allowed g r v"
  shows "authorised allowed forbidden k = k"
proof -
  have "may_read allowed grp resource" if "may_read (role_grants manager_role) grp resource" for grp resource
    using may_read_mono assms that by metis
  then show ?thesis
    using manager_role_reads assms by (simp add: authorised_def)
qed

text \<open>The grants of a role, one by one.\<close>

definition grants :: "policy_rule list \<Rightarrow> (string \<times> string \<times> string) list" where
  "grants rules =
     concat (map (\<lambda>rule. concat (map (\<lambda>g. concat (map (\<lambda>r. map (\<lambda>v. (g, r, v)) (pr_verbs rule)) (pr_resources rule)))
       (pr_apiGroups rule))) rules)"

lemma role_grants_iff: "role_grants rules g r v \<longleftrightarrow> (g, r, v) \<in> set (grants rules)"
  by (auto simp: role_grants_def grants_def list_ex_iff)

definition write_grants :: "policy_rule list \<Rightarrow> (string \<times> string \<times> string) list" where
  "write_grants rules = filter (\<lambda>(g, r, v). v \<notin> {''get'', ''list'', ''watch''}) (grants rules)"

lemma write_grants_manager:
  "write_grants manager_role =
     [(''apps'', ''deployments'', ''patch''), (''apps'', ''statefulsets'', ''patch''), (''apps'', ''daemonsets'', ''patch''),
      (''coordination.k8s.io'', ''leases'', ''create''), (''coordination.k8s.io'', ''leases'', ''update''),
      (''coordination.k8s.io'', ''leases'', ''patch''), (''coordination.k8s.io'', ''leases'', ''delete''),
      ([], ''events'', ''create''), ([], ''events'', ''patch'')]"
  by (simp add: write_grants_def grants_def manager_role_def)

lemma workload_resources: "r \<in> {''deployments'', ''statefulsets'', ''daemonsets''} \<Longrightarrow> \<exists>ty. r = workload_resource ty"
  by (metis workload_resource.simps insertE singletonD)

lemma manager_role_writes:
  assumes "role_grants manager_role g r v" and "v \<notin> {''get'', ''list'', ''watch''}"
  shows "(\<exists>ty. g = ''apps'' \<and> r = workload_resource ty \<and> v = ''patch'') \<or> r \<in> {''leases'', ''events''}"
proof -
  have granted: "(g, r, v) \<in> set (write_grants manager_role)"
    using assms by (simp add: write_grants_def role_grants_iff)
  have all: "list_all (\<lambda>(g, r, v). g = ''apps'' \<and> v = ''patch'' \<and> r \<in> {''deployments'', ''statefulsets'', ''daemonsets''} \<or>
      r \<in> {''leases'', ''events''}) (write_grants manager_role)"
    by (simp add: write_grants_manager)
  from bspec [OF all [unfolded list_all_iff] granted] have "(g = ''apps'' \<and> v = ''patch'' \<and> r \<in> {''deployments'', ''statefulsets'', ''daemonsets''}) \<or> r \<in> {''leases'', ''events''}"
    by (simp only: prod.case)
  then show ?thesis
  proof
    assume a: "g = ''apps'' \<and> v = ''patch'' \<and> r \<in> {''deployments'', ''statefulsets'', ''daemonsets''}"
    with workload_resources obtain ty where "r = workload_resource ty" by blast
    with a show ?thesis by (intro disjI1 exI [of _ ty]) simp
  qed (rule disjI2)
qed

text \<open>
  C21. The cluster role that is deployed fits the program. With an authoriser that grants what the role
  lists, in front of the API client, a reconciliation does what it does without one, and the
  watches of the controller may be opened; the role grants no write but patches of the three kinds
  of workloads and the leases and events of leader election; the chart deploys the same role.
\<close>

theorem manager_role_fits:
  assumes "\<And>g r v. role_grants manager_role g r v \<Longrightarrow> allowed g r v"
  shows "Reconcile rt (NewIstioChangeReconciler (authorised allowed forbidden k) rt tr opts) req =
       Reconcile rt (NewIstioChangeReconciler k rt tr opts) req \<and>
    (\<forall>wt \<in> set (cb_watches (istio_change_builder rec)).
       case watched_resource (wt_kind wt) of (grp, resource) \<Rightarrow> may_read allowed grp resource) \<and>
    (\<forall>g r v. role_grants manager_role g r v \<longrightarrow> v \<notin> {''get'', ''list'', ''watch''} \<longrightarrow>
       (\<exists>ty. g = ''apps'' \<and> r = workload_resource ty \<and> v = ''patch'') \<or> r \<in> {''leases'', ''events''}) \<and>
    chart_manager_role = manager_role"
proof (intro conjI)
  have may: "may_read allowed grp resource" if "may_read (role_grants manager_role) grp resource" for grp resource
    using may_read_mono assms that by metis
  show "Reconcile rt (NewIstioChangeReconciler (authorised allowed forbidden k) rt tr opts) req =
      Reconcile rt (NewIstioChangeReconciler k rt tr opts) req"
    by (simp only: authorised_manager [OF assms])
  show "\<forall>wt \<in> set (cb_watches (istio_change_builder rec)).
      case watched_resource (wt_kind wt) of (grp, resource) \<Rightarrow> may_read allowed grp resource"
    using may [OF manager_role_reads_core(1)] may [OF manager_role_reads_core(3)] may [OF manager_role_reads_core(4)]
    by (simp add: istio_change_builder_def Let_def)
  show "\<forall>g r v. role_grants manager_role g r v \<longrightarrow> v \<notin> {''get'', ''list'', ''watch''} \<longrightarrow>
       (\<exists>ty. g = ''apps'' \<and> r = workload_resource ty \<and> v = ''patch'') \<or> r \<in> {''leases'', ''events''}"
    using manager_role_writes by blast
qed (simp add: chart_manager_role_def manager_role_def)

theorem manager_role_fits_witness:
  "Reconcile mem_runtime (NewIstioChangeReconciler (authorised (role_grants manager_role) (Errorf ''forbidden'') mem_kube)
     mem_runtime mem_transport demo_options) shop_request demo = Some (Return (Inr ()), demo_after (63835596810 * second))"
  using manager_role_fits [of "role_grants manager_role" mem_runtime "Errorf ''forbidden''" mem_kube mem_transport demo_options,
      THEN conjunct1, of shop_request] demo_reconcile [of "63835596800 * second"]
  by (simp add: returns_def demo_reconciler_def demo_def)


section \<open>The arguments of the container\<close>

text \<open>
  The chart's values, as far as its arguments use them; one that is absent or null is \<open>None\<close>. The
  template function \<open>default\<close> takes an absent or an empty value for its default: the empty text, the
  number 0 and \<open>false\<close> are empty.
\<close>

datatype chart_value = VString string | VNumber int | VBool bool

fun empty_value :: "chart_value \<Rightarrow> bool" where
  "empty_value (VString s) = (s = [])"
| "empty_value (VNumber n) = (n = 0)"
| "empty_value (VBool b) = (\<not> b)"

definition or_default :: "chart_value \<Rightarrow> chart_value option \<Rightarrow> chart_value" where
  "or_default d v = (case v of Some x \<Rightarrow> if empty_value x then d else x | None \<Rightarrow> d)"

definition bool_text :: "bool \<Rightarrow> string" where
  "bool_text b = (if b then ''true'' else ''false'')"

fun value_text :: "chart_value \<Rightarrow> string" where
  "value_text (VString s) = s"
| "value_text (VNumber n) = int_dec n"
| "value_text (VBool b) = bool_text b"

text \<open>
  The rendered template is YAML. An argument there is a plain scalar, which begins with two dashes, and
  is read back as it is written when it has no characters that YAML or its folding give a meaning;
  numbers below a million are printed in decimal. What a value beyond that becomes is not modelled.
\<close>

definition plain_char :: "char \<Rightarrow> bool" where
  "plain_char c \<longleftrightarrow> c \<in> set ''abcdefghijklmnopqrstuvwxyzABCDEFGHIJKLMNOPQRSTUVWXYZ0123456789.,-_/''"

fun renders :: "chart_value \<Rightarrow> bool" where
  "renders (VString s) = list_all plain_char s"
| "renders (VNumber n) = (0 \<le> n \<and> n < 1000000)"
| "renders (VBool b) = True"

text \<open>An extra argument: two dashes, a name, and possibly a value after an equals sign.\<close>

definition renders_arg :: "chart_value \<Rightarrow> bool" where
  "renders_arg v \<longleftrightarrow>
     (case v of VString s \<Rightarrow> has_prefix s ''--'' \<and> 2 < length s \<and> list_all (\<lambda>c. plain_char c \<or> c = CHR ''='') s | _ \<Rightarrow> False)"

record chart_values =
  cv_metrics_enable :: "chart_value option"
  cv_metrics_port :: "chart_value option"
  cv_reconcilePeriod :: "chart_value option"
  cv_dryRun :: "chart_value option"
  cv_compareHub :: "chart_value option"
  cv_restartDelay :: "chart_value option"
  cv_istiodConfigReadDelay :: "chart_value option"
  cv_annotationCooldown :: "chart_value option"
  cv_skipNamespaces :: "chart_value option"
  cv_args :: "chart_value list"

definition flag_arg :: "string \<Rightarrow> string \<Rightarrow> string" where
  "flag_arg name val = ''--'' @ name @ ''='' @ val"

definition metrics_enabled :: "chart_values \<Rightarrow> bool" where
  "metrics_enabled vals \<longleftrightarrow> (case cv_metrics_enable vals of Some x \<Rightarrow> \<not> empty_value x | None \<Rightarrow> False)"

definition chart_renders :: "chart_values \<Rightarrow> bool" where
  "chart_renders vals \<longleftrightarrow>
     (metrics_enabled vals \<longrightarrow>
       (case cv_metrics_port vals of Some port \<Rightarrow> renders port \<and> value_text port \<noteq> [] | None \<Rightarrow> False)) \<and>
     list_all (\<lambda>v. case v of Some x \<Rightarrow> renders x | None \<Rightarrow> True)
       [cv_reconcilePeriod vals, cv_dryRun vals, cv_compareHub vals, cv_restartDelay vals, cv_istiodConfigReadDelay vals,
        cv_annotationCooldown vals, cv_skipNamespaces vals] \<and>
     list_all renders_arg (cv_args vals)"

definition chart_args :: "chart_values \<Rightarrow> string list option" where
  "chart_args vals =
     (if chart_renders vals then Some
        ([if metrics_enabled vals
          then flag_arg ''metrics-bind-address'' ('':'' @ (case cv_metrics_port vals of Some port \<Rightarrow> value_text port | None \<Rightarrow> []))
          else flag_arg ''metrics-bind-address'' ''0'',
          flag_arg ''health-probe-bind-address'' '':8081'',
          flag_arg ''reconcile-period'' (value_text (or_default (VString ''10h'') (cv_reconcilePeriod vals))),
          flag_arg ''dry-run'' (value_text (or_default (VBool False) (cv_dryRun vals))),
          flag_arg ''compare-hub'' (value_text (or_default (VBool False) (cv_compareHub vals))),
          flag_arg ''restart-delay'' (value_text (or_default (VString ''10s'') (cv_restartDelay vals))),
          flag_arg ''istiod-config-read-delay'' (value_text (or_default (VString ''10s'') (cv_istiodConfigReadDelay vals))),
          flag_arg ''annotation-cooldown'' (value_text (or_default (VString ''5m'') (cv_annotationCooldown vals))),
          flag_arg ''skip-namespaces''
            (value_text (or_default (VString ''kube-system,istio-system'') (cv_skipNamespaces vals)))]
         @ map value_text (cv_args vals))
      else None)"

definition chart_defaults :: chart_values where
  "chart_defaults =
     \<lparr>cv_metrics_enable = Some (VBool True), cv_metrics_port = Some (VNumber 8443), cv_reconcilePeriod = Some (VString ''10h''),
      cv_dryRun = Some (VBool False), cv_compareHub = Some (VBool False), cv_restartDelay = Some (VString ''10s''),
      cv_istiodConfigReadDelay = Some (VString ''10s''), cv_annotationCooldown = Some (VString ''5m''),
      cv_skipNamespaces = Some (VString ''kube-system,istio-system''), cv_args = [VString ''--leader-elect'']\<rparr>"

text \<open>The container's arguments in \<open>config/manager\<close>, with the patch of \<open>config/default\<close> in front.\<close>

definition manager_args :: "string list" where
  "manager_args =
     [''--leader-elect'', ''--health-probe-bind-address=:8081'', ''--annotation-cooldown=5m'', ''--zap-devel'']"

definition default_args :: "string list" where
  "default_args = ''--metrics-bind-address=:8443'' # manager_args"

text \<open>
  What pflag documents for arguments of the forms \<open>--name=value\<close> and, for a boolean, \<open>--name\<close>: the
  last one for a flag counts. Flags that \<open>main\<close> does not declare are zap's.
\<close>

definition split_flag :: "string \<Rightarrow> (string \<times> string option) option" where
  "split_flag arg =
     (if has_prefix arg ''--'' then
        (case index_of (CHR ''='') (drop 2 arg) of
           Some i \<Rightarrow> Some (take i (drop 2 arg), Some (drop (Suc i) (drop 2 arg)))
         | None \<Rightarrow> Some (drop 2 arg, None))
      else None)"

definition set_flag :: "(flag_value \<Rightarrow> string \<Rightarrow> flag_value) \<Rightarrow> string \<Rightarrow> (string \<rightharpoonup> flag_value) \<Rightarrow> (string \<rightharpoonup> flag_value)" where
  "set_flag cast arg m =
     (case split_flag arg of
        None \<Rightarrow> m
      | Some (name, val) \<Rightarrow>
          (case map_of flags name of
             None \<Rightarrow> m
           | Some dflt \<Rightarrow> m(name \<mapsto> cast dflt (case val of Some s \<Rightarrow> s | None \<Rightarrow> ''true''))))"

definition flags_given :: "(flag_value \<Rightarrow> string \<Rightarrow> flag_value) \<Rightarrow> string list \<Rightarrow> (string \<rightharpoonup> flag_value)" where
  "flags_given cast args = fold (set_flag cast) args Map.empty"

text \<open>
  The conversions: strings as they are, booleans by \<open>truth\<close>, which knows the texts of the two
  booleans, durations by \<open>dur\<close>.
\<close>

definition converts :: "(flag_value \<Rightarrow> string \<Rightarrow> flag_value) \<Rightarrow> (string \<Rightarrow> bool) \<Rightarrow> (string \<Rightarrow> duration) \<Rightarrow> bool" where
  "converts cast truth dur \<longleftrightarrow>
     (\<forall>d s. cast (StringFlag d) s = StringFlag s) \<and> (\<forall>d s. cast (BoolFlag d) s = BoolFlag (truth s)) \<and>
     (\<forall>d s. cast (DurationFlag d) s = DurationFlag (dur s)) \<and> (\<forall>b. truth (bool_text b) = b)"

lemma split_flag_arg: "CHR ''='' \<notin> set name \<Longrightarrow> split_flag (flag_arg name val) = Some (name, Some val)"
  by (simp add: split_flag_def flag_arg_def has_prefix_def index_of_append)

lemma set_flag_arg:
  assumes "map_of flags name = Some dflt" and "CHR ''='' \<notin> set name"
  shows "set_flag cast (flag_arg name val) m = m(name \<mapsto> cast dflt val)"
  using assms by (simp add: set_flag_def split_flag_arg)

lemma set_flag_other: "(\<forall>val. split_flag arg \<noteq> Some (name, val)) \<Longrightarrow> set_flag cast arg m name = m name"
  by (auto simp: set_flag_def split: option.split)

lemma fold_set_flag_other:
  "\<forall>arg \<in> set args. \<forall>val. split_flag arg \<noteq> Some (name, val) \<Longrightarrow> fold (set_flag cast) args m name = m name"
  by (induction args arbitrary: m) (simp_all add: set_flag_other)

lemma flags_declared:
  "map_of flags ''metrics-bind-address'' = Some (StringFlag '':8080'')"
  "map_of flags ''health-probe-bind-address'' = Some (StringFlag '':8081'')"
  "map_of flags ''reconcile-period'' = Some (DurationFlag 0)"
  "map_of flags ''dry-run'' = Some (BoolFlag False)"
  "map_of flags ''compare-hub'' = Some (BoolFlag False)"
  "map_of flags ''restart-delay'' = Some (DurationFlag 0)"
  "map_of flags ''istiod-config-read-delay'' = Some (DurationFlag (10 * second))"
  "map_of flags ''annotation-cooldown'' = Some (DurationFlag (5 * (60 * second)))"
  "map_of flags ''skip-namespaces'' = Some (StringFlag ''kube-system,istio-system'')"
  by (simp_all add: flags_def)

definition option_flags :: "string list" where
  "option_flags =
     [''reconcile-period'', ''dry-run'', ''compare-hub'', ''restart-delay'', ''istiod-config-read-delay'',
      ''annotation-cooldown'', ''skip-namespaces'']"

text \<open>
  C22. What the chart's values say is what the program runs with. For values whose rendering is modelled,
  each option of the reconciler is the conversion of the value of its name in the chart, or of the
  chart's default where that is absent or empty (an empty text, the number 0, \<open>false\<close>), whatever the
  environment. The hypotheses are those on the conversions, and that the extra arguments do not set
  these flags again.
\<close>

theorem chart_values_reach_options:
  assumes "converts cast truth dur" and "chart_args vals = Some args"
    and "\<forall>arg \<in> set (cv_args vals). \<forall>name \<in> set option_flags. \<forall>val. split_flag (value_text arg) \<noteq> Some (name, val)"
  shows "reconciler_options_of (viper_of (given_by cast (flags_given cast args) env)) =
    \<lparr>ro_dry_run = truth (value_text (or_default (VBool False) (cv_dryRun vals))),
     ro_compare_hub = truth (value_text (or_default (VBool False) (cv_compareHub vals))),
     ro_restart_delay = dur (value_text (or_default (VString ''10s'') (cv_restartDelay vals))),
     ro_istiod_config_read_delay = dur (value_text (or_default (VString ''10s'') (cv_istiodConfigReadDelay vals))),
     ro_annotation_cooldown = dur (value_text (or_default (VString ''5m'') (cv_annotationCooldown vals))),
     ro_skip_namespaces =
       parseSkipNamespaces (value_text (or_default (VString ''kube-system,istio-system'') (cv_skipNamespaces vals))),
     ro_reconcile_period = dur (value_text (or_default (VString ''10h'') (cv_reconcilePeriod vals)))\<rparr>"
proof -
  let ?t = "\<lambda>d v. value_text (or_default d v)"
  let ?port = "case cv_metrics_port vals of Some port \<Rightarrow> value_text port | None \<Rightarrow> []"
  let ?m = "Map.empty(
     ''metrics-bind-address'' \<mapsto> StringFlag (if metrics_enabled vals then '':'' @ ?port else ''0''),
     ''health-probe-bind-address'' \<mapsto> StringFlag '':8081'',
     ''reconcile-period'' \<mapsto> DurationFlag (dur (?t (VString ''10h'') (cv_reconcilePeriod vals))),
     ''dry-run'' \<mapsto> BoolFlag (truth (?t (VBool False) (cv_dryRun vals))),
     ''compare-hub'' \<mapsto> BoolFlag (truth (?t (VBool False) (cv_compareHub vals))),
     ''restart-delay'' \<mapsto> DurationFlag (dur (?t (VString ''10s'') (cv_restartDelay vals))),
     ''istiod-config-read-delay'' \<mapsto> DurationFlag (dur (?t (VString ''10s'') (cv_istiodConfigReadDelay vals))),
     ''annotation-cooldown'' \<mapsto> DurationFlag (dur (?t (VString ''5m'') (cv_annotationCooldown vals))),
     ''skip-namespaces'' \<mapsto> StringFlag (?t (VString ''kube-system,istio-system'') (cv_skipNamespaces vals)))"
  have "flags_given cast args = fold (set_flag cast) (map value_text (cv_args vals)) ?m"
    using assms(1,2) by (auto simp: flags_given_def chart_args_def converts_def set_flag_arg [OF flags_declared(1)]
        set_flag_arg [OF flags_declared(2)] set_flag_arg [OF flags_declared(3)] set_flag_arg [OF flags_declared(4)]
        set_flag_arg [OF flags_declared(5)] set_flag_arg [OF flags_declared(6)] set_flag_arg [OF flags_declared(7)]
        set_flag_arg [OF flags_declared(8)] set_flag_arg [OF flags_declared(9)] split: if_split_asm)
  then have given: "flags_given cast args name = ?m name" if "name \<in> set option_flags" for name
    using fold_set_flag_other [of "map value_text (cv_args vals)" name cast ?m] assms(3) that by simp
  have "given_by cast (flags_given cast args) env name = ?m name" if "name \<in> set option_flags" for name
    using given [OF that] that by (auto simp: given_by_def option_flags_def)
  then show ?thesis
    by (simp add: option_flags_def reconciler_options_of_def viper_of_def given_or_default_def)
qed

text \<open>A conversion for the example, which knows the durations of the chart's defaults.\<close>

definition demo_dur :: "string \<Rightarrow> duration" where
  "demo_dur s = (if s = ''10h'' then 36000 * second else if s = ''10s'' then 10 * second else 300 * second)"

fun demo_cast :: "flag_value \<Rightarrow> string \<Rightarrow> flag_value" where
  "demo_cast (StringFlag _) s = StringFlag s"
| "demo_cast (BoolFlag _) s = BoolFlag (s = ''true'')"
| "demo_cast (DurationFlag _) s = DurationFlag (demo_dur s)"

lemma demo_converts: "converts demo_cast (\<lambda>s. s = ''true'') demo_dur"
  by (simp add: converts_def bool_text_def)

text \<open>The chart as it is delivered, but with the number 0 for a period and a lone comma for the namespaces.\<close>

definition zero_values :: chart_values where
  "zero_values = chart_defaults\<lparr>cv_reconcilePeriod := Some (VNumber 0), cv_dryRun := Some (VBool True),
     cv_skipNamespaces := Some (VString '','')\<rparr>"

lemma plain_texts:
  "renders (VString ''10s'')" "renders (VString ''5m'')" "renders (VString '','')" "renders_arg (VString ''--leader-elect'')"
  by code_simp+

lemma zero_values_render: "chart_renders zero_values"
proof -
  have "int_dec 8443 \<noteq> []" by (simp add: int_dec_def nat_dec_step)
  with plain_texts show ?thesis
    by (simp add: chart_renders_def zero_values_def chart_defaults_def metrics_enabled_def del: renders.simps(1))
qed

lemma trim_space_Nil: "trim_space [] = []"
proof -
  have "List.find (\<lambda>sp. has_prefix [] sp \<and> sp \<noteq> []) go_spaces = None" "List.find (\<lambda>sp. has_suffix [] sp \<and> sp \<noteq> []) go_spaces = None"
    by (auto simp: find_None_iff has_prefix_def has_suffix_def)
  then show ?thesis
    by (simp add: trim_space_def trim_left_space.simps [of "[]"] trim_right_space.simps [of "[]"])
qed

theorem chart_values_reach_options_witness:
  "\<exists>args. chart_args zero_values = Some args \<and>
    reconciler_options_of (viper_of (given_by demo_cast (flags_given demo_cast args) Map.empty)) =
    \<lparr>ro_dry_run = True, ro_compare_hub = False, ro_restart_delay = 10 * second,
     ro_istiod_config_read_delay = 10 * second, ro_annotation_cooldown = 300 * second,
     ro_skip_namespaces = [], ro_reconcile_period = 36000 * second\<rparr>"
proof -
  obtain args where args: "chart_args zero_values = Some args"
    using zero_values_render by (simp add: chart_args_def)
  have "\<forall>arg \<in> set (cv_args zero_values). \<forall>name \<in> set option_flags. \<forall>val. split_flag (value_text arg) \<noteq> Some (name, val)"
    by (simp add: zero_values_def chart_defaults_def option_flags_def split_flag_def has_prefix_def index_of_absent)
  from chart_values_reach_options [OF demo_converts args this, of Map.empty]
  have "reconciler_options_of (viper_of (given_by demo_cast (flags_given demo_cast args) Map.empty)) =
    \<lparr>ro_dry_run = True, ro_compare_hub = False, ro_restart_delay = 10 * second,
     ro_istiod_config_read_delay = 10 * second, ro_annotation_cooldown = 300 * second,
     ro_skip_namespaces = parseSkipNamespaces '','', ro_reconcile_period = 36000 * second\<rparr>"
    by (simp add: zero_values_def chart_defaults_def or_default_def demo_dur_def bool_text_def)
  moreover have "parseSkipNamespaces '','' = []" by (simp add: parseSkipNamespaces_def trim_space_Nil)
  ultimately show ?thesis using args by auto
qed

text \<open>The manifests of \<open>config\<close> run the program with the defaults of its flags.\<close>

lemma manifest_runs_defaults:
  assumes "converts cast truth dur" and "dur ''5m'' = 5 * (60 * second)"
  shows "reconciler_options_of (viper_of (flags_given cast default_args)) = reconciler_options_of (viper_of Map.empty)"
proof -
  have conv: "cast (BoolFlag d) ''true'' = BoolFlag True" "cast (StringFlag e) s = StringFlag s" "cast (DurationFlag n) s = DurationFlag (dur s)"
    for d e n s
    using assms(1) by (simp_all add: converts_def) (metis bool_text_def)
  have "flags_given cast default_args =
    [''metrics-bind-address'' \<mapsto> StringFlag '':8443'', ''leader-elect'' \<mapsto> BoolFlag True,
     ''health-probe-bind-address'' \<mapsto> StringFlag '':8081'', ''annotation-cooldown'' \<mapsto> DurationFlag (5 * (60 * second))]"
    by (simp add: flags_given_def default_args_def manager_args_def set_flag_def split_flag_def has_prefix_def
        index_of_append flags_def conv assms(2))
  then show ?thesis
    by (simp add: reconciler_options_of_def viper_of_def given_or_default_def flags_declared)
qed

end
