(* ===== verification/Watches.thy ===== *)
theory Watches
  imports Cluster Demo
begin

text \<open>
  What the watches cover. The reconciliation reads two tables off the cluster, that of the last
  modifications of the revisions and that of the tags. When one of them changes, the change of the
  cluster is an event for which the watches ask for a reconciliation of the whole cluster.
\<close>

section \<open>Changes of a collection\<close>

text \<open>
  The events for a change from one collection of objects to another, as the API server documents
  them: objects are told apart by namespace and name; an object that is new is created, one that is
  gone was deleted, one that differs was updated.
\<close>

definition object_key :: "object_meta \<Rightarrow> string \<times> string" where
  "object_key m = (om_namespace m, om_name m)"

definition change_events :: "('o \<Rightarrow> object_meta) \<Rightarrow> 'o list \<Rightarrow> 'o list \<Rightarrow> event set" where
  "change_events obj_meta old new =
     {CreateEvent (obj_meta y) | y. y \<in> set new \<and> (\<forall>x \<in> set old. object_key (obj_meta x) \<noteq> object_key (obj_meta y))} \<union>
     {DeleteEvent (obj_meta x) | x. x \<in> set old \<and> (\<forall>y \<in> set new. object_key (obj_meta y) \<noteq> object_key (obj_meta x))} \<union>
     {UpdateEvent (obj_meta x) (obj_meta y) | x y.
        x \<in> set old \<and> y \<in> set new \<and> object_key (obj_meta x) = object_key (obj_meta y) \<and> x \<noteq> y}"

text \<open>
  A filter that looks at namespace and name alone: when no event of a change passes it, the objects
  that pass it are the same before and after.
\<close>

lemma change_eventsI:
  "y \<in> set new \<Longrightarrow> \<forall>x \<in> set old. object_key (obj_meta x) \<noteq> object_key (obj_meta y) \<Longrightarrow>
     CreateEvent (obj_meta y) \<in> change_events obj_meta old new"
  "x \<in> set old \<Longrightarrow> \<forall>y \<in> set new. object_key (obj_meta y) \<noteq> object_key (obj_meta x) \<Longrightarrow>
     DeleteEvent (obj_meta x) \<in> change_events obj_meta old new"
  "x \<in> set old \<Longrightarrow> y \<in> set new \<Longrightarrow> object_key (obj_meta x) = object_key (obj_meta y) \<Longrightarrow> x \<noteq> y \<Longrightarrow>
     UpdateEvent (obj_meta x) (obj_meta y) \<in> change_events obj_meta old new"
  unfolding change_events_def by blast+

lemma unseen_change:
  assumes key: "\<And>m m'. object_key m = object_key m' \<Longrightarrow> F m = F m'"
    and none: "\<And>e. e \<in> change_events obj_meta old new \<Longrightarrow> \<not> predicate_funcs F e"
  shows "{x \<in> set old. F (obj_meta x)} = {x \<in> set new. F (obj_meta x)}"
proof (intro set_eqI iffI; clarsimp)
  fix x assume x: "x \<in> set old" "F (obj_meta x)"
  have "\<exists>y \<in> set new. object_key (obj_meta y) = object_key (obj_meta x)"
  proof (rule ccontr)
    assume "\<not> ?thesis"
    with x change_eventsI(2) [of x old new obj_meta] have "DeleteEvent (obj_meta x) \<in> change_events obj_meta old new" by blast
    from none [OF this] x(2) show False by simp
  qed
  then obtain y where y: "y \<in> set new" "object_key (obj_meta y) = object_key (obj_meta x)" by blast
  have "x = y"
  proof (rule ccontr)
    assume "x \<noteq> y"
    from change_eventsI(3) [OF x(1) y(1) y(2) [symmetric] this] have "UpdateEvent (obj_meta x) (obj_meta y) \<in> change_events obj_meta old new" .
    from none [OF this] key [OF y(2)] x(2) show False by simp
  qed
  with y show "x \<in> set new" by simp
next
  fix y assume y: "y \<in> set new" "F (obj_meta y)"
  have "\<exists>x \<in> set old. object_key (obj_meta x) = object_key (obj_meta y)"
  proof (rule ccontr)
    assume "\<not> ?thesis"
    with y change_eventsI(1) [of y new old obj_meta] have "CreateEvent (obj_meta y) \<in> change_events obj_meta old new" by blast
    from none [OF this] y(2) show False by simp
  qed
  then obtain x where x: "x \<in> set old" "object_key (obj_meta x) = object_key (obj_meta y)" by blast
  have "x = y"
  proof (rule ccontr)
    assume "x \<noteq> y"
    from change_eventsI(3) [OF x(1) y(1) x(2) this] have "UpdateEvent (obj_meta x) (obj_meta y) \<in> change_events obj_meta old new" .
    from none [OF this] y(2) show False by simp
  qed
  with x show "y \<in> set old" by simp
qed


section \<open>The two tables\<close>

lemma configmap_Filter_object: "object_key m = object_key m' \<Longrightarrow> configmap_Filter m = configmap_Filter m'"
  and mwc_Filter_object: "object_key m = object_key m' \<Longrightarrow> mwc_Filter m = mwc_Filter m'"
  by (simp_all add: configmap_Filter_def mwc_Filter_def object_key_def)

lemma enqueue_single: "enqueue_from_map (\<lambda>obj. [r]) e = [r]"
  by (cases e) simp_all

lemma times_of_watched:
  assumes "\<forall>cm \<in> set cms. om_namespace (cm_meta cm) = IstioSystemNamespace"
  shows "times_of cms r = GetConfigMapLastModified ` {cm \<in> {cm \<in> set cms. configmap_Filter (cm_meta cm)}. counts_for cm r}"
proof -
  have "{cm \<in> set cms. counts_for cm r} = {cm \<in> {cm \<in> set cms. configmap_Filter (cm_meta cm)}. counts_for cm r}"
    using assms by (auto simp: configmap_Filter_def counts_for_def)
  then show ?thesis by (simp add: times_of_def)
qed

definition one_per_tag :: "mutating_webhook_configuration list \<Rightarrow> bool" where
  "one_per_tag mwcs \<longleftrightarrow> (\<forall>tag. \<forall>m \<in> set mwcs. \<forall>m' \<in> set mwcs. defines_tag tag m \<longrightarrow> defines_tag tag m' \<longrightarrow> m = m')"

lemma last_defining_iff:
  assumes "one_per_tag mwcs"
  shows "last_defining tag mwcs = Some m \<longleftrightarrow> m \<in> {m \<in> set mwcs. mwc_Filter (mwc_meta m)} \<and> defines_tag tag m"
proof
  assume "last_defining tag mwcs = Some m"
  from last_defining_Some [OF this] show "m \<in> {m \<in> set mwcs. mwc_Filter (mwc_meta m)} \<and> defines_tag tag m"
    by (simp add: defines_tag_def mwc_Filter_def)
next
  assume m: "m \<in> {m \<in> set mwcs. mwc_Filter (mwc_meta m)} \<and> defines_tag tag m"
  then obtain m' where "last_defining tag mwcs = Some m'"
    using last_defining_None [of tag mwcs] by (cases "last_defining tag mwcs") auto
  with last_defining_Some [OF this] m assms show "last_defining tag mwcs = Some m" unfolding one_per_tag_def by blast
qed

text \<open>
  C40. What a reconciliation reads is watched. When the table of last modifications, or one of the tag
  tables, that a reconciliation would build differs between two states of the cluster, then among
  the creations, updates and deletions that lead from the one to the other there is one for which
  the watches put a request on the queue, the same for both, and its reconciliation is that of the
  whole cluster. The hypotheses: a listing of a namespace shows objects of that namespace, and no tag has two
  configurations (with two, the order of the listing decides).
\<close>

theorem watches_cover_config:
  assumes "kListConfigMaps k (Some IstioSystemNamespace) w = (Inr cms, w1)"
    and "kListConfigMaps k (Some IstioSystemNamespace) v = (Inr cms', v1)"
    and "\<forall>cm \<in> set (cms @ cms'). om_namespace (cm_meta cm) = IstioSystemNamespace"
    and "kListMWCs k w = (Inr mwcs, w2)" and "kListMWCs k v = (Inr mwcs', v2)"
    and "one_per_tag mwcs" and "one_per_tag mwcs'"
    and "returns (BuildLastModifiedByRevision k) w (Inr table) w1" and "returns (BuildLastModifiedByRevision k) v (Inr table') v1"
    and "returns (FetchTagToRevisionAndLastModified k) w (Inr tags) w2"
    and "returns (FetchTagToRevisionAndLastModified k) v (Inr tags') v2"
  shows "(table \<noteq> table' \<longrightarrow>
      (\<exists>e \<in> change_events cm_meta cms cms'. requests_for period (ConfigMapEvent e) = [configmap_ReconcileRequest])) \<and>
    (tags \<noteq> tags' \<longrightarrow>
      (\<exists>e \<in> change_events mwc_meta mwcs mwcs'. requests_for period (MWCEvent e) = [configmap_ReconcileRequest])) \<and>
    Reconcile rt rec configmap_ReconcileRequest = reconcileAll rt rec []"
proof (intro conjI impI)
  assume "table \<noteq> table'"
  have tables: "table = (\<lambda>r. max_time (times_of cms r))" "table' = (\<lambda>r. max_time (times_of cms' r))"
    using assms(1,2,8,9) by (auto simp: BuildLastModifiedByRevision_max)
  show "\<exists>e \<in> change_events cm_meta cms cms'. requests_for period (ConfigMapEvent e) = [configmap_ReconcileRequest]"
  proof (rule ccontr)
    assume "\<not> ?thesis"
    then have none: "\<not> predicate_funcs configmap_Filter e" if "e \<in> change_events cm_meta cms cms'" for e
      using that by (auto simp: enqueue_single)
    have "{x \<in> set cms. configmap_Filter (cm_meta x)} = {x \<in> set cms'. configmap_Filter (cm_meta x)}"
      by (rule unseen_change [where F = configmap_Filter and obj_meta = cm_meta]) (erule configmap_Filter_object, erule none)
    with tables \<open>table \<noteq> table'\<close> assms(3) show False
      by (simp add: times_of_watched)
  qed
next
  assume "tags \<noteq> tags'"
  have tables: "tags = ((\<lambda>tag. map_option (\<lambda>m. map_get (om_labels (mwc_meta m)) LabelIstioRev) (last_defining tag mwcs)),
      (\<lambda>tag. map_option getLastModified (last_defining tag mwcs)))"
    "tags' = ((\<lambda>tag. map_option (\<lambda>m. map_get (om_labels (mwc_meta m)) LabelIstioRev) (last_defining tag mwcs')),
      (\<lambda>tag. map_option getLastModified (last_defining tag mwcs')))"
    using assms(4,5,10,11) FetchTagToRevision_last [of k w "fst tags" "snd tags" w2]
      FetchTagToRevision_last [of k v "fst tags'" "snd tags'" v2]
    by (auto intro!: prod_eqI)
  show "\<exists>e \<in> change_events mwc_meta mwcs mwcs'. requests_for period (MWCEvent e) = [configmap_ReconcileRequest]"
  proof (rule ccontr)
    assume "\<not> ?thesis"
    then have none: "\<not> predicate_funcs mwc_Filter e" if "e \<in> change_events mwc_meta mwcs mwcs'" for e
      using that by (auto simp: enqueue_single configmap_ReconcileRequest_def mwc_ReconcileRequest_def)
    have same: "{x \<in> set mwcs. mwc_Filter (mwc_meta x)} = {x \<in> set mwcs'. mwc_Filter (mwc_meta x)}"
      by (rule unseen_change [where F = mwc_Filter and obj_meta = mwc_meta]) (erule mwc_Filter_object, erule none)
    have "last_defining tag mwcs = Some m \<longleftrightarrow> last_defining tag mwcs' = Some m" for tag m
      unfolding last_defining_iff [OF assms(6)] last_defining_iff [OF assms(7)] same by (rule refl)
    then have "last_defining tag mwcs = last_defining tag mwcs'" for tag
      by (metis not_None_eq)
    with tables \<open>tags \<noteq> tags'\<close> show False by simp
  qed
qed (simp add: Reconcile_def configmap_ReconcileRequest_def configmap_ReconcileRequestName_def periodic_ReconcileRequestName_def
    reconcileTriggerName_def ReconcileTriggerNameIstioChange_def)

text \<open>The example: a new revision's ConfigMap is created, and the webhook configuration of a tag.\<close>

definition example_tag_mwc :: mutating_webhook_configuration where
  "example_tag_mwc =
     \<lparr>mwc_meta = \<lparr>om_namespace = [], om_name = ''istio-revision-tag-canary'',
                  om_labels = [LabelIstioTag \<mapsto> ''canary'', LabelIstioRev \<mapsto> ''1-20''],
                  om_annotations = Map.empty, om_creation = 0, om_managed = [], om_owners = []\<rparr>,
      mwc_webhooks = []\<rparr>"

definition bare :: cluster where
  "bare = demo\<lparr>cl_configmaps := [], cl_mwcs := []\<rparr>"

definition upgraded :: cluster where
  "upgraded = demo\<lparr>cl_configmaps := [example_config_map], cl_mwcs := [example_tag_mwc]\<rparr>"

lemma example_counts: "counts_for example_config_map ''1-20''"
  by (simp add: counts_for_def example_config_map_def ConfigMapNamePrefix_def has_prefix_def
      ParseConfigMapValues_def values_revision_def nonempty_def unmarshal_map_braces)

lemma example_defines: "defines_tag ''canary'' example_tag_mwc"
  by (simp add: defines_tag_def example_tag_mwc_def istioRevisionTagPrefix_def has_prefix_def map_get_def
      LabelIstioTag_def LabelIstioRev_def)

theorem watches_cover_config_witness:
  "(\<exists>e \<in> change_events cm_meta [] [example_config_map]. requests_for 0 (ConfigMapEvent e) = [configmap_ReconcileRequest]) \<and>
   (\<exists>e \<in> change_events mwc_meta [] [example_tag_mwc]. requests_for 0 (MWCEvent e) = [configmap_ReconcileRequest])"
proof -
  let ?table = "\<lambda>cms r. max_time (times_of cms r)"
  let ?tags = "\<lambda>mwcs. ((\<lambda>tag. map_option (\<lambda>m. map_get (om_labels (mwc_meta m)) LabelIstioRev) (last_defining tag mwcs)),
      (\<lambda>tag. map_option getLastModified (last_defining tag mwcs)))"
  have ns: "om_namespace (cm_meta example_config_map) = IstioSystemNamespace"
    by (simp add: example_config_map_def IstioSystemNamespace_def)
  have lists: "kListConfigMaps mem_kube (Some IstioSystemNamespace) bare = (Inr [], bare)"
    "kListConfigMaps mem_kube (Some IstioSystemNamespace) upgraded = (Inr [example_config_map], upgraded)"
    "kListMWCs mem_kube bare = (Inr [], bare)" "kListMWCs mem_kube upgraded = (Inr [example_tag_mwc], upgraded)"
    using ns by (simp_all add: mem_kube_def bare_def upgraded_def in_namespace_def)
  have runs: "returns (BuildLastModifiedByRevision mem_kube) bare (Inr (?table [])) bare"
    "returns (BuildLastModifiedByRevision mem_kube) upgraded (Inr (?table [example_config_map])) upgraded"
    "returns (FetchTagToRevisionAndLastModified mem_kube) bare (Inr (?tags [])) bare"
    "returns (FetchTagToRevisionAndLastModified mem_kube) upgraded (Inr (?tags [example_tag_mwc])) upgraded"
    using lists by (auto simp: BuildLastModifiedByRevision_max FetchTagToRevision_last)
  have "?table [] ''1-20'' = None" "?table [example_config_map] ''1-20'' \<noteq> None"
    using example_counts by (simp_all add: times_of_def max_time_def)
  then have "?table [] \<noteq> ?table [example_config_map]" by (metis (no_types))
  moreover have "fst (?tags []) ''canary'' = None" "fst (?tags [example_tag_mwc]) ''canary'' \<noteq> None"
    using example_defines by (simp_all add: last_defining_def)
  then have "?tags [] \<noteq> ?tags [example_tag_mwc]" by (metis (no_types))
  moreover have "one_per_tag []" "one_per_tag [example_tag_mwc]" by (simp_all add: one_per_tag_def)
  ultimately show ?thesis
    using watches_cover_config [OF lists(1,2) _ lists(3,4) _ _ runs] ns by (simp only: list.set append_Nil) blast
qed

end
