(* ===== verification/Spec2Isabelle.thy ===== *)
theory Spec2Isabelle
  imports CommandLineSpec TestUtilsSpec Recency Manifests Watches
begin

text \<open>
  A verification development of Fortsa, a Kubernetes operator that restarts the workloads whose
  pods run an outdated Istio sidecar. The sources are the Go packages under \<open>src/cmd\<close>,
  \<open>src/internal\<close> and \<open>src/test/utils\<close>, and of the manifests under \<open>src/config\<close> and \<open>src/helm\<close> what
  the program is deployed with: its cluster role and its arguments.

  The program. Watches on ConfigMaps, webhook configurations and namespaces, and a ticker, put
  requests on a work queue. The reconciler takes a request, waits for Istiod to read its
  configuration, builds the tables of revisions, tags and modification times, and has the scanner
  go over the pods. For each pod the scanner looks for the owning workload, finds the revision it
  asks for, passes over pods newer than the configuration, sends a pod made from the workload's
  template to Istio's injection webhook and compares the proxy image it gets back with the one
  that runs. The workloads of outdated pods are annotated one after another, which restarts them.
  \<open>main\<close> reads the flags through viper, makes the options of the servers, the manager and the
  reconciler, registers the controller and starts the manager.

  The model. Go code with effects is a function of type \<open>('w, 'a) go\<close> (theory \<open>Prelude\<close>): from a
  world it gives \<open>None\<close> when it does not come back, otherwise a returned value or a panic together
  with the world it leaves. A result \<open>(v, err)\<close> is a sum, \<open>Inl\<close> the error. What is outside the
  repository is an argument of the definitions: the API client (\<open>'w kube\<close>), the clock, timers and
  map iteration (\<open>'w runtime\<close>), and the codecs, TLS and HTTP of the webhook client
  (\<open>'w transport\<close>), viper's getters (\<open>settings\<close>), the manager and certwatcher (\<open>manager_lib\<close>), and
  the work queue (\<open>'q work_queue\<close>), and for the test helpers the operating system (\<open>'w test_os\<close>) and the
  archive readers (\<open>release_lib\<close>). Strings are byte lists, maps are partial functions, times and durations are
  integers in nanoseconds (\<open>time.Time\<close> counted from the year 1, \<open>Sub\<close> saturating as in Go).
  Logging is left out.

  Theories and sources:
    \<^item> \<open>Prelude\<close>, \<open>GoTime\<close>, \<open>Json\<close>: strings, errors and effects; the RFC 3339 functions of package
      \<open>time\<close> with the calendar; \<open>encoding/json\<close> into \<open>map[string]interface{}\<close>. The JSON parser takes
      fuel, twice the length of the text and one more; \<open>parse_value_fuel\<close> shows that more changes
      nothing.
    \<^item> \<open>Kube\<close>: \<open>constants.go\<close>, the objects as the program reads them, the outside.
    \<^item> \<open>ConfigMaps\<close>: \<open>configmap_parser.go\<close>, \<open>fetch.go\<close>. \<open>MwcTags\<close>: the reading part of
      \<open>mwc/trigger.go\<close>. \<open>Triggers\<close>: the requests, filters and watches of the four \<open>trigger.go\<close> files
      and, as \<open>requests_for\<close>, what the watches of \<open>SetupIstioChangeController\<close> put on the queue.
    \<^item> \<open>Images\<close>, \<open>Owners\<close>, \<open>Scanner\<close>: \<open>pod_scanner.go\<close>. \<open>Webhook\<close>: \<open>webhook_client.go\<close>.
    \<^item> \<open>Annotator\<close>: \<open>workload_annotator.go\<close>. \<open>Reconciler\<close>: \<open>istio_change_reconciler.go\<close> and
      \<open>parseSkipNamespaces\<close> of \<open>main.go\<close>.
    \<^item> \<open>WorkQueue\<close>: the work queue as an interface (locale \<open>work_queue\<close>) with the algorithm of client-go
      as its instance. \<open>Controller\<close>: \<open>NewReconcileSource\<close> of \<open>periodic/trigger.go\<close>,
      \<open>SetupIstioChangeController\<close> with its builder, and the controller as a step relation
      (\<open>ctl_step\<close>: an event, a take, a finished reconciliation, an expired wait, others' changes) with
      its invariants by induction over runs (\<open>ctl_run\<close>).
    \<^item> \<open>Paths\<close>: the functions of \<open>strings\<close> and \<open>path/filepath\<close> that the sources use.
    \<^item> \<open>CommandLine\<close>: \<open>main.go\<close>: \<open>flags\<close> with their environment variables (\<open>env_key\<close>), the options
      (\<open>manager_options_of\<close>, \<open>reconciler_options_of\<close>), the certificate watchers, and the process
      (\<open>main_program\<close>, \<open>run_manager\<close>) with its exit codes.
    \<^item> \<open>TestUtils\<close>: \<open>utils.go\<close> (commands, CRD checks, kind, \<open>UncommentCode\<close>) and \<open>istio.go\<close>
      (\<open>DownloadIstio\<close> with its extraction, istioctl) of the tests; \<open>TestUtilsSpec\<close>: their properties.
    \<^item> \<open>ScanSpec\<close>: the specification of the scan (\<open>process_all\<close>, \<open>keep_first\<close>, \<open>outdated\<close>) and the
      refinement of the loop to it. \<open>ScanExact\<close>: exactness on a cluster that stands still.
    \<^item> \<open>Interfaces\<close>, \<open>Restarts\<close>, \<open>Cooldown\<close>, \<open>ReconcilerSpec\<close>: the interfaces as locales
      (\<open>api_reads\<close>, \<open>runtime_keeps\<close>, \<open>exchange\<close>, \<open>webhook_caller\<close>, \<open>workload_annotator\<close>,
      \<open>patch_log\<close>, \<open>merge_patch_api\<close>, \<open>namespaced_api\<close>, \<open>answering_webhook\<close>, \<open>installation\<close>) and what
      the components owe to them: what only reads, which patches are sent, what comes back.
      \<open>Outcomes\<close>: how a reconciliation fails (\<open>failure_at\<close>), what it leaves alone (\<open>reconciling\<close>), and
      that it passes over no outdated workload (\<open>all_attended\<close>).
    \<^item> \<open>Spacing\<close>: an observer that notes what the reads showed before each patch (locale
      \<open>restart_observer\<close>), and that a restart comes a cooldown after the one shown (\<open>cooled\<close>, \<open>spaced\<close>);
      \<open>Journal\<close>: the same over runs, with a cluster on which two restarts
      happen. \<open>Recency\<close>: what the cooldown holds back over runs (\<open>shows_restart\<close>, \<open>patches_of\<close>), and that
      what it does not hold back is restarted (\<open>overdue\<close>, \<open>all_restarted\<close>, \<open>due_restarted\<close>).
      \<open>Watches\<close>: the changes of the tables that a reconciliation builds are watched (\<open>change_events\<close>).
      \<open>Blocking\<close>: what a pod does whose processing never ends (\<open>blocks_scan\<close>). \<open>Settled\<close>: what
      happens when every pod is up to date (\<open>all_injected\<close>).
    \<^item> \<open>Obligations\<close>: the specification of the controller as an abstract machine (\<open>obl_step\<close>) and the
      simulation: \<open>obligations_of\<close> maps a state of the controller to one of the machine.
    \<^item> \<open>Manifests\<close>: \<open>config/rbac/role.yaml\<close> and the chart's \<open>manager-role.yaml\<close> (\<open>manager_role\<close>,
      \<open>chart_manager_role\<close>), with the client behind an authoriser (\<open>authorised\<close>); the arguments of
      the container in \<open>config\<close> (\<open>default_args\<close>) and in the chart (\<open>chart_args\<close>), down to the options.
    \<^item> \<open>ControllerSpec\<close>, \<open>CommandLineSpec\<close>: the properties of the controller and of the process; the
      others stand here or beside their definitions.
    \<^item> \<open>Cluster\<close>, \<open>Demo\<close>: a cluster in memory on which every locale is interpreted, and an example
      run. They stand for no code; the witnesses use them.

  What is shown. The patches of a reconciliation are restarts of workloads found outdated, in
  permitted namespaces, three at most for a name and none in a dry run; a reconciliation comes
  back; the scan is sound, refines a pipeline and is exact on a snapshot; the owner search is
  sound, comes back when ownership has no endless chain, and does not from a cycle of ReplicaSets
  (\<open>findWorkloadOwner\<close> is a least fixed point, the code having no bound); the annotator respects
  its cooldown and its three attempts; the tables, parsers and filters meet their specifications.
  A reconciliation fails only with a listing or a wait, writes nothing but restart annotations, and
  on a cluster that stands still restarts every outdated workload that is due, by its name. Of the controller: over any
  run its patches answer events of the run and respect flags and namespaces; no request is taken
  more often than asked for; every change is served, also one that arrives while its request is
  being processed or after failures, within a bounded number of steps once nothing fails; so
  changes lead to restarts, also with pauses between them as long as the pauses are not cut short.
  In any run a restart comes at least a cooldown after the one that the last read of the workload
  showed; the manager's client reads from a cache, so two restarts can be closer when the cache has
  not caught up with the first. A change of what the reconciliation reads is an event that asks for
  one. While reads show a restart
  less than the cooldown ago, nothing is sent, also when a pod is outdated: a change that arrives
  then waits for the next event. When every pod is up to date nothing is restarted. The controller
  refines an abstract machine of owed requests; but one pod whose processing panics or never ends
  keeps every request from being served. Of the process: it reads only declared flags at their
  types, each with a variable of its own, starts the manager last or exits, and offers HTTP/1.1
  alone unless told otherwise. Of the
  deployment: the cluster role grants every request of a reconciliation and no other writes but
  those of leader election, and the chart's values reach the options. Of the test helpers: unpacking
  an archive stays below its root, also when the archive has no end, and uncommenting undoes
  commenting.
  The hypotheses about the outside are the premises of the theorems, most of them locale
  predicates.

  What is not modelled: logging and zap's flags; HTTP and TLS themselves; the inside of viper, the
  manager and the queue, which have their documented laws. The controller has one worker, the
  default of controller-runtime, and a reconciliation is one step of it: others may change the
  world at every call through the operations of the outside, and between steps through \<open>Others\<close>.
  Rate limits and the spacing of ticks are not timed: an expired wait and a tick are actions. Of the
  test helpers the writing to the log is left out, and the extraction loop is a least fixed point,
  the archive being outside (\<open>entries_after\<close> gives the worlds of a run that never returns). The
  rendering of the chart is modelled for values that YAML reads back as they are written
  (\<open>chart_renders\<close>); \<open>chart_args\<close> gives nothing for others. The tests themselves are left out, and of the
  manifests what the program does not see: names, labels, services, probes, security contexts. The
  authoriser of the API server and the conversions of flag values are parameters. What remains of
  the Go sources beside the mapped lines is imports, comments and calls of the logger.
\<close>

section \<open>What a reconciliation does to the cluster\<close>

lemma demo_run:
  "Reconcile mem_runtime (NewIstioChangeReconciler mem_kube mem_runtime mem_transport demo_options) shop_request demo
     = Some (Return (Inr ()), demo_after (63835596810 * second))"
  using demo_reconcile [of "63835596800 * second"]
  by (simp add: returns_def demo_reconciler_def demo_def)

text \<open>
  C1. Every patch that a reconciliation sends to the API server sets the restart annotation of a
  workload that owns an outdated, listed and not skipped pod; a dry run sends none. The
  hypothesis is that reads, waits and webhook calls send no patches.
\<close>

theorem Reconcile_patches:
  assumes "installation k rt log tr"
    and "Reconcile rt (NewIstioChangeReconciler k rt tr opts) req w = Some (r, w')"
  shows "\<exists>es. log w' = log w @ es \<and> (ro_dry_run opts \<longrightarrow> es = []) \<and>
    (\<forall>e \<in> set es. \<exists>ref cfg. restarts ref e \<and>
       scan_finding k rt (CallWebhook k tr) cfg
         (scan_options_of (NewIstioChangeReconciler k rt tr opts) (request_limit req)) ref)"
proof -
  obtain es where es: "log w' = log w @ es" and rec: "reconciled k rt tr opts (request_limit req) es"
    using emitsE [OF installation.Reconcile_reconciled [OF assms(1)] assms(2)] by blast
  then have "\<forall>e \<in> set es. \<exists>ref cfg. restarts ref e \<and>
       scan_finding k rt (CallWebhook k tr) cfg
         (scan_options_of (NewIstioChangeReconciler k rt tr opts) (request_limit req)) ref"
    by (fastforce simp: reconciled_def elim: restart_run_restarts)
  with es rec show ?thesis by (auto simp: reconciled_def)
qed

theorem Reconcile_patches_witness:
  "\<exists>es. cl_log (demo_after (63835596810 * second)) = cl_log demo @ es \<and> length es = 2 \<and>
    (\<forall>e \<in> set es. \<exists>ref cfg. restarts ref e \<and>
       scan_finding mem_kube mem_runtime (CallWebhook mem_kube mem_transport) cfg
         (scan_options_of demo_reconciler (request_limit shop_request)) ref)"
  using Reconcile_patches [OF demo_installation demo_run]
  by (auto simp: demo_log demo_def demo_at_def demo_reconciler_def)

text \<open>
  C19. A reconciliation sends at most three patches to any one workload name, conflicts included.
\<close>

theorem Reconcile_patches_bounded:
  assumes "installation k rt log tr"
    and "Reconcile rt (NewIstioChangeReconciler k rt tr opts) req w = Some (r, w')"
  shows "\<exists>es. log w' = log w @ es \<and> length (filter (\<lambda>(ty, nn, doc). nn = name) es) \<le> patchConflictMaxRetries"
proof -
  obtain es where es: "log w' = log w @ es" and rec: "reconciled k rt tr opts (request_limit req) es"
    using emitsE [OF installation.Reconcile_reconciled [OF assms(1)] assms(2)] by blast
  from rec have "length (filter (\<lambda>(ty, nn, doc). nn = name) es) \<le> patchConflictMaxRetries"
    by (auto simp: reconciled_def intro: restart_run_per_name)
  with es show ?thesis by blast
qed

theorem Reconcile_patches_bounded_witness:
  "\<exists>es. cl_log (demo_after (63835596810 * second)) = cl_log demo @ es \<and>
     length (filter (\<lambda>(ty, nn, doc). nn = web_nn) es) \<le> patchConflictMaxRetries"
  by (rule Reconcile_patches_bounded [OF demo_installation demo_run])

text \<open>
  A dry run leaves alone everything that reads leave alone: for any property of the world that
  the API server's reads, the clock and the exchange with the webhook keep, a reconciliation in
  dry-run mode keeps it.
\<close>

theorem Reconcile_dry_run:
  assumes "reading k tr rt P" and "ro_dry_run opts"
  shows "preserves P (Reconcile rt (NewIstioChangeReconciler k rt tr opts) req)"
  using assms by (rule reading.dry_run_keeps)

theorem Reconcile_dry_run_witness:
  "preserves (\<lambda>c. cl_workloads c = cl_workloads demo)
     (Reconcile mem_runtime (NewIstioChangeReconciler mem_kube mem_runtime mem_transport
        (demo_options\<lparr>ro_dry_run := True\<rparr>)) shop_request)"
  by (rule Reconcile_dry_run) (simp_all add: mem_same.reading_axioms)

text \<open>
  C13. Where a reconciliation writes: never in a skipped namespace, and, for the request of a
  namespace event, only in that namespace. The hypotheses are the API server's rules about
  namespaces.
\<close>

theorem Reconcile_namespaces:
  assumes "installation k rt log tr" and "namespaced_api k rt"
    and "Reconcile rt (NewIstioChangeReconciler k rt tr opts) req w = Some (r, w')"
  shows "\<exists>es. log w' = log w @ es \<and>
    (\<forall>(ty, nn, doc) \<in> set es.
       (nn_namespace nn = [] \<or> nn_namespace nn \<notin> set (ro_skip_namespaces opts)) \<and>
       (\<forall>ns. req = namespace_ReconcileRequest ns \<longrightarrow> CHR ''_'' \<notin> set ns \<longrightarrow> ns \<noteq> [] \<longrightarrow> nn_namespace nn = ns))"
proof -
  obtain es where es: "log w' = log w @ es" and rec: "reconciled k rt tr opts (request_limit req) es"
    using emitsE [OF installation.Reconcile_reconciled [OF assms(1)] assms(3)] by blast
  have "(nn_namespace nn = [] \<or> nn_namespace nn \<notin> set (ro_skip_namespaces opts)) \<and>
       (\<forall>ns. req = namespace_ReconcileRequest ns \<longrightarrow> CHR ''_'' \<notin> set ns \<longrightarrow> ns \<noteq> [] \<longrightarrow> nn_namespace nn = ns)"
    if "(ty, nn, doc) \<in> set es" for ty nn doc
    using reconciled_namespaces [OF assms(2) rec that] by (auto simp: request_limit_namespace)
  with es show ?thesis by auto
qed

theorem Reconcile_namespaces_witness:
  "\<exists>es. cl_log (demo_after (63835596810 * second)) = cl_log demo @ es \<and>
     (\<forall>(ty, nn, doc) \<in> set es. nn_namespace nn = ''shop'')"
  using Reconcile_namespaces [OF demo_installation mem_ns.namespaced_api_axioms demo_run]
  by (fastforce simp: shop_request_def)

text \<open>
  C17. A reconciliation comes back with a result or an error, without a panic, when no chain of
  controller references is endless and the webhook gives a status with its denials.
\<close>

theorem Reconcile_returns:
  assumes "answering_webhook tr" and "wfp (\<lambda>nxt obj. next_object k obj nxt)"
  shows "\<exists>r w'. returns (Reconcile rt (NewIstioChangeReconciler k rt tr opts) req) w r w'"
  using Reconcile_total [OF assms] by (simp add: go_total_def)

theorem Reconcile_returns_witness:
  "\<exists>r w'. returns (Reconcile mem_runtime (NewIstioChangeReconciler (frozen_kube demo) mem_runtime
      mem_transport demo_options) shop_request) demo r w'"
  by (rule Reconcile_returns [OF mem_answers.answering_webhook_axioms frozen_demo_wfp])


section \<open>What a reconciliation is sure to do\<close>




text \<open>
  C18. Why a reconciliation fails: only because the wait for Istiod was cut short, or one of the three
  listings (ConfigMaps, webhook configurations, pods) failed, in a world that still has every
  property the reads keep; the error wraps theirs. A pod, workload, webhook or patch that fails
  does not make the reconciliation fail.
\<close>

theorem Reconcile_fails_only:
  assumes "reading k tr rt P" and "P w"
    and "returns (Reconcile rt (NewIstioChangeReconciler k rt tr opts) req) w (Inl e) w'"
  shows "\<exists>v. P v \<and> failure_at k rt (ro_istiod_config_read_delay opts) v e"
  using reading.Reconcile_fails_at [OF assms(1,3,2)] .

definition cancelled_demo :: cluster where
  "cancelled_demo = demo\<lparr>cl_cancelled := True\<rparr>"

lemma cancelled_run:
  "returns (Reconcile mem_runtime demo_reconciler shop_request) cancelled_demo
     (Inl (Wrap ''await istiod config read delay: '' (CtxErr ''context canceled''))) cancelled_demo"
proof -
  have "returns (awaitIstiodConfigReadDelay mem_runtime demo_reconciler) cancelled_demo
      (Some (CtxErr ''context canceled'')) cancelled_demo"
    by (auto simp: awaitIstiodConfigReadDelay_def waitOrContextDone_def demo_reconciler_def
        NewIstioChangeReconciler_def demo_options_def mem_runtime_def cancelled_demo_def intro!: returns_bindI)
  then have "returns (reconcileAll mem_runtime demo_reconciler [''shop'']) cancelled_demo
      (Inl (Wrap ''await istiod config read delay: '' (CtxErr ''context canceled''))) cancelled_demo"
    unfolding reconcileAll_def by (rule returns_bindI) simp
  then show ?thesis
    by (simp add: Reconcile_def shop_request_def namespace_ReconcileRequest_def periodic_ReconcileRequestName_def
        configmap_ReconcileRequestName_def reconcileTriggerName_def ReconcileTriggerNameIstioChange_def)
qed

theorem Reconcile_fails_only_witness:
  "\<exists>v. cl_workloads v = cl_workloads cancelled_demo \<and> failure_at mem_kube mem_runtime (10 * second) v
     (Wrap ''await istiod config read delay: '' (CtxErr ''context canceled''))"
  using Reconcile_fails_only [OF mem_same.reading_axioms refl cancelled_run [unfolded demo_reconciler_def]]
  by (simp add: demo_options_def)

text \<open>
  C14. The frame: a reconciliation, dry or not, keeps every property of the world that is kept by
  reads and by merge patches of the restart annotation; nothing else is ever written.
\<close>

theorem Reconcile_frame:
  assumes "reading k tr rt P"
    and "\<And>ty nn t. preserves P (go_call (kMergePatch k ty nn (restart_patch (format_rfc3339 t))))"
  shows "preserves P (Reconcile rt (NewIstioChangeReconciler k rt tr opts) req)"
  using assms by (intro reconciling.Reconcile_keeps reconciling.intro reconciling_axioms.intro)

text \<open>On the cluster in memory: the workloads without the restart annotation of their templates.\<close>

definition without_restart :: "workload \<Rightarrow> workload" where
  "without_restart wl =
     wl\<lparr>wl_template := (wl_template wl)
        \<lparr>pt_annotations := (pt_annotations (wl_template wl))(RestartedAtAnnotation := None)\<rparr>\<rparr>"

definition but_restarts :: "cluster \<Rightarrow> wtype \<Rightarrow> namespaced_name \<Rightarrow> workload option" where
  "but_restarts c ty nn = map_option without_restart (cl_workloads c ty nn)"

lemma without_restart_merge: "without_restart (merge_workload (restart_patch v) wl) = without_restart wl"
  by (simp add: without_restart_def merge_workload_def merge_annotations_restart)

lemma but_restarts_merge:
  assumes "kMergePatch mem_kube ty nn (restart_patch v) c = (r, c')"
  shows "but_restarts c' = but_restarts c"
proof (intro ext)
  fix ty' nn'
  show "but_restarts c' ty' nn' = but_restarts c ty' nn'"
    using assms
    by (auto simp: mem_kube_def mem_patch_def store_workload_def but_restarts_def without_restart_merge Let_def
        split: if_splits option.splits)
qed

lemma but_restarts_patch:
  "preserves (\<lambda>c. but_restarts c = s) (go_call (kMergePatch mem_kube ty nn (restart_patch v)))"
  by (rule preserves_call) (simp add: but_restarts_merge)

interpretation mem_but_restarts: reading mem_kube mem_transport mem_runtime "\<lambda>c. but_restarts c = s" for s
  by unfold_locales (auto simp: mem_defs but_restarts_def fun_eq_iff intro!: preserves_call split: if_splits)

theorem Reconcile_frame_witness:
  "preserves (\<lambda>c. but_restarts c = but_restarts demo)
     (Reconcile mem_runtime (NewIstioChangeReconciler mem_kube mem_runtime mem_transport demo_options) shop_request)"
  by (rule Reconcile_frame [OF mem_but_restarts.reading_axioms but_restarts_patch])


section \<open>The scan\<close>

text \<open>
  C12. A scan returns no workload name twice, and every workload it returns owns a pod that was
  listed, is not in a skipped namespace, is not newer than the configuration, and whose proxy
  image differs from the one the webhook gives a pod of the workload's template.
\<close>

theorem ScanOutdatedPods_sound:
  assumes "returns (ScanOutdatedPods k rt (Some caller) cfg opts) w (Inr refs) w'"
  shows "distinct (map wr_nn refs) \<and>
    (\<exists>pods w1. returns (listPods k rt opts) w (Inr pods) w1 \<and>
      (\<forall>ref \<in> set refs. \<exists>p \<in> set pods.
         (om_namespace (p_meta p) = [] \<or> om_namespace (p_meta p) \<notin> set (so_skip_namespaces opts)) \<and>
         outdated k caller cfg opts p ref))"
proof -
  from assms obtain pods w1 where l: "returns (listPods k rt opts) w (Inr pods) w1"
    and s: "returns (scan_pods (processPodForOutdatedSidecar k caller cfg opts)
           (filter (\<lambda>ns. ns \<noteq> []) (so_skip_namespaces opts)) [] [] pods) w1 refs w'"
    by (rule returns_ScanOutdatedPods)
  from scan_pods_outdated [OF s] l show ?thesis by fastforce
qed

lemma demo_scan_returns:
  "returns (ScanOutdatedPods mem_kube mem_runtime (Some (CallWebhook mem_kube mem_transport)) no_config shop_scan)
     demo (Inr [web_ref]) demo"
  unfolding demo_def by (rule demo_scan [OF demo_like_mem])

theorem ScanOutdatedPods_sound_witness:
  "outdated mem_kube (CallWebhook mem_kube mem_transport) no_config shop_scan web_pod web_ref"
proof -
  have "returns (listPods mem_kube mem_runtime shop_scan) demo (Inr pods) w \<longleftrightarrow> pods = [web_pod] \<and> w = demo" for pods w
    using demo_list [OF demo_like_mem] by (auto simp: returns_def demo_def)
  with ScanOutdatedPods_sound [OF demo_scan_returns] show ?thesis by auto
qed

text \<open>
  C28. The loop of the scan is a pipeline: list the pods, process those outside the skipped
  namespaces one after another, drop the pods that gave nothing, keep the first workload of every
  name. A scan without a webhook caller returns nothing and touches nothing.
\<close>

theorem ScanOutdatedPods_pipeline:
  "ScanOutdatedPods k rt (Some caller) cfg opts =
     go_try (\<lambda>err. err) (listPods k rt opts)
       (\<lambda>pods. go_bind
          (process_all (processPodForOutdatedSidecar k caller cfg opts)
             (scanned (filter (\<lambda>ns. ns \<noteq> []) (so_skip_namespaces opts)) pods))
          (\<lambda>found. go_ret (Inr (keep_first [] (somes found))))) \<and>
   ScanOutdatedPods k rt None cfg opts = go_ret (Inr [])"
  by (simp add: ScanOutdatedPods_def scan_pods_pipeline go_bind_assoc)

lemma frozen_demo_list: "returns (listPods (frozen_kube demo) mem_runtime shop_scan) demo (Inr [web_pod]) demo"
  unfolding demo_def returns_def by (rule demo_list [OF demo_like_frozen])

lemma frozen_demo_scan:
  "returns (ScanOutdatedPods (frozen_kube demo) mem_runtime
     (Some (CallWebhook (frozen_kube demo) (frozen_transport demo))) no_config shop_scan) demo (Inr [web_ref]) demo"
  unfolding demo_def by (rule demo_scan [OF demo_like_frozen])

text \<open>
  C8. On a cluster that stands still and whose objects have one controller at most, the scan is
  exact: the names it returns are those of the workloads that own an outdated pod among the pods
  that are listed and not skipped.
\<close>

theorem ScanOutdatedPods_exact:
  assumes "still_cluster k tr" and "returns (listPods k rt opts) w (Inr pods) w1"
    and "\<forall>p \<in> set pods. single_controller (p_meta p)"
    and "returns (ScanOutdatedPods k rt (Some (CallWebhook k tr)) cfg opts) w (Inr refs) w'"
  shows "set (map wr_nn refs) =
    {wr_nn ref | ref p. p \<in> set pods \<and>
       (om_namespace (p_meta p) = [] \<or> om_namespace (p_meta p) \<notin> set (so_skip_namespaces opts)) \<and>
       outdated k (CallWebhook k tr) cfg opts p ref}"
proof -
  let ?skip = "filter (\<lambda>ns. ns \<noteq> []) (so_skip_namespaces opts)"
  have scan: "returns (scan_pods (processPodForOutdatedSidecar k (CallWebhook k tr) cfg opts) ?skip [] [] pods)
      w1 refs w'"
    using assms(2,4) by (auto elim!: returns_ScanOutdatedPods dest: returns_unique)
  have "wr_nn ref \<in> set (map wr_nn refs)"
    if "p \<in> set pods" "om_namespace (p_meta p) = [] \<or> om_namespace (p_meta p) \<notin> set (so_skip_namespaces opts)"
      "outdated k (CallWebhook k tr) cfg opts p ref" for p ref
    using still_cluster.scan_exact [OF assms(1) scan] that assms(3) by auto
  moreover have "\<exists>p. p \<in> set pods \<and>
      (om_namespace (p_meta p) = [] \<or> om_namespace (p_meta p) \<notin> set (so_skip_namespaces opts)) \<and>
      outdated k (CallWebhook k tr) cfg opts p ref" if "ref \<in> set refs" for ref
    using scan_pods_outdated(2) [OF scan that] by auto
  ultimately show ?thesis by auto
qed

theorem ScanOutdatedPods_exact_witness:
  "set (map wr_nn [web_ref]) =
    {wr_nn ref | ref p. p \<in> set [web_pod] \<and>
       (om_namespace (p_meta p) = [] \<or> om_namespace (p_meta p) \<notin> set (so_skip_namespaces shop_scan)) \<and>
       outdated (frozen_kube demo) (CallWebhook (frozen_kube demo) (frozen_transport demo)) no_config shop_scan p ref}"
  by (rule ScanOutdatedPods_exact [OF frozen.still_cluster_axioms frozen_demo_list _ frozen_demo_scan])
    (simp add: web_pod_def meta_def controller_def single_controller_def)

text \<open>
  The scan keeps its results apart by namespace and name only: when two pods that follow one
  another belong to outdated workloads of different kinds with the same namespace and name, only
  the first is returned.
\<close>

lemma scan_pods_same_name:
  assumes "returns (process p1) w (Some ref1) w1" and "returns (process p2) w1 (Some ref2) w2"
    and "wr_nn ref1 = wr_nn ref2" and "wr_kind ref1 \<noteq> wr_kind ref2"
    and "om_namespace (p_meta p1) \<notin> set skipSet" and "om_namespace (p_meta p2) \<notin> set skipSet"
  shows "returns (scan_pods process skipSet [] [] [p1, p2]) w [ref1] w2 \<and> ref2 \<notin> set [ref1]"
  using assms by (auto intro!: returns_bindI)


section \<open>Owners\<close>

text \<open>
  C31. The owner search is sound: the workload it returns is reached from the object by a chain of
  controller references through fetched ReplicaSets and ControllerRevisions, is known to the
  server, and is a Deployment, StatefulSet or DaemonSet.
\<close>

theorem findWorkloadOwner_sound:
  assumes "returns (findWorkloadOwner k obj) w (Inr (Some ref)) w'"
  shows "owned_by k obj ref \<and> wr_kind ref \<in> {''Deployment'', ''StatefulSet'', ''DaemonSet''}"
proof -
  from findWorkloadOwner_owned_by [OF assms] have own: "owned_by k obj ref" .
  from owned_by_kind [OF own] have "wr_kind ref \<in> {''Deployment'', ''StatefulSet'', ''DaemonSet''}"
    by (auto simp: type_of_kind.simps split: if_splits)
  with own show ?thesis ..
qed

theorem findWorkloadOwner_sound_witness: "owned_by mem_kube (p_meta web_pod) web_ref"
  using findWorkloadOwner_sound [of mem_kube "p_meta web_pod" demo web_ref demo] demo_owner [OF demo_like_mem]
  by (simp add: returns_def demo_def)

text \<open>
  The owner search comes back, with an owner, none or an error, when no chain of controller
  references is endless.
\<close>

theorem findWorkloadOwner_returns:
  assumes "wfp (\<lambda>nxt obj. next_object k obj nxt)"
  shows "\<exists>r w'. returns (findWorkloadOwner k obj) w r w'"
  using findWorkloadOwner_total [OF assms] by (simp add: go_total_def)

theorem findWorkloadOwner_returns_witness:
  "\<exists>r w'. returns (findWorkloadOwner (frozen_kube demo) (p_meta web_pod)) demo r w'"
  by (rule findWorkloadOwner_returns [OF frozen_demo_wfp])

text \<open>
  C39. The owner search never comes back from a set of objects that is closed under the first
  controller reference, a ReplicaSet each time: the recursion has no bound.
\<close>

theorem findWorkloadOwner_diverges:
  assumes "C obj"
    and "\<And>obj. C obj \<Longrightarrow> \<exists>owner owners. om_owners obj = owner # owners \<and> controls owner \<and>
      or_kind owner = ''ReplicaSet'' \<and>
      (\<forall>w. \<exists>nxt w'. kGetReplicaSet k (owner_key obj owner) w = (Inr nxt, w') \<and> C nxt)"
  shows "findWorkloadOwner k obj w = None"
  using assms by (rule findWorkloadOwner_cycle)

theorem findWorkloadOwner_diverges_witness:
  "findWorkloadOwner (frozen_kube loop_cluster) loop_rs demo = None"
  by (rule findWorkloadOwner_diverges [where C = "\<lambda>obj. obj = loop_rs"]) (use loop_rs_step in simp_all)

text \<open>
  The revision or tag of a workload: the label of its pod template, if that is not empty;
  otherwise the label of its namespace, if not empty; otherwise \<open>default\<close> when the namespace has
  \<open>istio-injection=enabled\<close>, and nothing when not. The namespace is read only in the second case.
\<close>

theorem getIstioRev_precedence:
  assumes "type_of_kind (wr_kind ref) = Some ty"
  shows "returns (getIstioRevFromWorkloadOrNamespace k ref) w (Inr v) w' \<longleftrightarrow>
    (\<exists>wl w1. kGetWorkload k ty (wr_nn ref) w = (Inr wl, w1) \<and>
      (if map_get (pt_labels (wl_template wl)) LabelIstioRev \<noteq> []
       then v = map_get (pt_labels (wl_template wl)) LabelIstioRev \<and> w' = w1
       else \<exists>ns. kGetNamespace k (wr_namespace ref) w1 = (Inr ns, w') \<and>
         v = (if map_get (om_labels ns) LabelIstioRev \<noteq> [] then map_get (om_labels ns) LabelIstioRev
              else if om_labels ns LabelIstioInjection = Some ''enabled'' then ''default'' else [])))"
proof -
  have ns: "namespace_rev ns = (if map_get (om_labels ns) LabelIstioRev \<noteq> [] then map_get (om_labels ns) LabelIstioRev
              else if om_labels ns LabelIstioInjection = Some ''enabled'' then ''default'' else [])" for ns
    by (auto simp: namespace_rev_def map_get_def split: option.split)
  show ?thesis
    unfolding getIstioRevFromWorkloadOrNamespace_def assms option.case returns_try
    by (auto simp: ns returns_try split: if_splits)
qed

theorem getIstioRev_precedence_witness:
  "returns (getIstioRevFromWorkloadOrNamespace mem_kube web_ref) demo (Inr ''default'') demo"
proof -
  have ty: "type_of_kind (wr_kind web_ref) = Some DeploymentT" by (simp add: web_ref_def)
  from demo_like_mem [of "63835596800 * second"] show ?thesis
    unfolding getIstioRev_precedence [OF ty]
    by (simp add: demo_like_def demo_def web_ref_def web_nn_def web_def web_template_def meta_def map_get_def
        LabelIstioRev_def LabelIstioInjection_def)
qed


section \<open>The webhook\<close>

text \<open>
  C33. Every pod that the webhook client returns came from an answer with status 200 to a request
  made with certificate verification on, against a CA bundle that is not empty.
\<close>

theorem CallWebhook_verified:
  assumes "returns (CallWebhook k tr (Some p) revision prefer) w (Inr mutated) w'"
  shows "\<exists>url ca client reviewBytes body w1.
    returns (getWebhookURLAndCABundle k revision prefer) w (Inr (url, ca)) w1 \<and> ca \<noteq> [] \<and>
    hc_root_cas client = ca \<and> \<not> hc_insecure_skip_verify client \<and>
    trDo tr client url reviewBytes w1 = (Inr (200, body), w')"
proof -
  from assms obtain url ca w1 where u: "returns (getWebhookURLAndCABundle k revision prefer) w (Inr (url, ca)) w1"
    and rest: "returns (case transportForCABundle tr ca of
            Inl err \<Rightarrow> go_ret (Inl (Wrap ''create transport: '' err))
          | Inr httpClient \<Rightarrow>
              (case trMarshalPod tr (Some p) of
                 Inl err \<Rightarrow> go_ret (Inl (Wrap ''marshal pod: '' err))
               | Inr podRaw \<Rightarrow>
                        (case trMarshalReview tr (make_review p podRaw) of
                           Inl err \<Rightarrow> go_ret (Inl (Wrap ''marshal admission review: '' err))
                         | Inr reviewBytes \<Rightarrow> send_review tr httpClient url p podRaw reviewBytes))) w1 (Inr mutated) w'"
    unfolding CallWebhook_def option.case by (auto elim!: returns_tryE)
  from rest obtain client podRaw reviewBytes where client: "transportForCABundle tr ca = Inr client"
    and send: "returns (send_review tr client url p podRaw reviewBytes) w1 (Inr mutated) w'"
    by (auto split: sum.splits)
  from send obtain body where "trDo tr client url reviewBytes w1 = (Inr (200, body), w')"
    by (auto simp: send_review_def handle_response_def elim!: returns_tryE
        split: option.splits sum.splits if_splits)
  moreover from u have "ca \<noteq> []"
    unfolding getWebhookURLAndCABundle_def
    by (auto elim!: returns_bindE returns_tryE getCABundleForRevision_Inr
        simp: tag_webhook_Inr split: option.splits if_splits sum.splits list.splits)
  moreover from client have "hc_root_cas client = ca" "\<not> hc_insecure_skip_verify client"
    by (auto simp: transportForCABundle_def split: if_splits)
  ultimately show ?thesis using u by blast
qed

theorem CallWebhook_verified_witness:
  "\<exists>url client reviewBytes body w1.
     returns (getWebhookURLAndCABundle mem_kube ''default'' True) demo (Inr (url, hc_root_cas client)) w1 \<and>
     \<not> hc_insecure_skip_verify client \<and>
     trDo mem_transport client url reviewBytes w1 = (Inr (200, body), demo)"
proof -
  have "returns (CallWebhook mem_kube mem_transport (Some web_pod) ''default'' True) demo
      (Inr (proxy_pod ''istio/proxyv2:1.20'')) demo"
    using demo_webhook [OF demo_like_mem] by (simp add: returns_def demo_def)
  from CallWebhook_verified [OF this] show ?thesis by blast
qed

text \<open>
  C34. A denial without a status makes the webhook client panic: the nil pointer to the status is
  dereferenced for the error message.
\<close>

theorem CallWebhook_denial_panics:
  assumes "returns (getWebhookURLAndCABundle k revision prefer) w (Inr (url, ca)) w1"
    and "transportForCABundle tr ca = Inr client" and "trMarshalPod tr (Some p) = Inr podRaw"
    and "trMarshalReview tr (make_review p podRaw) = Inr reviewBytes" and "trNewRequest tr url = None"
    and "trDo tr client url reviewBytes w1 = (Inr (200, body), w2)"
    and "trDecodeReview tr body = Inr (Some response)" and "\<not> ar_allowed response" and "ar_result_message response = None"
  shows "\<exists>msg. CallWebhook k tr (Some p) revision prefer w = Some (Panic msg, w2)"
  using assms
  by (simp add: CallWebhook_def go_try_def go_bind_def returns_def send_review_def handle_response_def
      go_call_def go_panic_def)

theorem CallWebhook_denial_panics_witness:
  "\<exists>msg. CallWebhook mem_kube denying_transport (Some web_pod) ''default'' True demo = Some (Panic msg, demo)"
  by (rule CallWebhook_denial_panics [OF demo_url [OF demo_like_mem [of "63835596800 * second"],
        folded demo_def returns_def], where client = "\<lparr>hc_timeout = 30 * second, hc_root_cas = ''CA'',
          hc_insecure_skip_verify = False, hc_dial_timeout = 5 * second, hc_keep_alive = 30 * second,
          hc_tls_handshake_timeout = 10 * second\<rparr>"])
    (auto simp: denying_transport_def mem_transport_def transportForCABundle_def getWebhookURL_def service_url_def)


section \<open>The annotator\<close>

text \<open>
  C38. What the annotator writes it reads back. When a merge patch of the annotator, made at a time
  whose year has four digits, is applied to a workload by the rules of RFC 7386, the time read from
  its annotation is that time, cut to the second, and no other annotation of the template changes.
\<close>

theorem restarted_at_written:
  assumes "0 \<le> year_of now" and "year_of now \<le> 9999"
  shows "restarted_at (wl_template (merge_workload (restart_patch (format_rfc3339 now)) wl)) = now - now mod second \<and>
    (\<forall>key. key \<noteq> RestartedAtAnnotation \<longrightarrow>
       pt_annotations (wl_template (merge_workload (restart_patch (format_rfc3339 now)) wl)) key = pt_annotations (wl_template wl) key)"
  using parse_format [OF assms]
  by (simp add: merge_workload_def merge_annotations_restart restarted_at_def format_rfc3339_def Let_def split: prod.split)

theorem restarted_at_written_witness:
  "restarted_at (wl_template (merge_workload (restart_patch (format_rfc3339 (63835596810 * second + 7))) web)) =
     63835596810 * second"
proof -
  have "year_of (63835596810 * second + 7) = 2023" by code_simp
  with restarted_at_written [of "63835596810 * second + 7" web] show ?thesis by (simp add: mod_add_left_eq [symmetric])
qed

text \<open>
  A workload that was restarted less than the cooldown ago is left alone: the annotator reads
  the workload and the clock and sends nothing.
\<close>

theorem Annotate_recent:
  assumes "0 < cooldown" and "is_duration cooldown" and "type_of_kind (wr_kind ref) = Some ty"
    and "kGetWorkload k ty (wr_nn ref) w = (Inr wl, w1)" and "rtNow rt w1 = (now, w2)"
    and "restarted_at (wl_template wl) \<noteq> zero_time"
    and "now < restarted_at (wl_template wl) + cooldown"
  shows "Annotate k rt cooldown ref w = Some (Return (Inr False), w2)"
proof -
  have "min_duration < cooldown" using assms(1) by (simp add: min_duration_def)
  with assms(2,7) have "time_sub now (restarted_at (wl_template wl)) < cooldown"
    by (simp add: time_sub_less_iff)
  with Annotate_cooldown [OF assms(1,3,4) _ assms(5)] assms(6) show ?thesis
    by (simp add: is_zero_def returns_def)
qed

theorem Annotate_recent_witness:
  "Annotate mem_kube mem_runtime (300 * second) web_ref (demo_after (63835596810 * second))
     = Some (Return (Inr False), demo_after (63835596810 * second))"
proof -
  let ?t = "63835596810 * second"
  let ?wl = "merge_workload (restart_patch (format_rfc3339 ?t)) web"
  have get: "kGetWorkload mem_kube DeploymentT (wr_nn web_ref) (demo_after ?t) = (Inr ?wl, demo_after ?t)"
    by (simp add: mem_kube_def demo_after_def store_workload_def answer_def web_ref_def)
  have now: "rtNow mem_runtime (demo_after ?t) = (?t + patchConflictBackoff, demo_after ?t)"
    by (simp add: mem_runtime_def demo_after_def store_workload_def demo_at_def)
  have at: "restarted_at (wl_template ?wl) = ?t"
    using mem_merge.restarted_at_after_patch [of DeploymentT web_nn ?t _ "demo_after ?t" ?wl "demo_after ?t"]
      demo_try_2 [of ?t] get demo_year
    by (simp add: mem_kube_def web_ref_def)
  show ?thesis
    by (rule Annotate_recent [OF _ _ _ get now])
      (simp_all add: at [simplified] is_duration_def min_duration_def max_duration_def web_ref_def zero_time_def
        patchConflictBackoff_def)
qed

text \<open>
  A restart is not repeated: when the annotator has annotated a workload, its next call for it
  sends nothing as long as the clock stays within a window shorter than the cooldown by a second
  (annotations are cut to the second). The hypotheses are that a merge patch that went through is
  read back, and the window.
\<close>

theorem Annotate_not_repeated:
  assumes "merge_patch_api k" and "clock_within rt lo hi" and "second < lo" and "hi - lo < cooldown - second"
    and "is_duration cooldown" and "returns (Annotate k rt cooldown ref) w (Inr True) w1"
    and "type_of_kind (wr_kind ref) = Some ty" and "kGetWorkload k ty (wr_nn ref) w1 = (Inr wl, w2)"
  shows "Annotate k rt cooldown ref w1 = Some (Return (Inr False), snd (rtNow rt w2))"
  using merge_patch_api.Annotate_again [OF assms] by (metis returns_def snd_conv)

theorem Annotate_not_repeated_witness:
  "Annotate mem_kube stopped_runtime (300 * second) web_ref (snd (mem_patch DeploymentT web_nn
       (restart_patch (format_rfc3339 (63835596810 * second))) (demo\<lparr>cl_conflicts := 0\<rparr>)))
     = Some (Return (Inr False), snd (mem_patch DeploymentT web_nn
       (restart_patch (format_rfc3339 (63835596810 * second))) (demo\<lparr>cl_conflicts := 0\<rparr>)))"
  using Annotate_not_repeated [OF mem_merge.merge_patch_api_axioms stopped_clock _ _ _ stopped_annotate stopped_kind stopped_get]
  by (simp add: is_duration_def min_duration_def max_duration_def stopped_runtime_def)

text \<open>
  The outcome of the retries is that of the last attempt, or the error of a context that was
  cancelled during a wait.
\<close>

theorem patchWithRetry_outcome:
  assumes "returns (patchWithRetry rt patch) w r w'"
  shows "(\<exists>v. returns patch v r w') \<or>
    (\<exists>v e. rtSelect rt patchConflictBackoff v = (CtxDone e, w') \<and> r = Some e)"
  using assms unfolding patchWithRetry_three by (blast elim: returns_retry_cases)

theorem patchWithRetry_outcome_witness:
  "(\<exists>v. returns (go_call (kMergePatch mem_kube DeploymentT web_nn (restart_patch (format_rfc3339 0)))) v None
       (demo_after 0)) \<or>
    (\<exists>v e. rtSelect mem_runtime patchConflictBackoff v = (CtxDone e, demo_after 0) \<and> None = Some e)"
  by (rule patchWithRetry_outcome [OF demo_patch])

text \<open>
  A conflict is retried twice and no more: after two conflicts, each followed by a wait, the
  third answer is the result, a conflict included.
\<close>

theorem patchWithRetry_third:
  assumes "returns patch w (Some e1) w1" and "isConflict e1"
    and "rtSelect rt patchConflictBackoff w1 = (TimerFired, w2)"
    and "returns patch w2 (Some e2) w3" and "isConflict e2"
    and "rtSelect rt patchConflictBackoff w3 = (TimerFired, w4)"
    and "returns patch w4 r w5"
  shows "returns (patchWithRetry rt patch) w r w5"
  unfolding patchWithRetry_three
  by (rule retry_after_conflict [OF assms(1-3) retry_after_conflict [OF assms(4-7)]])

theorem patchWithRetry_third_witness:
  "\<exists>c. returns (patchWithRetry mem_runtime (\<lambda>c. Some (Return (Some (Conflict ''web'')), c))) demo
     (Some (Conflict ''web'')) c"
proof -
  have wait: "rtSelect mem_runtime d c = (TimerFired, c\<lparr>cl_now := cl_now c + d\<rparr>)" if "\<not> cl_cancelled c" for c d
    using that by (simp add: mem_runtime_def)
  have conflict: "returns (\<lambda>c. Some (Return (Some (Conflict ''web'')), c)) c (Some (Conflict ''web'')) c" for c :: cluster
    by (simp add: returns_def)
  have running: "\<not> cl_cancelled demo" by (simp add: demo_def demo_at_def)
  show ?thesis
    by (rule exI, rule patchWithRetry_third [OF conflict _ wait conflict _ wait conflict])
      (simp_all add: running)
qed

text \<open>
  An answer that is no conflict ends the patching at once: success and every other error are
  returned after the first attempt.
\<close>

theorem patchWithRetry_first:
  assumes "returns patch w r w'" and "r \<noteq> None \<Longrightarrow> \<not> isConflict (the r)"
  shows "returns (patchWithRetry rt patch) w r w'"
  unfolding patchWithRetry_three by (rule retry_after_stop [OF assms(1)]) (use assms(2) in simp)

theorem patchWithRetry_first_witness:
  "returns (patchWithRetry mem_runtime (go_call (\<lambda>c. (Some (NotFound ''web''), c)))) demo
     (Some (NotFound ''web'')) demo"
  by (rule patchWithRetry_first) simp_all


section \<open>Requests and runs\<close>

text \<open>
  Every request that the watches put on the queue is served: a configuration change or a tick
  by a reconciliation of the whole cluster, a namespace event by one of the namespaces of its
  objects, provided their names are Kubernetes names.
\<close>

theorem Reconcile_routes:
  assumes "\<forall>obj \<in> set (event_objects e). om_name obj \<noteq> [] \<and> CHR ''_'' \<notin> set (om_name obj)"
  shows "(\<forall>req \<in> set (requests_for period (ConfigMapEvent e)) \<union> set (requests_for period (MWCEvent e)) \<union>
      set (requests_for period TickEvent). Reconcile rt r req = reconcileAll rt r []) \<and>
    (\<forall>req \<in> set (requests_for period (NamespaceEvent e)).
      \<exists>obj \<in> set (event_objects e). Reconcile rt r req = reconcileAll rt r [om_name obj])"
proof
  have config: "Reconcile rt r configmap_ReconcileRequest = reconcileAll rt r []"
    "Reconcile rt r mwc_ReconcileRequest = reconcileAll rt r []"
    "Reconcile rt r periodic_ReconcileRequest = reconcileAll rt r []"
    by (simp_all add: Reconcile_def configmap_ReconcileRequest_def mwc_ReconcileRequest_def
        periodic_ReconcileRequest_def configmap_ReconcileRequestName_def periodic_ReconcileRequestName_def)
  show "\<forall>req \<in> set (requests_for period (ConfigMapEvent e)) \<union> set (requests_for period (MWCEvent e)) \<union>
      set (requests_for period TickEvent). Reconcile rt r req = reconcileAll rt r []"
    by (auto simp: enqueue_from_map_set config split: if_splits)
  have "Reconcile rt r (namespace_ReconcileRequest ns) = reconcileAll rt r [ns]"
    if "ns \<noteq> []" "CHR ''_'' \<notin> set ns" for ns
    using namespace_not_reserved [OF that(2)] that(1)
    by (simp add: Reconcile_def namespace_ReconcileRequest_def)
  then show "\<forall>req \<in> set (requests_for period (NamespaceEvent e)).
      \<exists>obj \<in> set (event_objects e). Reconcile rt r req = reconcileAll rt r [om_name obj]"
    using assms by (auto simp: enqueue_from_map_set split: if_splits)
qed

theorem Reconcile_routes_witness:
  "Reconcile mem_runtime demo_reconciler (namespace_ReconcileRequest ''shop'')
     = reconcileAll mem_runtime demo_reconciler [''shop'']"
proof -
  let ?ns = "meta [] ''shop'' [LabelIstioInjection \<mapsto> ''enabled''] []"
  have labels: "hasIstioLabels ?ns" by (simp add: hasIstioLabels_def meta_def LabelIstioInjection_def)
  have name: "om_name ?ns = ''shop''" by (simp add: meta_def)
  from Reconcile_routes [of "UpdateEvent ?ns ?ns" 0 mem_runtime demo_reconciler] show ?thesis
    by (simp add: labels name)
qed

text \<open>
  Without a restart delay and outside dry runs, the run over the workloads calls the annotator
  on each of them in turn, and an error for one does not keep the others from being annotated.
\<close>

theorem annotateWorkloads_all:
  assumes "rc_restart_delay r \<le> 0" and "\<not> rc_dry_run r"
  shows "annotateWorkloadsWithDelay rt r refs =
    go_bind (process_all (rc_annotator r) refs) (\<lambda>results. go_ret ())"
  using assms by (simp add: annotateWorkloadsWithDelay_def annotate_from_all)

theorem annotateWorkloads_all_witness:
  "annotateWorkloadsWithDelay mem_runtime demo_reconciler [web_ref] =
     go_bind (process_all (Annotate mem_kube mem_runtime (300 * second)) [web_ref]) (\<lambda>results. go_ret ())"
  using annotateWorkloads_all [of demo_reconciler mem_runtime "[web_ref]"]
  by (simp add: demo_reconciler_def NewIstioChangeReconciler_def demo_options_def)

text \<open>
  A context that is cancelled during the delay ends the run: after the first workload no other
  is annotated.
\<close>

theorem annotateWorkloads_cancelled:
  assumes "0 < rc_restart_delay r" and "\<not> rc_dry_run r"
    and "returns (rc_annotator r ref1) w x w1" and "rtSelect rt (rc_restart_delay r) w1 = (CtxDone e, w2)"
  shows "returns (annotateWorkloadsWithDelay rt r (ref1 # ref2 # refs)) w () w2"
proof -
  have rest: "returns (annotate_from rt r (Suc 0) (ref2 # refs)) w1 () w2"
    by (rule annotate_from_cancelled [OF assms(1) _ assms(4)]) simp
  have "returns (go_bind (rc_annotator r ref1) (\<lambda>_. annotate_from rt r (Suc 0) (ref2 # refs))) w () w2"
    by (rule returns_bindI [OF assms(3) rest])
  with assms(2) show ?thesis
    unfolding annotateWorkloadsWithDelay_def annotate_from.simps(2) [of rt r 0] by simp
qed

theorem annotateWorkloads_cancelled_witness:
  "\<exists>c. returns (annotateWorkloadsWithDelay
      (mem_runtime\<lparr>rtSelect := (\<lambda>d c. (CtxDone (CtxErr ''context canceled''), c))\<rparr>)
      (demo_reconciler\<lparr>rc_restart_delay := 5 * second\<rparr>) [web_ref, web_ref]) demo () c"
proof -
  let ?r = "demo_reconciler\<lparr>rc_restart_delay := 5 * second\<rparr>"
  have "returns (rc_annotator ?r web_ref) demo (Inr True) (demo_after (63835596800 * second))"
    using demo_annotate [of "300 * second" "63835596800 * second"]
    by (simp add: demo_reconciler_def NewIstioChangeReconciler_def demo_options_def demo_def)
  from annotateWorkloads_cancelled [OF _ _ this, of "mem_runtime\<lparr>rtSelect := (\<lambda>d c. (CtxDone (CtxErr ''context canceled''), c))\<rparr>"
      "CtxErr ''context canceled''" _ web_ref "[]"]
  show ?thesis
    by (auto simp: demo_reconciler_def NewIstioChangeReconciler_def demo_options_def)
qed

end
